(* ===== verification/NN_Prelude.thy ===== *)
theory NN_Prelude
  imports
    Main
    "HOL-Library.Word"
    "HOL-Library.AList"
    "HOL-Library.Char_ord"
    "HOL-Library.List_Lexorder"
    "HOL-Library.Sublist"
begin

text \<open>
  The vocabulary the component theories share.

  \<^item> Rust's \<open>Result\<close> is the datatype \<open>result\<close> with the source's constructors, and \<open>?\<close> is \<open>rbind\<close>.
  \<^item> Rust's integers are words of their width; \<open>usize\<close> lengths are \<open>nat\<close>.
  \<^item> A Rust \<open>String\<close> is a \<open>string\<close>: a HOL character is a byte, so \<open>length\<close> counts bytes as
    \<open>str::len\<close> does, and the lexicographic order of \<open>List_Lexorder\<close> and \<open>Char_ord\<close> is Rust's.
  \<^item> \<open>Duration\<close> and \<open>Instant\<close> are nanoseconds in \<open>nat\<close>.
  \<^item> A \<open>HashMap\<close> that the code iterates is an association list with distinct keys, and a
    \<open>HashSet\<close> a distinct list. Rust leaves the iteration order open; a statement about every such
    list covers every order. Maps and sets that are only looked up are \<open>'k \<rightharpoonup> 'v\<close> and \<open>'a set\<close>.

  The locales \<open>invariant_system\<close>, \<open>backoff_schedule\<close>, \<open>version_guard\<close> and \<open>length_prefix\<close> are
  the contracts that several components share; each component interprets them on its own
  definitions.
\<close>

unbundle bit_operations_syntax

type_synonym u8 = "8 word"
type_synonym u16 = "16 word"
type_synonym u32 = "32 word"
type_synonym u64 = "64 word"
type_synonym bytes = "u8 list"
type_synonym instant = nat
type_synonym duration = nat

named_theorems nn_defs \<open>definitions of operations, for unfolding a handler\<close>
named_theorems nn_split \<open>case splits of the result type and of the components' data\<close>

section \<open>Results\<close>

datatype ('a, 'e) result = Ok 'a | Err 'e

fun rbind :: "('a, 'e) result \<Rightarrow> ('a \<Rightarrow> ('b, 'e) result) \<Rightarrow> ('b, 'e) result" where
  "rbind (Ok x) f = f x"
| "rbind (Err e) f = Err e"

fun map_err :: "('e \<Rightarrow> 'f) \<Rightarrow> ('a, 'e) result \<Rightarrow> ('a, 'f) result" where
  "map_err f (Ok x) = Ok x"
| "map_err f (Err e) = Err (f e)"

fun map_ok :: "('a \<Rightarrow> 'b) \<Rightarrow> ('a, 'e) result \<Rightarrow> ('b, 'e) result" where
  "map_ok f (Ok x) = Ok (f x)"
| "map_ok f (Err e) = Err e"

fun ok_or :: "'e \<Rightarrow> 'a option \<Rightarrow> ('a, 'e) result" where
  "ok_or e None = Err e"
| "ok_or e (Some x) = Ok x"

fun is_ok :: "('a, 'e) result \<Rightarrow> bool" where
  "is_ok (Ok x) \<longleftrightarrow> True"
| "is_ok (Err e) \<longleftrightarrow> False"

lemma rbind_Ok_iff: "rbind r f = Ok y \<longleftrightarrow> (\<exists>x. r = Ok x \<and> f x = Ok y)"
  by (cases r) auto

lemma rbind_Err_iff: "rbind r f = Err e \<longleftrightarrow> r = Err e \<or> (\<exists>x. r = Ok x \<and> f x = Err e)"
  by (cases r) auto

lemma map_err_Ok_iff [simp]: "map_err f r = Ok y \<longleftrightarrow> r = Ok y"
  by (cases r) auto

lemma map_ok_Ok_iff: "map_ok f r = Ok y \<longleftrightarrow> (\<exists>x. r = Ok x \<and> y = f x)"
  by (cases r) auto

lemma ok_or_Ok_iff [simp]: "ok_or e r = Ok y \<longleftrightarrow> r = Some y"
  by (cases r) auto

lemma ok_or_Err_iff: "ok_or e r = Err e' \<longleftrightarrow> r = None \<and> e' = e"
  by (cases r) auto

lemmas result_iffs = rbind_Ok_iff rbind_Err_iff map_ok_Ok_iff ok_or_Err_iff

section \<open>Time\<close>

definition from_secs :: "nat \<Rightarrow> duration" where
  "from_secs n = n * 1000000000"

text \<open>\<open>Duration::MAX\<close> is \<open>u64::MAX\<close> seconds and 999999999 nanoseconds.\<close>

definition duration_max :: duration where
  "duration_max = (2 ^ 64 - 1) * 1000000000 + 999999999"

definition dur_sat_add :: "duration \<Rightarrow> duration \<Rightarrow> duration" where
  "dur_sat_add a b = min (a + b) duration_max"

definition dur_sat_mul :: "duration \<Rightarrow> nat \<Rightarrow> duration" where
  "dur_sat_mul a n = min (a * n) duration_max"

lemma from_secs_mono: "m \<le> n \<Longrightarrow> from_secs m \<le> from_secs n"
  by (simp add: from_secs_def)

lemma from_secs_le_iff [simp]: "from_secs m \<le> from_secs n \<longleftrightarrow> m \<le> n"
  by (simp add: from_secs_def)

lemma from_secs_eq_0_iff [simp]: "from_secs n = 0 \<longleftrightarrow> n = 0"
  by (simp add: from_secs_def)

section \<open>Saturating counters\<close>

text \<open>\<open>saturating_add(1)\<close>.\<close>

definition sat_inc :: "'a::len word \<Rightarrow> 'a word" where
  "sat_inc w = (if w = - 1 then w else w + 1)"

lemma unat_sat_inc: "unat (sat_inc (w :: 'a::len word)) = min (unat w + 1) (2 ^ LENGTH('a) - 1)"
proof (cases "w = - 1")
  case True
  moreover have "unat (- 1 :: 'a word) = 2 ^ LENGTH('a) - 1"
    by (simp add: unsigned_minus_1_eq_mask mask_eq_exp_minus_1)
  ultimately show ?thesis by (simp add: sat_inc_def)
next
  case False
  then have "w + 1 \<noteq> 0" by (metis add.right_neutral add_diff_cancel_right' diff_0)
  then have "unat (w + 1) = unat w + 1" by (metis Suc_eq_plus1 add.commute unatSuc)
  moreover have "unat (w + 1) < 2 ^ LENGTH('a)" by (rule unsigned_less)
  ultimately show ?thesis using False by (simp add: sat_inc_def)
qed

section \<open>Hash maps as association lists\<close>

abbreviation hm_get :: "('k \<times> 'v) list \<Rightarrow> 'k \<Rightarrow> 'v option" where
  "hm_get \<equiv> map_of"

abbreviation hm_put :: "'k \<Rightarrow> 'v \<Rightarrow> ('k \<times> 'v) list \<Rightarrow> ('k \<times> 'v) list" where
  "hm_put \<equiv> AList.update"

abbreviation hm_del :: "'k \<Rightarrow> ('k \<times> 'v) list \<Rightarrow> ('k \<times> 'v) list" where
  "hm_del \<equiv> AList.delete"

abbreviation hm_keys :: "('k \<times> 'v) list \<Rightarrow> 'k set" where
  "hm_keys m \<equiv> fst ` set m"

definition hm_wf :: "('k \<times> 'v) list \<Rightarrow> bool" where
  "hm_wf m \<longleftrightarrow> distinct (map fst m)"

lemma hm_get_put [simp]:
  "hm_get (hm_put k v m) k' = (if k' = k then Some v else hm_get m k')"
  by (simp add: update_conv')

lemma hm_get_del [simp]:
  "hm_get (hm_del k m) k' = (if k' = k then None else hm_get m k')"
  by (simp add: delete_conv')

lemma hm_keys_put [simp]: "hm_keys (hm_put k v m) = insert k (hm_keys m)"
  using dom_update [of k v m] by (simp add: dom_map_of_conv_image_fst)

lemma hm_keys_del [simp]: "hm_keys (hm_del k m) = hm_keys m - {k}"
  by (auto simp: AList.delete_eq image_iff)

lemma hm_wf_Nil [simp, intro!]: "hm_wf []"
  by (simp add: hm_wf_def)

lemma hm_wf_put [simp, intro]: "hm_wf m \<Longrightarrow> hm_wf (hm_put k v m)"
  by (simp add: hm_wf_def distinct_update)

lemma hm_wf_del [simp, intro]: "hm_wf m \<Longrightarrow> hm_wf (hm_del k m)"
  by (simp add: hm_wf_def distinct_delete)

lemma hm_get_eq_Some_iff: "hm_wf m \<Longrightarrow> hm_get m k = Some v \<longleftrightarrow> (k, v) \<in> set m"
  by (simp add: hm_wf_def)

lemma hm_get_None_iff: "hm_get m k = None \<longleftrightarrow> k \<notin> hm_keys m"
  by (simp add: map_of_eq_None_iff)

lemma hm_wf_filter [simp, intro]: "hm_wf m \<Longrightarrow> hm_wf (filter P m)"
  by (simp add: hm_wf_def distinct_map_filter)

text \<open>Loops that remove a list of keys.\<close>

lemma hm_get_fold_del [simp]:
  "hm_get (fold hm_del ks m) k = (if k \<in> set ks then None else hm_get m k)"
  by (induction ks arbitrary: m) auto

lemma hm_keys_fold_del [simp]: "hm_keys (fold hm_del ks m) = hm_keys m - set ks"
  by (induction ks arbitrary: m) auto

lemma hm_wf_fold_del [simp, intro]: "hm_wf m \<Longrightarrow> hm_wf (fold hm_del ks m)"
  by (induction ks arbitrary: m) auto

section \<open>Hash sets as distinct lists\<close>

lemma set_fold_insert [simp]: "set (fold List.insert xs ys) = set xs \<union> set ys"
  by (induction xs arbitrary: ys) auto

lemma distinct_fold_insert [simp, intro]: "distinct ys \<Longrightarrow> distinct (fold List.insert xs ys)"
  by (induction xs arbitrary: ys) auto

text \<open>Sorting and dropping adjacent duplicates, as \<open>due.sort(); due.dedup()\<close> does.\<close>

lemma distinct_remdups_adj_sorted:
  fixes xs :: "'a::linorder list"
  shows "sorted xs \<Longrightarrow> distinct (remdups_adj xs)"
proof (induction xs rule: remdups_adj.induct)
  case (3 x y xs)
  show ?case
  proof (cases "x = y")
    case True
    with 3 show ?thesis by simp
  next
    case False
    with 3 have "x \<notin> set (y # xs)" by fastforce
    with 3 False show ?thesis by simp
  qed
qed simp_all

definition sort_dedup :: "'a::linorder list \<Rightarrow> 'a list" where
  "sort_dedup xs = remdups_adj (sort xs)"

lemma set_sort_dedup [simp]: "set (sort_dedup xs) = set xs"
  by (simp add: sort_dedup_def)

lemma distinct_sort_dedup [simp]: "distinct (sort_dedup xs)"
  by (simp add: sort_dedup_def distinct_remdups_adj_sorted)

section \<open>Bytes\<close>

lemma unat_ucast_fits:
  "unat w < 2 ^ LENGTH('b) \<Longrightarrow> unat (ucast (w :: 'a::len word) :: 'b::len word) = unat w"
  by (simp add: unsigned_ucast_eq unsigned_take_bit_eq take_bit_nat_eq_self)

definition as_bytes :: "string \<Rightarrow> bytes" where
  "as_bytes s = map of_char s"

definition from_bytes :: "bytes \<Rightarrow> string" where
  "from_bytes bs = map (\<lambda>b. char_of (unat b)) bs"

lemma length_as_bytes [simp]: "length (as_bytes s) = length s"
  by (simp add: as_bytes_def)

lemma unat_of_char [simp]: "unat (of_char c :: u8) = of_char c"
proof -
  have "unat (of_nat (of_char c) :: u8) = of_char c"
    using nat_of_char_less_256 [of c] by (simp only: unat_of_nat) simp
  then show ?thesis by (simp add: of_nat_of_char)
qed

lemma from_bytes_as_bytes [simp]: "from_bytes (as_bytes s) = s"
  by (simp add: from_bytes_def as_bytes_def comp_def)

lemma as_bytes_inject [simp]: "as_bytes s = as_bytes t \<longleftrightarrow> s = t"
  by (metis from_bytes_as_bytes)

definition to_be_bytes :: "u32 \<Rightarrow> bytes" where
  "to_be_bytes w =
     [ucast (drop_bit 24 w), ucast (drop_bit 16 w), ucast (drop_bit 8 w), ucast w]"

fun from_be_bytes :: "bytes \<Rightarrow> u32" where
  "from_be_bytes [a, b, c, d] =
     push_bit 24 (ucast a) OR push_bit 16 (ucast b) OR push_bit 8 (ucast c) OR ucast d"
| "from_be_bytes _ = 0"

lemma length_to_be_bytes [simp]: "length (to_be_bytes w) = 4"
  by (simp add: to_be_bytes_def)

lemma from_to_be_bytes [simp]: "from_be_bytes (to_be_bytes w) = w"
proof (rule bit_word_eqI)
  fix n assume "n < LENGTH(32)"
  then have "n < 8 \<or> 8 \<le> n \<and> n < 16 \<or> 16 \<le> n \<and> n < 24 \<or> 24 \<le> n \<and> n < 32"
    by auto
  then show "bit (from_be_bytes (to_be_bytes w)) n = bit w n"
    by (elim disjE) (auto simp: to_be_bytes_def bit_simps)
qed

text \<open>
  UTF-8 as the standard library reads it. \<open>utf8_step\<close> looks at the first code point of a non-empty
  byte string: how many bytes it inspects and whether they are a well-formed code point
  (the ranges exclude overlong forms, surrogates and values above U+10FFFF).
\<close>

definition is_cont :: "u8 \<Rightarrow> bool" where
  "is_cont b \<longleftrightarrow> b AND 0xC0 = 0x80"

fun cont_run :: "nat \<Rightarrow> bytes \<Rightarrow> nat \<Rightarrow> bool \<times> nat" where
  "cont_run 0 bs n = (True, n)"
| "cont_run (Suc k) (b # bs) n = (if is_cont b then cont_run k bs (Suc n) else (False, n))"
| "cont_run (Suc k) [] n = (False, n)"

definition second_ok :: "u8 \<Rightarrow> u8 \<Rightarrow> bool" where
  "second_ok a b \<longleftrightarrow>
     (if a = 0xE0 then 0xA0 \<le> b \<and> b \<le> 0xBF
      else if a = 0xED then 0x80 \<le> b \<and> b \<le> 0x9F
      else if a = 0xF0 then 0x90 \<le> b \<and> b \<le> 0xBF
      else if a = 0xF4 then 0x80 \<le> b \<and> b \<le> 0x8F
      else 0x80 \<le> b \<and> b \<le> 0xBF)"

definition utf8_width :: "u8 \<Rightarrow> nat" where
  "utf8_width a =
     (if a < 0x80 then 1 else if a < 0xC2 then 0 else if a < 0xE0 then 2
      else if a < 0xF0 then 3 else if a < 0xF5 then 4 else 0)"

fun utf8_step :: "bytes \<Rightarrow> bool \<times> nat" where
  "utf8_step [] = (True, 0)"
| "utf8_step (a # bs) =
     (if utf8_width a = 1 then (True, 1)
      else if utf8_width a = 0 then (False, 1)
      else (case bs of
              [] \<Rightarrow> (False, 1)
            | b # cs \<Rightarrow>
                if second_ok a b then cont_run (utf8_width a - 2) cs 2 else (False, 1)))"

lemma cont_run_ge: "n \<le> snd (cont_run k bs n)"
  by (induction k bs n rule: cont_run.induct) (auto dest: Suc_leD)

lemma utf8_step_pos: "bs \<noteq> [] \<Longrightarrow> 0 < snd (utf8_step bs)"
proof (cases bs)
  case (Cons a cs)
  have "0 < snd (cont_run k ds 2)" for k ds
    using cont_run_ge [of 2 k ds] by linarith
  with Cons show ?thesis by (auto split: list.splits)
qed simp

function utf8_valid :: "bytes \<Rightarrow> bool" where
  "utf8_valid bs =
     (if bs = [] then True
      else if fst (utf8_step bs) then utf8_valid (drop (snd (utf8_step bs)) bs)
      else False)"
  by pat_completeness auto
termination
  by (relation "measure length") (use utf8_step_pos in force)+

function utf8_lossy :: "bytes \<Rightarrow> bytes" where
  "utf8_lossy bs =
     (if bs = [] then []
      else (if fst (utf8_step bs) then take (snd (utf8_step bs)) bs else [0xEF, 0xBF, 0xBD])
           @ utf8_lossy (drop (snd (utf8_step bs)) bs))"
  by pat_completeness auto
termination
  by (relation "measure length") (use utf8_step_pos in force)+

declare utf8_valid.simps [simp del] utf8_lossy.simps [simp del]

text \<open>\<open>String::from_utf8\<close> and \<open>String::from_utf8_lossy\<close>.\<close>

definition from_utf8 :: "bytes \<Rightarrow> string option" where
  "from_utf8 bs = (if utf8_valid bs then Some (from_bytes bs) else None)"

definition from_utf8_lossy :: "bytes \<Rightarrow> string" where
  "from_utf8_lossy bs = from_bytes (utf8_lossy bs)"

lemma utf8_lossy_valid: "utf8_valid bs \<Longrightarrow> utf8_lossy bs = bs"
proof (induction bs rule: utf8_lossy.induct)
  case (1 bs)
  show ?case
  proof (cases "bs = []")
    case True
    then show ?thesis by (simp add: utf8_lossy.simps [of "[]"])
  next
    case False
    then have "fst (utf8_step bs)" and "utf8_valid (drop (snd (utf8_step bs)) bs)"
      using "1.prems" by (simp_all add: utf8_valid.simps [of bs] split: if_splits)
    with "1.IH" False show ?thesis by (simp add: utf8_lossy.simps [of bs])
  qed
qed

lemma from_utf8_lossy_as_bytes: "utf8_valid (as_bytes s) \<Longrightarrow> from_utf8_lossy (as_bytes s) = s"
  by (simp add: from_utf8_lossy_def utf8_lossy_valid)

lemma utf8_valid_ascii: "\<forall>b \<in> set bs. b < 0x80 \<Longrightarrow> utf8_valid bs"
proof (induction bs)
  case (Cons b bs)
  then have "utf8_step (b # bs) = (True, 1)" by (simp add: utf8_width_def)
  with Cons show ?case by (simp add: utf8_valid.simps [of "b # bs"])
qed (simp add: utf8_valid.simps [of "[]"])

text \<open>Decimal rendering of a number, as \<open>format!("{}")\<close> prints it.\<close>

fun dec :: "nat \<Rightarrow> string" where
  "dec n = (if n < 10 then [char_of (48 + n)] else dec (n div 10) @ [char_of (48 + n mod 10)])"

declare dec.simps [simp del]

definition undec :: "string \<Rightarrow> nat" where
  "undec s = foldl (\<lambda>n c. 10 * n + (of_char c - 48)) 0 s"

lemma undec_dec: "undec (dec n) = n"
proof (induction n rule: dec.induct)
  case (1 n)
  show ?case
  proof (cases "n < 10")
    case True
    then show ?thesis by (simp add: dec.simps [of n] undec_def)
  next
    case False
    with 1 have "undec (dec (n div 10)) = n div 10" by simp
    moreover have "of_char (char_of (48 + n mod 10)) = 48 + n mod 10"
      by (simp add: take_bit_eq_mod)
    ultimately show ?thesis
      using False by (simp add: dec.simps [of n] undec_def)
  qed
qed

lemma dec_inject [simp]: "dec m = dec n \<longleftrightarrow> m = n"
  by (metis undec_dec)

section \<open>Contracts the components share\<close>

text \<open>
  A component is a start state and a step for each event; \<open>enabled\<close> says which events its
  environment can deliver in a state (a job result arrives only for a job that was started).
\<close>

fun valid_run :: "('e \<Rightarrow> 's \<Rightarrow> bool) \<Rightarrow> ('e \<Rightarrow> 's \<Rightarrow> 's) \<Rightarrow> 'e list \<Rightarrow> 's \<Rightarrow> bool" where
  "valid_run enabled step [] s \<longleftrightarrow> True"
| "valid_run enabled step (e # es) s \<longleftrightarrow> enabled e s \<and> valid_run enabled step es (step e s)"

lemma valid_run_mono:
  "valid_run en step es s \<Longrightarrow> (\<And>e s. en e s \<Longrightarrow> en' e s) \<Longrightarrow> valid_run en' step es s"
  by (induction es arbitrary: s) auto

locale guarded_system =
  fixes init :: 's
    and enabled :: "'e \<Rightarrow> 's \<Rightarrow> bool"
    and step :: "'e \<Rightarrow> 's \<Rightarrow> 's"
    and inv :: "'s \<Rightarrow> bool"
  assumes inv_init: "inv init"
    and inv_step: "inv s \<Longrightarrow> enabled e s \<Longrightarrow> inv (step e s)"
begin

lemma inv_run: "inv s \<Longrightarrow> valid_run enabled step es s \<Longrightarrow> inv (fold step es s)"
  by (induction es arbitrary: s) (auto intro: inv_step)

lemma inv_reachable: "valid_run enabled step es init \<Longrightarrow> inv (fold step es init)"
  by (rule inv_run [OF inv_init])

end

locale invariant_system =
  fixes init :: 's
    and step :: "'e \<Rightarrow> 's \<Rightarrow> 's"
    and inv :: "'s \<Rightarrow> bool"
  assumes start: "inv init"
    and keeps: "inv s \<Longrightarrow> inv (step e s)"

sublocale invariant_system \<subseteq> guarded_system init "\<lambda>_ _. True" step inv
  by unfold_locales (rule start, rule keeps)

lemma valid_run_True [simp]: "valid_run (\<lambda>_ _. True) step es s"
  by (induction es arbitrary: s) auto

context invariant_system
begin

lemma inv_always: "inv (fold step es init)"
  by (rule inv_reachable) simp

lemma inv_from: "inv s \<Longrightarrow> inv (fold step es s)"
  by (rule inv_run) simp_all

end

text \<open>A retry schedule: the delay after the \<open>n\<close>th failure stays in its bounds and never shrinks.\<close>

locale backoff_schedule =
  fixes delay :: "nat \<Rightarrow> nat"
    and lo hi :: nat
  assumes lower: "lo \<le> delay n"
    and upper: "delay n \<le> hi"
    and grows: "m \<le> n \<Longrightarrow> delay m \<le> delay n"
begin

lemma stays_at_cap: "delay m = hi \<Longrightarrow> m \<le> n \<Longrightarrow> delay n = hi"
  using grows [of m n] upper [of n] by simp

lemma total_wait_upper: "(\<Sum>i<k. delay i) \<le> k * hi"
  using sum_bounded_above [of "{..<k}" delay hi] upper by simp

lemma total_wait_lower: "k * lo \<le> (\<Sum>i<k. delay i)"
  using sum_bounded_below [of "{..<k}" lo delay] lower by simp

end

text \<open>
  A rollback guard: \<open>seen\<close> is the version recorded in a state, \<open>check\<close> records a version or
  refuses it.
\<close>

fun accepted :: "('v \<Rightarrow> 's \<Rightarrow> 's \<times> (unit, 'e) result) \<Rightarrow> 'v list \<Rightarrow> 's \<Rightarrow> 'v list" where
  "accepted check [] s = []"
| "accepted check (v # vs) s =
     (case check v s of
        (s', Ok _) \<Rightarrow> v # accepted check vs s'
      | (s', Err _) \<Rightarrow> accepted check vs s')"

locale version_guard =
  fixes seen :: "'s \<Rightarrow> 'v::linorder option"
    and check :: "'v \<Rightarrow> 's \<Rightarrow> 's \<times> (unit, 'e) result"
  assumes accepts: "check v s = (s', Ok u) \<Longrightarrow> seen s' = Some v"
    and accepts_iff: "is_ok (snd (check v s)) \<longleftrightarrow> (\<forall>cur. seen s = Some cur \<longrightarrow> cur \<le> v)"
    and refuses: "check v s = (s', Err e) \<Longrightarrow> s' = s"
begin

lemma accepted_ge: "seen s = Some cur \<Longrightarrow> v \<in> set (accepted check vs s) \<Longrightarrow> cur \<le> v"
proof (induction vs arbitrary: s cur)
  case (Cons w vs)
  obtain s' r where c: "check w s = (s', r)" by fastforce
  show ?case
  proof (cases r)
    case (Ok u)
    with c Cons.prems(1) have "cur \<le> w" using accepts_iff [of w s] by simp
    moreover have "seen s' = Some w" using accepts c Ok by simp
    ultimately show ?thesis using Cons c Ok by fastforce
  next
    case (Err e)
    with c have "s' = s" using refuses by simp
    with Cons c Err show ?thesis by fastforce
  qed
qed simp

lemma accepted_sorted: "sorted (accepted check vs s)"
proof (induction vs arbitrary: s)
  case (Cons w vs)
  obtain s' r where c: "check w s = (s', r)" by fastforce
  then show ?case
    using Cons accepts [of w s s'] accepted_ge [of s' w] by (cases r) auto
qed simp

end

text \<open>Length-prefixed fields: what is put in front of any rest is read back, with the rest.\<close>

fun take_n :: "(bytes \<Rightarrow> (bytes \<times> bytes) option) \<Rightarrow> nat \<Rightarrow> bytes \<Rightarrow> (bytes list \<times> bytes) option" where
  "take_n get 0 bs = Some ([], bs)"
| "take_n get (Suc n) bs =
     (case get bs of
        None \<Rightarrow> None
      | Some (f, rest) \<Rightarrow> map_option (\<lambda>(fs, r). (f # fs, r)) (take_n get n rest))"

locale length_prefix =
  fixes put :: "bytes \<Rightarrow> bytes"
    and get :: "bytes \<Rightarrow> (bytes \<times> bytes) option"
    and fits :: "bytes \<Rightarrow> bool"
  assumes get_put: "fits b \<Longrightarrow> get (put b @ rest) = Some (b, rest)"
begin

lemma take_n_put:
  "\<forall>b \<in> set fs. fits b \<Longrightarrow> take_n get (length fs) (concat (map put fs) @ rest) = Some (fs, rest)"
  by (induction fs) (auto simp: get_put)

lemma put_concat_inject:
  assumes "\<forall>b \<in> set fs. fits b" and "\<forall>b \<in> set gs. fits b" and "length fs = length gs"
    and "concat (map put fs) = concat (map put gs)"
  shows "fs = gs"
  using take_n_put [OF assms(1), of "[]"] take_n_put [OF assms(2), of "[]"] assms(3,4) by simp

end

end
