(* ===== verification/NN_Config.thy ===== *)
theory NN_Config
  imports NN_Prelude
begin

text \<open>
  The configuration: \<open>src/src/config.rs\<close> (schema, defaults, validation, completion of a document with
  missing fields, the accessors of \<open>ConfigHandle\<close>) and the size limits of \<open>src/src/limits.rs\<close>.

  \<open>ConfigHandle\<close> is an \<open>Arc<RwLock<NodeConfig>>\<close>; its readers take the configuration record
  they lock. A libp2p \<open>PeerId\<close> is its bytes, and a \<open>Multiaddr\<close> is the sequence of protocols its
  iterator yields, \<open>push\<close> appending one.
\<close>

section \<open>Limits\<close>

definition DHT_MAX_RECORD_BYTES :: nat where
  "DHT_MAX_RECORD_BYTES = 2 ^ 20"

definition KAD_MAX_PACKET_BYTES :: nat where
  "KAD_MAX_PACKET_BYTES = DHT_MAX_RECORD_BYTES + 64 * 1024"

definition OLD_KAD_PACKET_BYTES :: nat where
  "OLD_KAD_PACKET_BYTES = 16 * 1024"

definition OLD_COMPAT_RECORD_BYTES :: nat where
  "OLD_COMPAT_RECORD_BYTES = OLD_KAD_PACKET_BYTES - 2 * 1024"

definition MAX_MESSAGE_BYTES_LIMIT :: u64 where
  "MAX_MESSAGE_BYTES_LIMIT = push_bit 20 64"

section \<open>Addresses\<close>

type_synonym peer_id = bytes

datatype ip_addr = V4 u32 | V6 "128 word"

datatype protocol =
    Ip4 u32
  | Ip6 "128 word"
  | Tcp u16
  | Ws string
  | P2p peer_id
  | P2pCircuit
  | OtherProtocol string

type_synonym multiaddr = "protocol list"

section \<open>Schema\<close>

record node_info =
  ni_name :: string
  ni_description :: string
  ni_allow_bootstrap :: bool
  ni_accept_bootstrap_providers :: bool

record network_config =
  nc_ipv4_enabled :: bool
  nc_ipv4_address :: "ip_addr option"
  nc_ipv6_enabled :: bool
  nc_ipv6_address :: "ip_addr option"
  nc_port :: u32
  nc_has_public_address :: bool

record ping_service =
  ps_enabled :: bool
  ps_interval_secs :: u32
  ps_with_timeout :: u32
  ps_max_failures :: u32

record kademlia_service =
  ks_enabled :: bool
  ks_record_ttl_seconds :: u32
  ks_replication_factor :: u32
  ks_query_timeout_seconds :: u32
  ks_bootstrap_nodes :: "multiaddr list"

record registry_service =
  rg_max_inflight_dht :: u32

record relay_service =
  rs_retry_interval_secs :: u32
  rs_max_failures :: u32

record local_service_entry =
  ls_name :: string
  ls_port :: u16
  ls_require_auth :: bool

record dispatcher_config =
  dc_enabled :: bool
  dc_query_timeout_secs :: u32
  dc_types_sync_secs :: u32
  dc_max_inflight_dht :: u32
  dc_max_request_bytes :: u64
  dc_max_response_bytes :: u64
  dc_local_services :: "local_service_entry list"

record services_config =
  sv_ping :: ping_service
  sv_kademlia :: kademlia_service
  sv_dispatcher :: dispatcher_config
  sv_registry :: registry_service
  sv_relay :: relay_service

record crypto_config =
  cc_pq_transport_enabled :: bool
  cc_pq_identity_enabled :: bool
  cc_pq_required :: bool

record auth_network_config =
  an_authority :: string

record auth_config =
  ac_network :: string
  ac_networks :: "string \<rightharpoonup> auth_network_config"

record compat_config =
  cp_max_record_bytes :: u64

record node_config =
  cfg_node :: node_info
  cfg_network :: network_config
  cfg_services :: services_config
  cfg_crypto :: crypto_config
  cfg_auth :: auth_config
  cfg_compat :: compat_config

section \<open>Defaults\<close>

definition hours :: "u32 \<Rightarrow> u32" where
  "hours h = h * 3600"

definition default_port :: u32 where "default_port = 5000"
definition default_interval :: u32 where "default_interval = 15"
definition default_timeout :: u32 where "default_timeout = 10"
definition default_max_failures :: u32 where "default_max_failures = 2"
definition default_record_ttl_seconds :: u32 where "default_record_ttl_seconds = hours 1"
definition default_replication_factor :: u32 where "default_replication_factor = 20"
definition default_query_timeout_seconds :: u32 where "default_query_timeout_seconds = 60"
definition default_relay_retry_interval :: u32 where "default_relay_retry_interval = 60"
definition default_relay_max_failures :: u32 where "default_relay_max_failures = 3"
definition default_types_sync_seconds :: u32 where "default_types_sync_seconds = 300"
definition default_max_inflight_dht :: u32 where "default_max_inflight_dht = 4"

definition default_max_message_bytes :: u64 where
  "default_max_message_bytes = push_bit 20 16"

definition default_compat_max_record_bytes :: u64 where
  "default_compat_max_record_bytes = of_nat OLD_COMPAT_RECORD_BYTES"

text \<open>The default name and description are Chinese texts; these are their UTF-8 bytes.\<close>

definition default_name :: string where
  "default_name = from_bytes
     [0xE6, 0x9C, 0xAA, 0xE8, 0xAE, 0xBE, 0xE7, 0xBD, 0xAE, 0xE7, 0x9A, 0x84, 0x70, 0x32, 0x70,
      0xE8, 0x8A, 0x82, 0xE7, 0x82, 0xB9]"

definition default_description :: string where
  "default_description = from_bytes
     [0xE6, 0x97, 0xA0, 0xE8, 0xAF, 0xA6, 0xE7, 0xBB, 0x86, 0xE6, 0x8F, 0x8F, 0xE8, 0xBF, 0xB0]"

definition default_auth_network :: string where
  "default_auth_network = ''none''"

definition node_info_default :: node_info where
  "node_info_default =
     \<lparr>ni_name = default_name, ni_description = default_description,
      ni_allow_bootstrap = True, ni_accept_bootstrap_providers = False\<rparr>"

definition network_config_default :: network_config where
  "network_config_default =
     \<lparr>nc_ipv4_enabled = False, nc_ipv4_address = None, nc_ipv6_enabled = False,
      nc_ipv6_address = None, nc_port = default_port, nc_has_public_address = False\<rparr>"

definition ping_service_default :: ping_service where
  "ping_service_default =
     \<lparr>ps_enabled = True, ps_interval_secs = default_interval, ps_with_timeout = default_timeout,
      ps_max_failures = default_max_failures\<rparr>"

definition kademlia_service_default :: kademlia_service where
  "kademlia_service_default =
     \<lparr>ks_enabled = True, ks_record_ttl_seconds = default_record_ttl_seconds,
      ks_replication_factor = default_replication_factor,
      ks_query_timeout_seconds = default_query_timeout_seconds, ks_bootstrap_nodes = []\<rparr>"

definition registry_service_default :: registry_service where
  "registry_service_default = \<lparr>rg_max_inflight_dht = default_max_inflight_dht\<rparr>"

definition relay_service_default :: relay_service where
  "relay_service_default =
     \<lparr>rs_retry_interval_secs = default_relay_retry_interval,
      rs_max_failures = default_relay_max_failures\<rparr>"

definition dispatcher_config_default :: dispatcher_config where
  "dispatcher_config_default =
     \<lparr>dc_enabled = True, dc_query_timeout_secs = default_query_timeout_seconds,
      dc_types_sync_secs = default_types_sync_seconds,
      dc_max_inflight_dht = default_max_inflight_dht,
      dc_max_request_bytes = default_max_message_bytes,
      dc_max_response_bytes = default_max_message_bytes, dc_local_services = []\<rparr>"

definition services_config_default :: services_config where
  "services_config_default =
     \<lparr>sv_ping = ping_service_default, sv_kademlia = kademlia_service_default,
      sv_dispatcher = dispatcher_config_default, sv_registry = registry_service_default,
      sv_relay = relay_service_default\<rparr>"

definition crypto_config_default :: crypto_config where
  "crypto_config_default =
     \<lparr>cc_pq_transport_enabled = False, cc_pq_identity_enabled = False, cc_pq_required = False\<rparr>"

definition auth_config_default :: auth_config where
  "auth_config_default = \<lparr>ac_network = default_auth_network, ac_networks = Map.empty\<rparr>"

definition compat_config_default :: compat_config where
  "compat_config_default = \<lparr>cp_max_record_bytes = default_compat_max_record_bytes\<rparr>"

definition node_config_default :: node_config where
  "node_config_default =
     \<lparr>cfg_node = node_info_default, cfg_network = network_config_default,
      cfg_services = services_config_default, cfg_crypto = crypto_config_default,
      cfg_auth = auth_config_default, cfg_compat = compat_config_default\<rparr>"

lemmas config_default_defs =
  node_info_default_def network_config_default_def ping_service_default_def
  kademlia_service_default_def registry_service_default_def relay_service_default_def
  dispatcher_config_default_def services_config_default_def crypto_config_default_def
  auth_config_default_def compat_config_default_def node_config_default_def
  default_port_def default_interval_def default_timeout_def default_max_failures_def
  default_record_ttl_seconds_def default_replication_factor_def
  default_query_timeout_seconds_def default_relay_retry_interval_def
  default_relay_max_failures_def default_types_sync_seconds_def default_max_inflight_dht_def
  default_max_message_bytes_def default_compat_max_record_bytes_def hours_def
  default_auth_network_def

section \<open>Validation\<close>

text \<open>One constructor per message of \<open>NodeConfig::validate\<close>.\<close>

datatype config_error =
    PortOutOfRange u32
  | PingIntervalZero
  | PingTimeoutZero
  | RecordTtlZero
  | KadQueryTimeoutZero
  | DispatcherQueryTimeoutZero
  | TypesSyncZero
  | RegistryInflightRange
  | CompatRecordBytesRange
  | DispatcherInflightRange
  | MaxRequestBytesRange
  | MaxResponseBytesRange
  | RelayRetryIntervalZero
  | LocalServiceDuplicate string
  | LocalServiceZeroPort string
  | PqRequiredWithoutTransport
  | PqIdentityWithoutTransport

text \<open>The loop over the local services, with the names seen so far.\<close>

fun validate_local :: "local_service_entry list \<Rightarrow> string list \<Rightarrow> (unit, config_error) result" where
  "validate_local [] names = Ok ()"
| "validate_local (s # ss) names =
     (if ls_name s \<in> set names then Err (LocalServiceDuplicate (ls_name s))
      else if ls_port s = 0 then Err (LocalServiceZeroPort (ls_name s))
      else validate_local ss (names @ [ls_name s]))"

definition validate :: "node_config \<Rightarrow> (unit, config_error) result" where
  "validate c =
     (let ping = sv_ping (cfg_services c); kad = sv_kademlia (cfg_services c);
          disp = sv_dispatcher (cfg_services c); crypto = cfg_crypto c in
      if nc_port (cfg_network c) > 0xFFFF then Err (PortOutOfRange (nc_port (cfg_network c)))
      else if ps_enabled ping \<and> ps_interval_secs ping = 0 then Err PingIntervalZero
      else if ps_enabled ping \<and> ps_with_timeout ping = 0 then Err PingTimeoutZero
      else if ks_enabled kad \<and> ks_record_ttl_seconds kad = 0 then Err RecordTtlZero
      else if ks_enabled kad \<and> ks_query_timeout_seconds kad = 0 then Err KadQueryTimeoutZero
      else if dc_enabled disp \<and> dc_query_timeout_secs disp = 0 then Err DispatcherQueryTimeoutZero
      else if dc_enabled disp \<and> dc_types_sync_secs disp = 0 then Err TypesSyncZero
      else if \<not> (1 \<le> rg_max_inflight_dht (sv_registry (cfg_services c))
                 \<and> rg_max_inflight_dht (sv_registry (cfg_services c)) \<le> 16)
           then Err RegistryInflightRange
      else if cp_max_record_bytes (cfg_compat c) = 0
              \<or> cp_max_record_bytes (cfg_compat c) > of_nat DHT_MAX_RECORD_BYTES
           then Err CompatRecordBytesRange
      else if \<not> (1 \<le> dc_max_inflight_dht disp \<and> dc_max_inflight_dht disp \<le> 16)
           then Err DispatcherInflightRange
      else if dc_max_request_bytes disp = 0
              \<or> dc_max_request_bytes disp > MAX_MESSAGE_BYTES_LIMIT
           then Err MaxRequestBytesRange
      else if dc_max_response_bytes disp = 0
              \<or> dc_max_response_bytes disp > MAX_MESSAGE_BYTES_LIMIT
           then Err MaxResponseBytesRange
      else if rs_retry_interval_secs (sv_relay (cfg_services c)) = 0 then Err RelayRetryIntervalZero
      else rbind (validate_local (dc_local_services disp) []) (\<lambda>_.
           if cc_pq_required crypto \<and> \<not> cc_pq_transport_enabled crypto
           then Err PqRequiredWithoutTransport
           else if cc_pq_identity_enabled crypto \<and> \<not> cc_pq_transport_enabled crypto
           then Err PqIdentityWithoutTransport
           else Ok ()))"

section \<open>Completing a document and loading the file\<close>

text \<open>
  A \<open>toml_edit\<close> table is its sequence of entries; every item that is no standard table (a value,
  an inline table, an array of tables) is left alone by the code and is opaque here.
\<close>

datatype toml_item = TomlTable "(string \<times> toml_item) list" | TomlOther string

type_synonym toml_table = "(string \<times> toml_item) list"

function merge_missing :: "toml_table \<Rightarrow> toml_table \<Rightarrow> toml_table" where
  "merge_missing dst [] = dst"
| "merge_missing dst ((key, src_item) # src) =
     merge_missing
       (case map_of dst key of
          None \<Rightarrow> dst @ [(key, src_item)]
        | Some dst_item \<Rightarrow>
            (case (dst_item, src_item) of
               (TomlTable dst_table, TomlTable src_table) \<Rightarrow>
                 AList.update key (TomlTable (merge_missing dst_table src_table)) dst
             | _ \<Rightarrow> dst)) src"
  by pat_completeness auto
termination
  by (relation "measure (\<lambda>(dst, src). size_list (size_prod (\<lambda>_. 0) size) src)") auto

text \<open>The TOML library: parsing and printing a document, reading and printing a configuration.\<close>

record toml_lib =
  tl_parse_doc :: "string \<Rightarrow> toml_table option"
  tl_print_doc :: "toml_table \<Rightarrow> string"
  tl_from_str :: "string \<Rightarrow> node_config option"
  tl_to_string_pretty :: "node_config \<Rightarrow> string option"

definition complete_missing_fields :: "toml_lib \<Rightarrow> string \<Rightarrow> node_config \<Rightarrow> string option" where
  "complete_missing_fields lib original config =
     (case tl_parse_doc lib original of
        None \<Rightarrow> None
      | Some doc \<Rightarrow>
          (case tl_to_string_pretty lib config of
             None \<Rightarrow> None
           | Some complete \<Rightarrow>
               (case tl_parse_doc lib complete of
                  None \<Rightarrow> None
                | Some defaults \<Rightarrow>
                    (let updated = tl_print_doc lib (merge_missing doc defaults)
                     in if updated \<noteq> original then Some updated else None))))"

datatype io_error = NotFound | OtherIo string

datatype file_action = RenameBad | WriteAtomic string | WriteFile string

datatype load_outcome = Loaded node_config "file_action list" | ProcessExit

text \<open>What the file system answers: each of the calls that \<open>from_toml_file\<close> makes.\<close>

record load_env =
  le_exists :: bool
  le_read :: "(string, io_error) result"
  le_rename_ok :: bool
  le_write_atomic_ok :: bool
  le_write_ok :: bool

definition create_default_config :: "toml_lib \<Rightarrow> load_env \<Rightarrow> file_action list \<Rightarrow> load_outcome" where
  "create_default_config lib env done_actions =
     (case tl_to_string_pretty lib node_config_default of
        None \<Rightarrow> ProcessExit
      | Some toml_string \<Rightarrow>
          if le_write_ok env
          then Loaded node_config_default (done_actions @ [WriteFile toml_string])
          else ProcessExit)"

definition from_toml_file :: "toml_lib \<Rightarrow> load_env \<Rightarrow> bool \<Rightarrow> load_outcome" where
  "from_toml_file lib env create_if_missing =
     (if \<not> create_if_missing \<and> \<not> le_exists env then Loaded node_config_default []
      else case le_read env of
        Ok content \<Rightarrow>
          (case tl_from_str lib content of
             Some config \<Rightarrow>
               (case validate config of
                  Err e \<Rightarrow> ProcessExit
                | Ok _ \<Rightarrow>
                    (case complete_missing_fields lib content config of
                       None \<Rightarrow> Loaded config []
                     | Some completed \<Rightarrow>
                         if le_write_atomic_ok env then Loaded config [WriteAtomic completed]
                         else ProcessExit))
           | None \<Rightarrow>
               if le_rename_ok env then create_default_config lib env [RenameBad]
               else ProcessExit)
      | Err NotFound \<Rightarrow> create_default_config lib env []
      | Err (OtherIo e) \<Rightarrow> ProcessExit)"

text \<open>
  \<open>rename_bad_config\<close> counts up until the backup name is free; \<open>stem\<close> is the path without its
  extension.
\<close>

definition backup_name :: "string \<Rightarrow> nat \<Rightarrow> string" where
  "backup_name stem counter =
     (if counter = 0 then stem @ ''.bak'' else stem @ ''.bak.'' @ dec counter)"

partial_function (option) free_backup :: "(string \<Rightarrow> bool) \<Rightarrow> string \<Rightarrow> nat \<Rightarrow> string option" where
  "free_backup exists stem counter =
     (if exists (backup_name stem counter) then free_backup exists stem (Suc counter)
      else Some (backup_name stem counter))"

section \<open>Accessors\<close>

definition allow_bootstrap :: "node_config \<Rightarrow> bool" where
  "allow_bootstrap c = ni_allow_bootstrap (cfg_node c)"

definition accept_bootstrap_providers :: "node_config \<Rightarrow> bool" where
  "accept_bootstrap_providers c = ni_accept_bootstrap_providers (cfg_node c)"

definition ping_max_failures :: "node_config \<Rightarrow> u32" where
  "ping_max_failures c = ps_max_failures (sv_ping (cfg_services c))"

definition dispatcher_enabled :: "node_config \<Rightarrow> bool" where
  "dispatcher_enabled c = dc_enabled (sv_dispatcher (cfg_services c))"

definition dispatcher_query_timeout :: "node_config \<Rightarrow> u32" where
  "dispatcher_query_timeout c = dc_query_timeout_secs (sv_dispatcher (cfg_services c))"

definition dispatcher_max_inflight_dht :: "node_config \<Rightarrow> nat" where
  "dispatcher_max_inflight_dht c = unat (dc_max_inflight_dht (sv_dispatcher (cfg_services c)))"

definition dispatcher_max_request_bytes :: "node_config \<Rightarrow> u64" where
  "dispatcher_max_request_bytes c = dc_max_request_bytes (sv_dispatcher (cfg_services c))"

definition dispatcher_max_response_bytes :: "node_config \<Rightarrow> u64" where
  "dispatcher_max_response_bytes c = dc_max_response_bytes (sv_dispatcher (cfg_services c))"

definition dispatcher_types_sync_interval :: "node_config \<Rightarrow> u32" where
  "dispatcher_types_sync_interval c = max (dc_types_sync_secs (sv_dispatcher (cfg_services c))) 1"

definition registry_max_inflight_dht :: "node_config \<Rightarrow> nat" where
  "registry_max_inflight_dht c = unat (rg_max_inflight_dht (sv_registry (cfg_services c)))"

definition compat_max_record_bytes :: "node_config \<Rightarrow> u64" where
  "compat_max_record_bytes c = cp_max_record_bytes (cfg_compat c)"

definition relay_retry_interval :: "node_config \<Rightarrow> u32" where
  "relay_retry_interval c = rs_retry_interval_secs (sv_relay (cfg_services c))"

definition relay_max_failures :: "node_config \<Rightarrow> u32" where
  "relay_max_failures c = rs_max_failures (sv_relay (cfg_services c))"

definition pq_transport_enabled :: "node_config \<Rightarrow> bool" where
  "pq_transport_enabled c = cc_pq_transport_enabled (cfg_crypto c)"

definition pq_identity_enabled :: "node_config \<Rightarrow> bool" where
  "pq_identity_enabled c = cc_pq_identity_enabled (cfg_crypto c)"

definition pq_required :: "node_config \<Rightarrow> bool" where
  "pq_required c = cc_pq_required (cfg_crypto c)"

definition pq_enabled :: "node_config \<Rightarrow> bool" where
  "pq_enabled c \<longleftrightarrow> cc_pq_transport_enabled (cfg_crypto c) \<or> cc_pq_identity_enabled (cfg_crypto c)"

definition auth_network :: "node_config \<Rightarrow> string" where
  "auth_network c = ac_network (cfg_auth c)"

definition auth_authority :: "node_config \<Rightarrow> string \<Rightarrow> string option" where
  "auth_authority c network = map_option an_authority (ac_networks (cfg_auth c) network)"

definition local_services :: "node_config \<Rightarrow> local_service_entry list" where
  "local_services c = dc_local_services (sv_dispatcher (cfg_services c))"

definition auth_required_services :: "node_config \<Rightarrow> string list" where
  "auth_required_services c = map ls_name (filter ls_require_auth (local_services c))"

definition service_requires_auth :: "node_config \<Rightarrow> string \<Rightarrow> bool" where
  "service_requires_auth c name \<longleftrightarrow>
     list_ex (\<lambda>s. ls_name s = name \<and> ls_require_auth s) (local_services c)"

definition kademlia_enabled :: "node_config \<Rightarrow> bool" where
  "kademlia_enabled c = ks_enabled (sv_kademlia (cfg_services c))"

definition kademlia_query_timeout :: "node_config \<Rightarrow> u32" where
  "kademlia_query_timeout c = ks_query_timeout_seconds (sv_kademlia (cfg_services c))"

definition bootstrap_nodes :: "node_config \<Rightarrow> multiaddr list" where
  "bootstrap_nodes c = ks_bootstrap_nodes (sv_kademlia (cfg_services c))"

definition dialable_addrs :: "node_config \<Rightarrow> peer_id \<Rightarrow> multiaddr list" where
  "dialable_addrs c peer =
     (let port = ucast (nc_port (cfg_network c)) in
      map (\<lambda>ip. (case ip of V4 v4 \<Rightarrow> [Ip4 v4] | V6 v6 \<Rightarrow> [Ip6 v6]) @ [Tcp port] @ [Ws ''/''] @ [P2p peer])
        (List.map_filter id [nc_ipv4_address (cfg_network c), nc_ipv6_address (cfg_network c)]))"

definition has_public_address :: "node_config \<Rightarrow> bool" where
  "has_public_address c = nc_has_public_address (cfg_network c)"

definition needs_relay :: "node_config \<Rightarrow> bool" where
  "needs_relay c \<longleftrightarrow>
     \<not> (nc_ipv4_enabled (cfg_network c) \<and> nc_ipv6_enabled (cfg_network c))
     \<or> \<not> nc_has_public_address (cfg_network c)"

definition set_has_public_address :: "bool \<Rightarrow> node_config \<Rightarrow> node_config" where
  "set_has_public_address present c =
     c\<lparr>cfg_network := (cfg_network c)\<lparr>nc_has_public_address := present\<rparr>\<rparr>"

definition set_bootstrap_nodes :: "multiaddr list \<Rightarrow> node_config \<Rightarrow> node_config" where
  "set_bootstrap_nodes nodes c =
     c\<lparr>cfg_services := (cfg_services c)\<lparr>sv_kademlia :=
         (sv_kademlia (cfg_services c))\<lparr>ks_bootstrap_nodes := nodes\<rparr>\<rparr>\<rparr>"

definition ping_enabled :: "node_config \<Rightarrow> bool" where
  "ping_enabled c = ps_enabled (sv_ping (cfg_services c))"

definition ping_interval :: "node_config \<Rightarrow> u32" where
  "ping_interval c = ps_interval_secs (sv_ping (cfg_services c))"

definition ping_timeout :: "node_config \<Rightarrow> u32" where
  "ping_timeout c = ps_with_timeout (sv_ping (cfg_services c))"

definition kademlia_record_ttl :: "node_config \<Rightarrow> u32" where
  "kademlia_record_ttl c = ks_record_ttl_seconds (sv_kademlia (cfg_services c))"

definition kademlia_replication_factor :: "node_config \<Rightarrow> u32" where
  "kademlia_replication_factor c = ks_replication_factor (sv_kademlia (cfg_services c))"

definition listen_port :: "node_config \<Rightarrow> u32" where
  "listen_port c = nc_port (cfg_network c)"

definition ipv4_enabled :: "node_config \<Rightarrow> bool" where
  "ipv4_enabled c = nc_ipv4_enabled (cfg_network c)"

definition on_ping :: "(ping_service \<Rightarrow> ping_service) \<Rightarrow> node_config \<Rightarrow> node_config" where
  "on_ping f c = c\<lparr>cfg_services := (cfg_services c)\<lparr>sv_ping := f (sv_ping (cfg_services c))\<rparr>\<rparr>"

definition on_kademlia :: "(kademlia_service \<Rightarrow> kademlia_service) \<Rightarrow> node_config \<Rightarrow> node_config" where
  "on_kademlia f c = c\<lparr>cfg_services := (cfg_services c)\<lparr>sv_kademlia := f (sv_kademlia (cfg_services c))\<rparr>\<rparr>"

definition set_ping_enabled :: "bool \<Rightarrow> node_config \<Rightarrow> node_config" where
  "set_ping_enabled enabled = on_ping (\<lambda>p. p\<lparr>ps_enabled := enabled\<rparr>)"

definition set_ping_interval :: "u32 \<Rightarrow> node_config \<Rightarrow> node_config" where
  "set_ping_interval secs = on_ping (\<lambda>p. p\<lparr>ps_interval_secs := secs\<rparr>)"

definition set_kademlia_enabled :: "bool \<Rightarrow> node_config \<Rightarrow> node_config" where
  "set_kademlia_enabled enabled = on_kademlia (\<lambda>k. k\<lparr>ks_enabled := enabled\<rparr>)"

definition set_kademlia_record_ttl :: "u32 \<Rightarrow> node_config \<Rightarrow> node_config" where
  "set_kademlia_record_ttl ttl_secs = on_kademlia (\<lambda>k. k\<lparr>ks_record_ttl_seconds := ttl_secs\<rparr>)"

definition set_kademlia_replication_factor :: "u32 \<Rightarrow> node_config \<Rightarrow> node_config" where
  "set_kademlia_replication_factor factor = on_kademlia (\<lambda>k. k\<lparr>ks_replication_factor := factor\<rparr>)"

definition set_kademlia_query_timeout :: "u32 \<Rightarrow> node_config \<Rightarrow> node_config" where
  "set_kademlia_query_timeout timeout_secs = on_kademlia (\<lambda>k. k\<lparr>ks_query_timeout_seconds := timeout_secs\<rparr>)"

definition set_listen_port :: "u32 \<Rightarrow> node_config \<Rightarrow> node_config" where
  "set_listen_port port c = c\<lparr>cfg_network := (cfg_network c)\<lparr>nc_port := port\<rparr>\<rparr>"

definition set_ipv4 :: "bool \<Rightarrow> ip_addr option \<Rightarrow> node_config \<Rightarrow> node_config" where
  "set_ipv4 enabled address c =
     c\<lparr>cfg_network := (cfg_network c)\<lparr>nc_ipv4_enabled := enabled, nc_ipv4_address := address\<rparr>\<rparr>"

text \<open>\<open>save_to_file\<close>: what is written, unless serialisation or the write ends the process.\<close>

definition save_to_file :: "toml_lib \<Rightarrow> load_env \<Rightarrow> node_config \<Rightarrow> file_action option" where
  "save_to_file lib env c =
     (case tl_to_string_pretty lib c of
        None \<Rightarrow> None
      | Some toml_string \<Rightarrow> if le_write_atomic_ok env then Some (WriteAtomic toml_string) else None)"

section \<open>What validation accepts\<close>

lemma validate_local_Ok:
  "validate_local ss names = Ok () \<longleftrightarrow>
     distinct (map ls_name ss) \<and> set (map ls_name ss) \<inter> set names = {}
     \<and> (\<forall>s \<in> set ss. ls_port s \<noteq> 0)"
  by (induction ss arbitrary: names) auto

text \<open>The documented ranges, independently of the order in which the code tests them.\<close>

definition config_ok :: "node_config \<Rightarrow> bool" where
  "config_ok c \<longleftrightarrow>
     unat (nc_port (cfg_network c)) < 2 ^ 16
     \<and> (let p = sv_ping (cfg_services c) in
          ps_enabled p \<longrightarrow> 0 < ps_interval_secs p \<and> 0 < ps_with_timeout p)
     \<and> (let k = sv_kademlia (cfg_services c) in
          ks_enabled k \<longrightarrow> 0 < ks_record_ttl_seconds k \<and> 0 < ks_query_timeout_seconds k)
     \<and> (let d = sv_dispatcher (cfg_services c) in
          (dc_enabled d \<longrightarrow> 0 < dc_query_timeout_secs d \<and> 0 < dc_types_sync_secs d)
          \<and> unat (dc_max_inflight_dht d) \<in> {1..16}
          \<and> unat (dc_max_request_bytes d) \<in> {1..64 * 2 ^ 20}
          \<and> unat (dc_max_response_bytes d) \<in> {1..64 * 2 ^ 20}
          \<and> distinct (map ls_name (dc_local_services d))
          \<and> (\<forall>s \<in> set (dc_local_services d). 0 < ls_port s))
     \<and> unat (rg_max_inflight_dht (sv_registry (cfg_services c))) \<in> {1..16}
     \<and> unat (cp_max_record_bytes (cfg_compat c)) \<in> {1..2 ^ 20}
     \<and> 0 < rs_retry_interval_secs (sv_relay (cfg_services c))
     \<and> (cc_pq_required (cfg_crypto c) \<or> cc_pq_identity_enabled (cfg_crypto c)
          \<longrightarrow> cc_pq_transport_enabled (cfg_crypto c))"

lemma u32_range_iff: "1 \<le> (w::u32) \<and> w \<le> 16 \<longleftrightarrow> unat w \<in> {1..16}"
  by (simp add: word_le_nat_alt)

lemma u64_range_iff:
  assumes "n < 2 ^ 64"
  shows "\<not> ((w::u64) = 0 \<or> w > of_nat n) \<longleftrightarrow> unat w \<in> {1..n}"
proof -
  have "unat (of_nat n :: u64) = n" using assms by (simp add: unat_of_nat)
  moreover have "w = 0 \<longleftrightarrow> unat w = 0" by (simp add: unat_eq_0)
  ultimately show ?thesis by (auto simp: word_less_nat_alt)
qed

lemma max_message_range_iff:
  "\<not> ((w::u64) = 0 \<or> w > MAX_MESSAGE_BYTES_LIMIT) \<longleftrightarrow> unat w \<in> {1..64 * 2 ^ 20}"
  using u64_range_iff [of "64 * 2 ^ 20" w] by (simp add: MAX_MESSAGE_BYTES_LIMIT_def)

lemma compat_range_iff:
  "\<not> ((w::u64) = 0 \<or> w > of_nat DHT_MAX_RECORD_BYTES) \<longleftrightarrow> unat w \<in> {1..2 ^ 20}"
  using u64_range_iff [of "2 ^ 20" w] by (simp add: DHT_MAX_RECORD_BYTES_def)

lemma port_range_iff: "\<not> (w::u32) > 0xFFFF \<longleftrightarrow> unat w < 2 ^ 16"
  by (auto simp: word_less_nat_alt)

lemma guard_Ok: "(if b then Err e else r) = Ok x \<longleftrightarrow> \<not> b \<and> r = Ok x"
  by simp

lemma rbind_unit_Ok: "rbind r f = Ok y \<longleftrightarrow> r = Ok () \<and> f () = Ok y"
  by (cases r) auto

lemma validate_iff_ok: "validate c = Ok () \<longleftrightarrow> config_ok c"
proof -
  have zero: "(w::u32) = 0 \<longleftrightarrow> \<not> 0 < w" "(v::u64) = 0 \<longleftrightarrow> \<not> 0 < v" "(p::u16) = 0 \<longleftrightarrow> \<not> 0 < p"
    for w v p by (simp_all add: word_gt_0)
  show ?thesis
    unfolding validate_def Let_def guard_Ok rbind_unit_Ok validate_local_Ok config_ok_def
      port_range_iff max_message_range_iff compat_range_iff u32_range_iff
    unfolding zero
    by (simp only: list.set Int_empty_right not_not simp_thms) blast
qed

lemma validate_default [simp]: "validate node_config_default = Ok ()"
  unfolding validate_iff_ok
  by (simp add: config_ok_def config_default_defs OLD_COMPAT_RECORD_BYTES_def OLD_KAD_PACKET_BYTES_def)

section \<open>Completion keeps what the file has\<close>

fun toml_at :: "toml_table \<Rightarrow> string list \<Rightarrow> toml_item option" where
  "toml_at t [] = Some (TomlTable t)"
| "toml_at t (k # ks) =
     (case map_of t k of
        None \<Rightarrow> None
      | Some (TomlTable t') \<Rightarrow> toml_at t' ks
      | Some (TomlOther v) \<Rightarrow> if ks = [] then Some (TomlOther v) else None)"

text \<open>One entry of the defaults, merged into the document.\<close>

definition merge_entry :: "toml_table \<Rightarrow> string \<Rightarrow> toml_item \<Rightarrow> toml_table" where
  "merge_entry dst key src_item =
     (case map_of dst key of
        None \<Rightarrow> dst @ [(key, src_item)]
      | Some (TomlTable dst_table) \<Rightarrow>
          (case src_item of
             TomlTable src_table \<Rightarrow>
               AList.update key (TomlTable (merge_missing dst_table src_table)) dst
           | TomlOther _ \<Rightarrow> dst)
      | Some (TomlOther _) \<Rightarrow> dst)"

lemma merge_missing_Cons:
  "merge_missing dst ((key, src_item) # src) = merge_missing (merge_entry dst key src_item) src"
  by (simp add: merge_entry_def split: option.split toml_item.split)

lemma map_of_merge_entry:
  "map_of (merge_entry dst key si) k =
     (if k \<noteq> key then map_of dst k
      else case (map_of dst key, si) of
             (None, _) \<Rightarrow> Some si
           | (Some (TomlTable d), TomlTable s) \<Rightarrow> Some (TomlTable (merge_missing d s))
           | (Some i, _) \<Rightarrow> Some i)"
  by (auto simp: merge_entry_def map_add_def split: option.splits toml_item.splits)

lemma map_of_merge_missing_Other:
  "map_of dst k = Some (TomlOther v) \<Longrightarrow> map_of (merge_missing dst src) k = Some (TomlOther v)"
proof (induction src arbitrary: dst)
  case (Cons e src)
  obtain key si where e: "e = (key, si)" by fastforce
  have "map_of (merge_entry dst key si) k = Some (TomlOther v)"
    using Cons.prems by (auto simp: map_of_merge_entry split: toml_item.splits)
  then show ?case unfolding e merge_missing_Cons by (rule Cons.IH)
qed simp

lemma merge_missing_keeps_leaf:
  "toml_at dst path = Some (TomlOther v) \<Longrightarrow> toml_at (merge_missing dst src) path = Some (TomlOther v)"
proof (induction dst src arbitrary: path rule: merge_missing.induct)
  case (2 dst key si src)
  let ?dst' = "merge_entry dst key si"
  from "2.prems" obtain k ks where path: "path = k # ks" by (cases path) auto
  have "toml_at ?dst' path = Some (TomlOther v)"
  proof (cases "k = key \<and> (\<exists>d s. map_of dst key = Some (TomlTable d) \<and> si = TomlTable s)")
    case True
    then obtain d s where d: "map_of dst key = Some (TomlTable d)" and s: "si = TomlTable s"
      and k: "k = key" by auto
    from "2.prems" d k path have "toml_at d ks = Some (TomlOther v)" by simp
    then have "toml_at (merge_missing d s) ks = Some (TomlOther v)"
      using "2.IH"(1) [of "TomlTable d" "TomlTable d" "TomlTable s" d s] d s by simp
    with d s k path show ?thesis by (simp add: map_of_merge_entry)
  next
    case False
    with "2.prems" path show ?thesis
      by (auto simp: map_of_merge_entry split: option.splits toml_item.splits if_splits)
  qed
  then show ?case
    unfolding merge_missing_Cons using "2.IH"(2) [of path]
    by (simp add: merge_entry_def split: option.splits toml_item.splits)
qed simp

text \<open>\<open>covers\<close>: the document has every entry of the defaults, in every table both have.\<close>

function covers :: "toml_table \<Rightarrow> toml_table \<Rightarrow> bool" where
  "covers dst [] \<longleftrightarrow> True"
| "covers dst ((key, si) # src) \<longleftrightarrow>
     (case map_of dst key of
        None \<Rightarrow> False
      | Some di \<Rightarrow>
          (case di of
             TomlTable d \<Rightarrow> (case si of TomlTable s \<Rightarrow> covers d s | TomlOther _ \<Rightarrow> True)
           | TomlOther _ \<Rightarrow> True)) \<and> covers dst src"
  by pat_completeness auto
termination
  by (relation "measure (\<lambda>(dst, src). size_list (size_prod (\<lambda>_. 0) size) src)") auto

text \<open>No table of the document has a key twice: TOML forbids it.\<close>

fun toml_wf :: "toml_item \<Rightarrow> bool" where
  "toml_wf (TomlTable t) \<longleftrightarrow> distinct (map fst t) \<and> (\<forall>e \<in> set t. toml_wf (snd e))"
| "toml_wf (TomlOther v) \<longleftrightarrow> True"

lemma update_same: "map_of t k = Some v \<Longrightarrow> AList.update k v t = t"
  by (induction t) (auto split: if_splits)

lemma merge_missing_covered: "covers dst src \<Longrightarrow> merge_missing dst src = dst"
proof (induction dst src rule: covers.induct)
  case (2 dst key si src)
  then have "merge_entry dst key si = dst"
    by (auto simp: merge_entry_def update_same split: option.splits toml_item.splits)
  with 2 show ?case by (simp only: merge_missing_Cons) simp
qed simp

lemma covers_cong:
  assumes "\<And>k. k \<in> fst ` set src \<Longrightarrow> map_of d1 k = map_of d2 k"
  shows "covers d1 src = covers d2 src"
  using assms by (induction src) auto

lemma map_of_merge_missing_notin:
  "k \<notin> fst ` set src \<Longrightarrow> map_of (merge_missing dst src) k = map_of dst k"
proof (induction src arbitrary: dst)
  case (Cons e src)
  then show ?case by (cases e) (auto simp: merge_missing_Cons map_of_merge_entry simp del: merge_missing.simps)
qed simp

lemma covers_sub:
  assumes "toml_wf (TomlTable t)" and "\<And>k u. (k, TomlTable u) \<in> set t \<Longrightarrow> covers u u"
  shows "set s \<subseteq> set t \<Longrightarrow> covers t s"
proof (induction s)
  case (Cons e s)
  obtain k i where e: "e = (k, i)" by fastforce
  with Cons.prems assms(1) have "map_of t k = Some i" by simp
  moreover have "covers u u" if "i = TomlTable u" for u
    using assms(2) [of k u] Cons.prems e that by simp
  ultimately show ?case using Cons e by (simp split: toml_item.split)
qed simp

lemma covers_item: "toml_wf i \<Longrightarrow> i = TomlTable t \<Longrightarrow> covers t t"
proof (induction i arbitrary: t)
  case (TomlTable u)
  show ?case
  proof (rule covers_sub)
    show "toml_wf (TomlTable t)" using TomlTable.prems by simp
    show "covers w w" if "(k, TomlTable w) \<in> set t" for k w
      using TomlTable.IH [of "(k, TomlTable w)" "TomlTable w" w] TomlTable.prems that by force
  qed simp
qed simp

lemmas covers_self = covers_item [OF _ refl]

lemma covers_merge_missing: "toml_wf (TomlTable src) \<Longrightarrow> covers (merge_missing dst src) src"
proof (induction dst src rule: merge_missing.induct)
  case (2 dst key si src)
  have wf: "toml_wf (TomlTable src)" "toml_wf si" and new: "key \<notin> fst ` set src"
    using "2.prems" by auto
  have rest: "covers (merge_missing (merge_entry dst key si) src) src"
    using "2.IH"(2) wf by (simp add: merge_entry_def split: option.splits toml_item.splits)
  have at: "map_of (merge_missing (merge_entry dst key si) src) key = map_of (merge_entry dst key si) key"
    using new by (rule map_of_merge_missing_notin)
  have "covers (merge_missing d s) s" if "map_of dst key = Some (TomlTable d)" "si = TomlTable s" for d s
    using "2.IH"(1) [of "TomlTable d" "TomlTable d" "TomlTable s" d s] that wf by simp
  with rest at wf show ?case
    by (auto simp: merge_missing_Cons map_of_merge_entry covers_self
        simp del: merge_missing.simps split: option.splits toml_item.splits)
qed simp

section \<open>Properties\<close>

text \<open>
  The start-up check accepts a configuration exactly when every field is in its documented
  range, whatever the order in which the code tests them: a 16-bit port, non-zero intervals and
  timeouts of the enabled services, 1 to 16 DHT jobs, 1 byte to 64 MiB messages, records of at most
  1 MiB, local services with distinct names and non-zero ports, and no post-quantum requirement
  without the post-quantum transport.
\<close>
theorem validate_iff_config_ok: "validate c = Ok () \<longleftrightarrow> config_ok c"
  by (rule validate_iff_ok)


text \<open>
  Completing the file with defaults never changes a value the operator wrote: every leaf of the
  document is found, unchanged and under the same path, in the completed one.
\<close>
theorem merge_missing_preserves:
  "toml_at dst path = Some (TomlOther v) \<Longrightarrow> toml_at (merge_missing dst src) path = Some (TomlOther v)"
  by (rule merge_missing_keeps_leaf)

text \<open>
  The completed document has every default entry, and completing it a second time leaves it
  as it is, so that a completed file is not rewritten at the next start.
\<close>
theorem merge_missing_idempotent:
  assumes "toml_wf (TomlTable src)"
  shows "covers (merge_missing dst src) src
     \<and> merge_missing (merge_missing dst src) src = merge_missing dst src"
  using covers_merge_missing [OF assms] merge_missing_covered by blast

definition demo_doc :: toml_table where
  "demo_doc = [(''network'', TomlTable [(''port'', TomlOther ''4711'')])]"

definition demo_defaults :: toml_table where
  "demo_defaults =
     [(''network'', TomlTable [(''port'', TomlOther ''9000''), (''ipv4_enabled'', TomlOther ''false'')]),
      (''crypto'', TomlTable [])]"

theorem merge_missing_preserves_witness:
  "toml_at (merge_missing demo_doc demo_defaults) [''network'', ''port''] = Some (TomlOther ''4711'')"
  by (rule merge_missing_preserves) (simp add: demo_doc_def)

theorem merge_missing_idempotent_witness:
  "covers (merge_missing demo_doc demo_defaults) demo_defaults
   \<and> merge_missing (merge_missing demo_doc demo_defaults) demo_defaults
       = merge_missing demo_doc demo_defaults"
  by (rule merge_missing_idempotent) (simp add: demo_defaults_def)

text \<open>A TOML library that reads one text as a valid configuration and every other text as none.\<close>

definition demo_toml :: toml_lib where
  "demo_toml =
     \<lparr>tl_parse_doc = (\<lambda>s. if s = ''ok'' then Some demo_doc else None),
      tl_print_doc = (\<lambda>_. ''ok''),
      tl_from_str = (\<lambda>s. if s = ''ok'' then Some node_config_default else None),
      tl_to_string_pretty = (\<lambda>_. Some ''ok'')\<rparr>"

definition demo_env :: load_env where
  "demo_env =
     \<lparr>le_exists = True, le_read = Ok ''junk'', le_rename_ok = True, le_write_atomic_ok = True,
      le_write_ok = True\<rparr>"

lemma demo_load:
  "from_toml_file demo_toml demo_env True = Loaded node_config_default [RenameBad, WriteFile ''ok'']"
  by (simp add: from_toml_file_def create_default_config_def demo_env_def demo_toml_def)


lemma backup_name_inject: "backup_name stem i = backup_name stem j \<longleftrightarrow> i = j"
  by (auto simp: backup_name_def split: if_splits)

lemma free_backup_from:
  assumes "finite {f. exists f}"
  shows "\<exists>k\<ge>n. free_backup exists stem n = Some (backup_name stem k)
     \<and> \<not> exists (backup_name stem k) \<and> (\<forall>j. n \<le> j \<and> j < k \<longrightarrow> exists (backup_name stem j))"
proof (induction "card {i. n \<le> i \<and> exists (backup_name stem i)}" arbitrary: n rule: less_induct)
  case less
  have "{i. n \<le> i \<and> exists (backup_name stem i)} \<subseteq> backup_name stem -` {f. exists f}" by auto
  moreover have "finite (backup_name stem -` {f. exists f})"
    by (rule finite_vimageI [OF assms]) (simp add: inj_def backup_name_inject)
  ultimately have fin: "finite {i. n \<le> i \<and> exists (backup_name stem i)}" by (rule finite_subset)
  show ?case
  proof (cases "exists (backup_name stem n)")
    case True
    then have "{i. Suc n \<le> i \<and> exists (backup_name stem i)} \<subset> {i. n \<le> i \<and> exists (backup_name stem i)}"
      by (intro psubsetI) (auto simp: set_eq_iff intro: exI [of _ n])
    from less [OF psubset_card_mono [OF fin this]] obtain k where
      "Suc n \<le> k" "free_backup exists stem (Suc n) = Some (backup_name stem k)"
      "\<not> exists (backup_name stem k)" "\<forall>j. Suc n \<le> j \<and> j < k \<longrightarrow> exists (backup_name stem j)" by blast
    moreover have "n \<le> j \<longleftrightarrow> n = j \<or> Suc n \<le> j" for j by auto
    ultimately show ?thesis
      using True by (intro exI [of _ k]) (auto simp: free_backup.simps [of "exists" stem n])
  next
    case False
    then show ?thesis by (intro exI [of _ n]) (auto simp: free_backup.simps)
  qed
qed

text \<open>
  The search for a backup name of an unreadable configuration ends: with finitely many files on
  disk it returns the first free name of the sequence \<open>.bak\<close>, \<open>.bak.1\<close>, \<open>.bak.2\<close>, ..., so an
  earlier backup is never overwritten.
\<close>
theorem free_backup_finds:
  assumes "finite {f. exists f}"
  shows "\<exists>k. free_backup exists stem 0 = Some (backup_name stem k)
     \<and> \<not> exists (backup_name stem k) \<and> (\<forall>j<k. exists (backup_name stem j))"
  using free_backup_from [OF assms, of 0 stem] by auto

theorem free_backup_finds_witness:
  "\<exists>k. free_backup (\<lambda>f. f = ''c.bak'') ''c'' 0 = Some (backup_name ''c'' k)
     \<and> backup_name ''c'' k \<noteq> ''c.bak'' \<and> (\<forall>j<k. backup_name ''c'' j = ''c.bak'')"
  by (rule free_backup_finds) simp

text \<open>
  A validated port survives the cast to 16 bits: a node advertises one address per configured
  public IP, each of the form IP, TCP port, WebSocket, own peer id, and the port is the configured
  number.
\<close>
theorem dialable_addrs_port:
  assumes "validate c = Ok ()"
  shows "length (dialable_addrs c peer) \<le> 2
     \<and> (\<forall>addr \<in> set (dialable_addrs c peer).
          \<exists>ip port. addr = [ip, Tcp port, Ws ''/'', P2p peer] \<and> unat port = unat (nc_port (cfg_network c)))"
proof -
  have "unat (nc_port (cfg_network c)) < 2 ^ 16"
    using assms by (simp add: validate_iff_ok config_ok_def)
  then have "unat (ucast (nc_port (cfg_network c)) :: u16) = unat (nc_port (cfg_network c))"
    by (intro unat_ucast_fits) simp
  then show ?thesis
    by (auto simp: dialable_addrs_def List.map_filter_def split: ip_addr.splits)
qed

definition demo_public :: node_config where
  "demo_public = node_config_default
     \<lparr>cfg_network := network_config_default\<lparr>nc_ipv4_address := Some (V4 0x01020304)\<rparr>\<rparr>"

lemma demo_public_ok: "validate demo_public = Ok ()"
  unfolding validate_iff_ok
  by (simp add: config_ok_def demo_public_def config_default_defs OLD_COMPAT_RECORD_BYTES_def
      OLD_KAD_PACKET_BYTES_def)

theorem dialable_addrs_port_witness:
  "\<exists>ip port. hd (dialable_addrs demo_public []) = [ip, Tcp port, Ws ''/'', P2p []]
     \<and> unat port = unat (nc_port (cfg_network demo_public))"
proof -
  have "hd (dialable_addrs demo_public []) \<in> set (dialable_addrs demo_public [])"
    by (simp add: dialable_addrs_def List.map_filter_def demo_public_def config_default_defs)
  with dialable_addrs_port [OF demo_public_ok, of "[]"] show ?thesis by blast
qed

end
