(* ===== verification/NN_Auth.thy ===== *)
theory NN_Auth
  imports NN_Config
begin

text \<open>
  The authentication records: \<open>src/src/cose.rs\<close> (COSE_Sign1 envelopes) and \<open>src/src/auth.rs\<close> (the
  index and whitelist documents, their verification, and the rollback guard \<open>AuthVersions\<close>).

  The crates \<open>coset\<close>, \<open>libp2p-identity\<close>, \<open>sha2\<close>, \<open>base64\<close> and \<open>ciborium\<close> are the record
  \<open>auth_lib\<close>, an argument of every operation that calls them. What the proofs need of them is
  named: \<open>tbs_binds\<close> (the to-be-signed bytes determine the external data and the payload),
  \<open>signs_only\<close> (the authority's key verifies nothing but what its owner signed) and
  \<open>auth_codec_ok\<close> (the codecs and signatures round trip).
\<close>

section \<open>External libraries\<close>

datatype cose_alg = EdDSA | OtherAlg string

record cose_sign1 =
  s1_alg :: "cose_alg option"
  s1_payload :: "bytes option"
  s1_signature :: bytes
  s1_other_headers :: bytes

text \<open>Documents of the DHT, as \<open>ciborium\<close> reads and writes them.\<close>

record service_entry =
  se_name :: string
  se_hash :: bytes
  se_length :: u64

record index_doc =
  ix_version :: u64
  ix_expires_at :: u64
  ix_services :: "service_entry list"

record whitelist_doc =
  wd_version :: u64
  wd_members :: "string list"

type_synonym public_key = bytes
type_synonym keypair = bytes

record auth_lib =
  al_from_slice :: "bytes \<Rightarrow> cose_sign1 option"
  al_to_vec :: "cose_sign1 \<Rightarrow> bytes option"
  al_tbs :: "cose_sign1 \<Rightarrow> bytes \<Rightarrow> bytes"
  al_verify :: "public_key \<Rightarrow> bytes \<Rightarrow> bytes \<Rightarrow> bool"
  al_sign :: "keypair \<Rightarrow> bytes \<Rightarrow> bytes option"
  al_public_key :: "bytes \<Rightarrow> public_key option"
  al_base64 :: "string \<Rightarrow> bytes option"
  al_base64url :: "bytes \<Rightarrow> string"
  al_sha256 :: "bytes \<Rightarrow> bytes"
  al_index_enc :: "index_doc \<Rightarrow> bytes option"
  al_index_dec :: "bytes \<Rightarrow> index_doc option"
  al_whitelist_enc :: "whitelist_doc \<Rightarrow> bytes option"
  al_whitelist_dec :: "bytes \<Rightarrow> whitelist_doc option"

section \<open>COSE_Sign1 envelopes\<close>

datatype cose_error = CoseEnvelope | CoseMalformed | CoseInvalidSignature | CoseTooLarge

definition sign_ed25519 :: "auth_lib \<Rightarrow> keypair \<Rightarrow> bytes \<Rightarrow> bytes \<Rightarrow> (bytes, cose_error) result" where
  "sign_ed25519 lib keypair aad payload =
     (let unsigned = \<lparr>s1_alg = Some EdDSA, s1_payload = Some payload, s1_signature = [],
                       s1_other_headers = []\<rparr> in
      rbind (ok_or CoseEnvelope (al_sign lib keypair (al_tbs lib unsigned aad))) (\<lambda>signature.
      ok_or CoseEnvelope (al_to_vec lib (unsigned\<lparr>s1_signature := signature\<rparr>))))"

definition verify_ed25519 ::
    "auth_lib \<Rightarrow> public_key \<Rightarrow> bytes \<Rightarrow> bytes \<Rightarrow> nat \<Rightarrow> (bytes, cose_error) result" where
  "verify_ed25519 lib authority aad value max_len =
     (if length value > max_len then Err CoseTooLarge
      else rbind (ok_or CoseEnvelope (al_from_slice lib value)) (\<lambda>sign1.
        if s1_alg sign1 \<noteq> Some EdDSA then Err CoseInvalidSignature
        else if \<not> al_verify lib authority (al_tbs lib sign1 aad) (s1_signature sign1)
        then Err CoseInvalidSignature
        else ok_or CoseMalformed (s1_payload sign1)))"

section \<open>Names and keys\<close>

definition MAX_DOC_BYTES :: nat where
  "MAX_DOC_BYTES = DHT_MAX_RECORD_BYTES"

definition MAX_MEMBERS :: nat where
  "MAX_MEMBERS = 100000"

definition MAX_SERVICES :: nat where
  "MAX_SERVICES = 10000"

definition RESERVED_SERVICE :: string where
  "RESERVED_SERVICE = ''service''"

definition AUTH_PREFIX :: string where
  "AUTH_PREFIX = ''/oahd/auth''"

datatype auth_error =
    AuthCose
  | AuthMalformed
  | InvalidAuthority
  | InvalidSignature
  | Expired
  | Rollback
  | HashMismatch
  | NotInIndex
  | TooLarge
  | InvalidName

definition is_ascii_alphanumeric :: "char \<Rightarrow> bool" where
  "is_ascii_alphanumeric c \<longleftrightarrow>
     CHR ''0'' \<le> c \<and> c \<le> CHR ''9'' \<or> CHR ''A'' \<le> c \<and> c \<le> CHR ''Z'' \<or> CHR ''a'' \<le> c \<and> c \<le> CHR ''z''"

definition is_valid_network_name :: "string \<Rightarrow> bool" where
  "is_valid_network_name s \<longleftrightarrow>
     s \<noteq> [] \<and> length s \<le> 64
     \<and> list_all (\<lambda>b. is_ascii_alphanumeric b \<or> b = CHR ''_'' \<or> b = CHR ''-'') s"

definition is_valid_service_name :: "string \<Rightarrow> bool" where
  "is_valid_service_name s \<longleftrightarrow> is_valid_network_name s \<and> s \<noteq> RESERVED_SERVICE"

record auth_net =
  net_hash :: string
  net_authority :: public_key

definition hash_network_name :: "auth_lib \<Rightarrow> string \<Rightarrow> string" where
  "hash_network_name lib name = al_base64url lib (al_sha256 lib (as_bytes name))"

definition content_hash :: "auth_lib \<Rightarrow> bytes \<Rightarrow> bytes" where
  "content_hash lib value = al_sha256 lib value"

definition parse_authority :: "auth_lib \<Rightarrow> string \<Rightarrow> (public_key, auth_error) result" where
  "parse_authority lib b64 =
     rbind (ok_or InvalidAuthority (al_base64 lib b64)) (\<lambda>bytes.
     ok_or InvalidAuthority (al_public_key lib bytes))"

definition auth_net_new :: "auth_lib \<Rightarrow> string \<Rightarrow> string \<Rightarrow> (auth_net, auth_error) result" where
  "auth_net_new lib name authority_b64 =
     (if \<not> is_valid_network_name name then Err InvalidName
      else map_ok (\<lambda>a. \<lparr>net_hash = hash_network_name lib name, net_authority = a\<rparr>)
             (parse_authority lib authority_b64))"

definition index_key :: "auth_net \<Rightarrow> string" where
  "index_key net = AUTH_PREFIX @ ''/'' @ net_hash net @ ''/'' @ RESERVED_SERVICE"

definition service_key :: "auth_net \<Rightarrow> string \<Rightarrow> (string, auth_error) result" where
  "service_key net service =
     (if \<not> is_valid_service_name service then Err InvalidName
      else Ok (AUTH_PREFIX @ ''/'' @ net_hash net @ ''/'' @ service))"

section \<open>Signing and verifying documents\<close>

fun map_cose_error :: "cose_error \<Rightarrow> auth_error" where
  "map_cose_error CoseEnvelope = AuthCose"
| "map_cose_error CoseMalformed = AuthMalformed"
| "map_cose_error CoseInvalidSignature = InvalidSignature"
| "map_cose_error CoseTooLarge = TooLarge"

definition sign_payload :: "auth_lib \<Rightarrow> keypair \<Rightarrow> bytes \<Rightarrow> bytes \<Rightarrow> (bytes, auth_error) result" where
  "sign_payload lib keypair aad payload = map_err map_cose_error (sign_ed25519 lib keypair aad payload)"

definition verify_payload :: "auth_lib \<Rightarrow> public_key \<Rightarrow> bytes \<Rightarrow> bytes \<Rightarrow> (bytes, auth_error) result" where
  "verify_payload lib authority aad value =
     map_err map_cose_error (verify_ed25519 lib authority aad value MAX_DOC_BYTES)"

definition sign_index :: "auth_lib \<Rightarrow> keypair \<Rightarrow> auth_net \<Rightarrow> index_doc \<Rightarrow> (bytes, auth_error) result" where
  "sign_index lib keypair net doc =
     rbind (ok_or AuthMalformed (al_index_enc lib doc)) (\<lambda>payload.
     sign_payload lib keypair (as_bytes (index_key net)) payload)"

definition sign_whitelist ::
    "auth_lib \<Rightarrow> keypair \<Rightarrow> auth_net \<Rightarrow> string \<Rightarrow> whitelist_doc \<Rightarrow> (bytes, auth_error) result" where
  "sign_whitelist lib keypair net service doc =
     rbind (service_key net service) (\<lambda>key.
     rbind (ok_or AuthMalformed (al_whitelist_enc lib doc)) (\<lambda>payload.
     sign_payload lib keypair (as_bytes key) payload))"

fun check_entries :: "service_entry list \<Rightarrow> (unit, auth_error) result" where
  "check_entries [] = Ok ()"
| "check_entries (entry # es) =
     (if \<not> is_valid_service_name (se_name entry) then Err InvalidName
      else if length (se_hash entry) \<noteq> 32 then Err AuthMalformed
      else check_entries es)"

definition verify_index :: "auth_lib \<Rightarrow> auth_net \<Rightarrow> bytes \<Rightarrow> u64 \<Rightarrow> (index_doc, auth_error) result" where
  "verify_index lib net value now =
     rbind (verify_payload lib (net_authority net) (as_bytes (index_key net)) value) (\<lambda>payload.
     rbind (ok_or AuthMalformed (al_index_dec lib payload)) (\<lambda>doc.
       if length (ix_services doc) > MAX_SERVICES then Err TooLarge
       else rbind (check_entries (ix_services doc)) (\<lambda>_.
         if now > ix_expires_at doc then Err Expired else Ok doc)))"

definition verify_whitelist ::
    "auth_lib \<Rightarrow> auth_net \<Rightarrow> string \<Rightarrow> bytes \<Rightarrow> service_entry \<Rightarrow> (whitelist_doc, auth_error) result" where
  "verify_whitelist lib net service value entry =
     (if of_nat (length value) \<noteq> se_length entry \<or> content_hash lib value \<noteq> se_hash entry
      then Err HashMismatch
      else
        rbind (service_key net service) (\<lambda>key.
        rbind (verify_payload lib (net_authority net) (as_bytes key) value) (\<lambda>payload.
        rbind (ok_or AuthMalformed (al_whitelist_dec lib payload)) (\<lambda>doc.
          if length (wd_members doc) > MAX_MEMBERS then Err TooLarge else Ok doc))))"

section \<open>Rollback guard\<close>

record auth_versions =
  av_index :: "u64 option"
  av_whitelists :: "string \<rightharpoonup> u64"

definition auth_versions_new :: auth_versions where
  "auth_versions_new = \<lparr>av_index = None, av_whitelists = Map.empty\<rparr>"

definition check_index :: "u64 \<Rightarrow> auth_versions \<Rightarrow> auth_versions \<times> (unit, auth_error) result" where
  "check_index version self =
     (if (case av_index self of Some cur \<Rightarrow> version < cur | None \<Rightarrow> False)
      then (self, Err Rollback)
      else (self\<lparr>av_index := Some version\<rparr>, Ok ()))"

definition check_whitelist ::
    "string \<Rightarrow> u64 \<Rightarrow> auth_versions \<Rightarrow> auth_versions \<times> (unit, auth_error) result" where
  "check_whitelist service version self =
     (if (case av_whitelists self service of Some cur \<Rightarrow> version < cur | None \<Rightarrow> False)
      then (self, Err Rollback)
      else (self\<lparr>av_whitelists := (av_whitelists self)(service \<mapsto> version)\<rparr>, Ok ()))"

definition versions_clear :: "auth_versions \<Rightarrow> auth_versions" where
  "versions_clear self = \<lparr>av_index = None, av_whitelists = Map.empty\<rparr>"

section \<open>What the libraries promise\<close>

text \<open>RFC 8152: an absent payload is signed like an empty one.\<close>

definition signed_content :: "cose_sign1 \<Rightarrow> bytes" where
  "signed_content s = (case s1_payload s of None \<Rightarrow> [] | Some p \<Rightarrow> p)"

definition tbs_binds :: "auth_lib \<Rightarrow> bool" where
  "tbs_binds lib \<longleftrightarrow>
     (\<forall>s aad s' aad'. al_tbs lib s aad = al_tbs lib s' aad'
        \<longrightarrow> aad = aad' \<and> signed_content s = signed_content s')"

text \<open>
  \<open>issued\<close> is what the owner of the key signed: payloads, each under its external data. Every
  signature the key verifies is one of these.
\<close>

definition signs_only :: "auth_lib \<Rightarrow> public_key \<Rightarrow> (bytes \<times> bytes) set \<Rightarrow> bool" where
  "signs_only lib pk issued \<longleftrightarrow>
     (\<forall>data sig. al_verify lib pk data sig
        \<longrightarrow> (\<exists>s aad p. (aad, p) \<in> issued \<and> s1_payload s = Some p \<and> data = al_tbs lib s aad))"

definition auth_codec_ok :: "auth_lib \<Rightarrow> keypair \<Rightarrow> public_key \<Rightarrow> bool" where
  "auth_codec_ok lib kp pk \<longleftrightarrow>
     (\<forall>data sig. al_sign lib kp data = Some sig \<longrightarrow> al_verify lib pk data sig)
     \<and> (\<forall>s v. al_to_vec lib s = Some v \<longrightarrow> al_from_slice lib v = Some s)
     \<and> (\<forall>s aad sig. al_tbs lib (s\<lparr>s1_signature := sig\<rparr>) aad = al_tbs lib s aad)
     \<and> (\<forall>d b. al_index_enc lib d = Some b \<longrightarrow> al_index_dec lib b = Some d)
     \<and> (\<forall>d b. al_whitelist_enc lib d = Some b \<longrightarrow> al_whitelist_dec lib b = Some d)"

text \<open>The evidence a verified envelope leaves: an EdDSA signature over the payload and the key.\<close>

definition signed_by :: "auth_lib \<Rightarrow> public_key \<Rightarrow> bytes \<Rightarrow> bytes \<Rightarrow> bool" where
  "signed_by lib pk aad payload \<longleftrightarrow>
     (\<exists>s. s1_alg s = Some EdDSA \<and> s1_payload s = Some payload
        \<and> al_verify lib pk (al_tbs lib s aad) (s1_signature s))"

section \<open>The contract of the envelope layer\<close>

text \<open>What the documents rely on: an opened envelope is small and somebody vouches for its payload.\<close>

locale record_verifier =
  fixes open_record :: "public_key \<Rightarrow> bytes \<Rightarrow> bytes \<Rightarrow> (bytes, auth_error) result"
    and vouched :: "public_key \<Rightarrow> bytes \<Rightarrow> bytes \<Rightarrow> bool"
    and limit :: nat
  assumes opened_vouched: "open_record pk aad v = Ok p \<Longrightarrow> vouched pk aad p"
    and opened_small: "open_record pk aad v = Ok p \<Longrightarrow> length v \<le> limit"
begin

lemma decoded_vouched:
  assumes "rbind (open_record pk aad v) (\<lambda>p. rbind (ok_or e (decode p)) k) = Ok r"
  shows "\<exists>p d. vouched pk aad p \<and> decode p = Some d \<and> k d = Ok r \<and> length v \<le> limit"
proof -
  from assms obtain p d where "open_record pk aad v = Ok p" "decode p = Some d" "k d = Ok r"
    by (auto simp: result_iffs)
  with opened_vouched opened_small show ?thesis by blast
qed

end

lemma verify_payload_Ok_iff:
  "verify_payload lib pk aad value = Ok p \<longleftrightarrow>
     length value \<le> MAX_DOC_BYTES
     \<and> (\<exists>s. al_from_slice lib value = Some s \<and> s1_alg s = Some EdDSA
          \<and> al_verify lib pk (al_tbs lib s aad) (s1_signature s) \<and> s1_payload s = Some p)"
  by (auto simp: verify_payload_def verify_ed25519_def result_iffs)

interpretation envelope: record_verifier "verify_payload lib" "signed_by lib" MAX_DOC_BYTES for lib
  by unfold_locales (auto simp: verify_payload_Ok_iff signed_by_def)

lemma signed_by_issued:
  assumes "signed_by lib pk aad p" and "tbs_binds lib" and "signs_only lib pk issued"
  shows "(aad, p) \<in> issued"
proof -
  from assms(1) obtain s where s: "s1_payload s = Some p"
    "al_verify lib pk (al_tbs lib s aad) (s1_signature s)" by (auto simp: signed_by_def)
  from assms(3) s(2) obtain s' aad' p' where i: "(aad', p') \<in> issued" "s1_payload s' = Some p'"
    "al_tbs lib s aad = al_tbs lib s' aad'" unfolding signs_only_def by meson
  from assms(2) i(3) have "aad = aad'" "signed_content s = signed_content s'"
    unfolding tbs_binds_def by meson+
  with s i show ?thesis by (simp add: signed_content_def)
qed

lemma check_entries_Ok_iff:
  "check_entries es = Ok u \<longleftrightarrow>
     (\<forall>e \<in> set es. is_valid_service_name (se_name e) \<and> length (se_hash e) = 32)"
  by (induction es) auto

text \<open>What a verified document is known to satisfy.\<close>

definition index_trusted :: "auth_lib \<Rightarrow> auth_net \<Rightarrow> u64 \<Rightarrow> index_doc \<Rightarrow> bool" where
  "index_trusted lib net now doc \<longleftrightarrow>
     (\<exists>p. signed_by lib (net_authority net) (as_bytes (index_key net)) p
        \<and> al_index_dec lib p = Some doc)
     \<and> now \<le> ix_expires_at doc \<and> length (ix_services doc) \<le> MAX_SERVICES
     \<and> (\<forall>e \<in> set (ix_services doc). is_valid_service_name (se_name e) \<and> length (se_hash e) = 32)"

definition whitelist_trusted ::
    "auth_lib \<Rightarrow> auth_net \<Rightarrow> string \<Rightarrow> bytes \<Rightarrow> service_entry \<Rightarrow> whitelist_doc \<Rightarrow> bool" where
  "whitelist_trusted lib net service value entry doc \<longleftrightarrow>
     (\<exists>key p. service_key net service = Ok key
        \<and> signed_by lib (net_authority net) (as_bytes key) p \<and> al_whitelist_dec lib p = Some doc)
     \<and> of_nat (length value) = se_length entry \<and> al_sha256 lib value = se_hash entry
     \<and> length value \<le> MAX_DOC_BYTES \<and> length (wd_members doc) \<le> MAX_MEMBERS"

lemma verify_index_trusted:
  assumes "verify_index lib net value now = Ok doc"
  shows "index_trusted lib net now doc \<and> length value \<le> MAX_DOC_BYTES"
  using envelope.decoded_vouched [OF assms [unfolded verify_index_def]]
  by (auto simp: index_trusted_def result_iffs check_entries_Ok_iff split: if_splits)

lemma verify_whitelist_trusted:
  assumes "verify_whitelist lib net service value entry = Ok doc"
  shows "whitelist_trusted lib net service value entry doc"
proof -
  from assms obtain key where key: "service_key net service = Ok key"
    and rest: "rbind (verify_payload lib (net_authority net) (as_bytes key) value) (\<lambda>payload.
        rbind (ok_or AuthMalformed (al_whitelist_dec lib payload)) (\<lambda>doc.
          if length (wd_members doc) > MAX_MEMBERS then Err TooLarge else Ok doc)) = Ok doc"
    and bound: "of_nat (length value) = se_length entry" "al_sha256 lib value = se_hash entry"
    by (auto simp: verify_whitelist_def content_hash_def rbind_Ok_iff [of "service_key net service"]
        split: if_splits)
  from envelope.decoded_vouched [OF rest] key bound show ?thesis
    by (auto simp: whitelist_trusted_def split: if_splits)
qed

lemma service_key_Ok_iff:
  "service_key net s = Ok k \<longleftrightarrow>
     is_valid_service_name s \<and> k = AUTH_PREFIX @ ''/'' @ net_hash net @ ''/'' @ s"
  by (auto simp: service_key_def)

section \<open>Rollback guard: the contract\<close>

interpretation index_guard: version_guard av_index check_index
  by unfold_locales (auto simp: check_index_def not_less split: if_splits option.splits)

interpretation whitelist_guard: version_guard "\<lambda>s. av_whitelists s service" "check_whitelist service"
  for service
  by unfold_locales (auto simp: check_whitelist_def not_less split: if_splits option.splits)

text \<open>Any interleaving of checks, of the index and of the whitelists of all services.\<close>

datatype version_check = CheckIndex u64 | CheckWhitelist string u64

fun version_step :: "version_check \<Rightarrow> auth_versions \<Rightarrow> auth_versions" where
  "version_step (CheckIndex v) s = fst (check_index v s)"
| "version_step (CheckWhitelist service v) s = fst (check_whitelist service v s)"

lemma version_step_index:
  "av_index s = Some cur \<Longrightarrow> \<exists>cur' \<ge> cur. av_index (version_step c s) = Some cur'"
  by (cases c) (auto simp: check_index_def check_whitelist_def)

lemma version_step_whitelist:
  "av_whitelists s service = Some cur \<Longrightarrow>
     \<exists>cur' \<ge> cur. av_whitelists (version_step c s) service = Some cur'"
  by (cases c) (auto simp: check_index_def check_whitelist_def)

lemma versions_index_grow:
  "av_index s = Some cur \<Longrightarrow> \<exists>cur' \<ge> cur. av_index (fold version_step cs s) = Some cur'"
proof (induction cs arbitrary: s cur)
  case (Cons c cs)
  from version_step_index [OF Cons.prems] obtain m where
    "cur \<le> m" "av_index (version_step c s) = Some m" by blast
  with Cons.IH [of "version_step c s" m] show ?case by force
qed simp

lemma versions_whitelist_grow:
  "av_whitelists s service = Some cur \<Longrightarrow>
     \<exists>cur' \<ge> cur. av_whitelists (fold version_step cs s) service = Some cur'"
proof (induction cs arbitrary: s cur)
  case (Cons c cs)
  from version_step_whitelist [OF Cons.prems] obtain m where
    "cur \<le> m" "av_whitelists (version_step c s) service = Some m" by blast
  with Cons.IH [of "version_step c s" m] show ?case by force
qed simp

section \<open>Properties\<close>

text \<open>
  (C15) Rollback protection: once a version of the index, or of the whitelist of a service, has been
  accepted, no later check accepts a lower one, whatever other checks (of any record, accepted or
  refused) happen in between, and the refusal leaves the guard unchanged.
\<close>
theorem no_rollback:
  assumes "w < v"
  shows "(check_index v s = (s1, Ok ()) \<longrightarrow>
            check_index w (fold version_step cs s1) = (fold version_step cs s1, Err Rollback))
     \<and> (check_whitelist service v s = (s1, Ok ()) \<longrightarrow>
            check_whitelist service w (fold version_step cs s1)
              = (fold version_step cs s1, Err Rollback))"
proof (intro conjI impI)
  assume "check_index v s = (s1, Ok ())"
  from versions_index_grow [OF index_guard.accepts [OF this], of cs] assms
  show "check_index w (fold version_step cs s1) = (fold version_step cs s1, Err Rollback)"
    by (auto simp: check_index_def)
next
  assume "check_whitelist service v s = (s1, Ok ())"
  from versions_whitelist_grow [OF whitelist_guard.accepts [OF this], of cs] assms
  show "check_whitelist service w (fold version_step cs s1) = (fold version_step cs s1, Err Rollback)"
    by (auto simp: check_whitelist_def)
qed


text \<open>
  An index the node accepts was signed by the configured authority under the index key of this
  network, has not expired, and lists at most 10000 services, all with valid names (never the
  reserved one) and 32-byte hashes.
\<close>
theorem verified_index_origin:
  assumes "tbs_binds lib" and "signs_only lib (net_authority net) issued"
    and "verify_index lib net value now = Ok doc"
  shows "(\<exists>p. (as_bytes (index_key net), p) \<in> issued \<and> al_index_dec lib p = Some doc)
     \<and> now \<le> ix_expires_at doc \<and> length (ix_services doc) \<le> 10000
     \<and> (\<forall>e \<in> set (ix_services doc).
          is_valid_network_name (se_name e) \<and> se_name e \<noteq> ''service'' \<and> length (se_hash e) = 32)"
  using verify_index_trusted [OF assms(3)] signed_by_issued [OF _ assms(1,2)]
  by (auto simp: index_trusted_def is_valid_service_name_def RESERVED_SERVICE_def MAX_SERVICES_def)

lemma sign_payload_verifies:
  assumes "auth_codec_ok lib kp pk" and "sign_payload lib kp aad payload = Ok value"
    and "length value \<le> MAX_DOC_BYTES"
  shows "verify_payload lib pk aad value = Ok payload"
proof -
  let ?u = "\<lparr>s1_alg = Some EdDSA, s1_payload = Some payload, s1_signature = [], s1_other_headers = []\<rparr>"
  from assms(2) obtain sig where "al_sign lib kp (al_tbs lib ?u aad) = Some sig"
    "al_to_vec lib (?u\<lparr>s1_signature := sig\<rparr>) = Some value"
    by (auto simp: sign_payload_def sign_ed25519_def result_iffs)
  with assms(1) have "al_from_slice lib value = Some (?u\<lparr>s1_signature := sig\<rparr>)"
    "al_verify lib pk (al_tbs lib (?u\<lparr>s1_signature := sig\<rparr>) aad) sig"
    unfolding auth_codec_ok_def by metis+
  with assms(3) show ?thesis by (simp add: verify_payload_Ok_iff)
qed

text \<open>
  Round trip: the index a publisher signs with the authority's key verifies at a node until it
  expires, and the node reads the document that was signed, provided the record fits the DHT limit
  and the entries are well formed.
\<close>
theorem sign_verify_index:
  assumes "auth_codec_ok lib kp (net_authority net)" and "sign_index lib kp net doc = Ok value"
    and "length value \<le> MAX_DOC_BYTES" and "length (ix_services doc) \<le> MAX_SERVICES"
    and "check_entries (ix_services doc) = Ok ()" and "now \<le> ix_expires_at doc"
  shows "verify_index lib net value now = Ok doc"
proof -
  from assms(2) obtain p where p: "al_index_enc lib doc = Some p"
    "sign_payload lib kp (as_bytes (index_key net)) p = Ok value"
    by (auto simp: sign_index_def result_iffs)
  then have "verify_payload lib (net_authority net) (as_bytes (index_key net)) value = Ok p"
    using sign_payload_verifies assms(1,3) by blast
  moreover from p(1) assms(1) have "al_index_dec lib p = Some doc"
    unfolding auth_codec_ok_def by blast
  ultimately show ?thesis using assms by (simp add: verify_index_def)
qed

text \<open>
  Round trip: a signed whitelist verifies against the index entry that records its length and
  hash, and the node reads the members that were signed.
\<close>
theorem sign_verify_whitelist:
  assumes "auth_codec_ok lib kp (net_authority net)"
    and "sign_whitelist lib kp net service doc = Ok value"
    and "length value \<le> MAX_DOC_BYTES" and "length (wd_members doc) \<le> MAX_MEMBERS"
    and "entry = \<lparr>se_name = service, se_hash = content_hash lib value, se_length = of_nat (length value)\<rparr>"
  shows "verify_whitelist lib net service value entry = Ok doc"
proof -
  from assms(2) obtain key p where p: "service_key net service = Ok key"
    "al_whitelist_enc lib doc = Some p" "sign_payload lib kp (as_bytes key) p = Ok value"
    by (auto simp: sign_whitelist_def result_iffs)
  then have "verify_payload lib (net_authority net) (as_bytes key) value = Ok p"
    using sign_payload_verifies assms(1,3) by blast
  moreover from p(2) assms(1) have "al_whitelist_dec lib p = Some doc"
    unfolding auth_codec_ok_def by blast
  ultimately show ?thesis using assms p by (simp add: verify_whitelist_def)
qed

lemma split_at_slash:
  assumes "a @ CHR ''/'' # s = b @ CHR ''/'' # t" and "CHR ''/'' \<notin> set a" and "CHR ''/'' \<notin> set b"
  shows "a = b \<and> s = t"
  using assms
proof (induction a arbitrary: b)
  case Nil
  then show ?case by (cases b) auto
next
  case (Cons x a)
  then show ?case by (cases b) auto
qed

text \<open>
  The DHT keys separate the records: no service name gives the key of the index, and with
  network hashes that contain no slash (base64url has none) two whitelists share a key only if they
  belong to the same service of the same network.
\<close>
theorem auth_keys_separate:
  assumes "CHR ''/'' \<notin> set (net_hash net)" and "CHR ''/'' \<notin> set (net_hash net')"
    and "service_key net service = Ok key"
  shows "key \<noteq> index_key net'
     \<and> (service_key net' service' = Ok key \<longrightarrow> net_hash net = net_hash net' \<and> service = service')"
  using assms split_at_slash [of "net_hash net" _ "net_hash net'"]
  by (auto simp: service_key_Ok_iff index_key_def is_valid_service_name_def)

section \<open>A concrete instance\<close>

text \<open>
  One network with one service. The authority has signed its index (payload \<open>[1]\<close>) and its
  whitelist (payload \<open>[2]\<close>), and the to-be-signed bytes spell out the external data and payload.
\<close>

definition demo_net :: auth_net where
  "demo_net = \<lparr>net_hash = ''h'', net_authority = [9]\<rparr>"

definition demo_whitelist :: whitelist_doc where
  "demo_whitelist = \<lparr>wd_version = 3, wd_members = [''alice'']\<rparr>"

definition demo_entry :: service_entry where
  "demo_entry = \<lparr>se_name = ''db'', se_hash = replicate 32 0, se_length = 1\<rparr>"

definition demo_index :: index_doc where
  "demo_index = \<lparr>ix_version = 5, ix_expires_at = 1000, ix_services = [demo_entry]\<rparr>"

definition demo_tbs :: "cose_sign1 \<Rightarrow> bytes \<Rightarrow> bytes" where
  "demo_tbs s aad = replicate (length aad) 1 @ 0 # aad @ signed_content s"

definition demo_envelope :: "bytes \<Rightarrow> cose_sign1" where
  "demo_envelope p = \<lparr>s1_alg = Some EdDSA, s1_payload = Some p, s1_signature = [42], s1_other_headers = []\<rparr>"

definition demo_issued :: "(bytes \<times> bytes) list" where
  "demo_issued =
     [(as_bytes ''/oahd/auth/h/service'', [1]), (as_bytes ''/oahd/auth/h/db'', [2])]"

definition demo_signed :: "bytes list" where
  "demo_signed = map (\<lambda>(aad, p). demo_tbs (demo_envelope p) aad) demo_issued"

definition demo_lib :: auth_lib where
  "demo_lib =
     \<lparr>al_from_slice = (\<lambda>v. if v = [11] then Some (demo_envelope [1])
                         else if v = [12] then Some (demo_envelope [2]) else None),
      al_to_vec = (\<lambda>s. if s = demo_envelope [1] then Some [11]
                     else if s = demo_envelope [2] then Some [12] else None),
      al_tbs = demo_tbs,
      al_verify = (\<lambda>pk data sig. data \<in> set demo_signed \<and> sig = [42]),
      al_sign = (\<lambda>kp data. if data \<in> set demo_signed then Some [42] else None),
      al_public_key = Some,
      al_base64 = (\<lambda>s. Some (as_bytes s)),
      al_base64url = (\<lambda>_. ''h''),
      al_sha256 = (\<lambda>_. replicate 32 0),
      al_index_enc = (\<lambda>d. if d = demo_index then Some [1] else None),
      al_index_dec = (\<lambda>b. if b = [1] then Some demo_index else None),
      al_whitelist_enc = (\<lambda>d. if d = demo_whitelist then Some [2] else None),
      al_whitelist_dec = (\<lambda>b. if b = [2] then Some demo_whitelist else None)\<rparr>"

lemma demo_tbs_inject:
  "demo_tbs s aad = demo_tbs s' aad' \<longleftrightarrow> aad = aad' \<and> signed_content s = signed_content s'"
proof -
  have "replicate m (1::u8) @ 0 # x = replicate n 1 @ 0 # y \<longleftrightarrow> m = n \<and> x = y" for m n x y
  proof (induction m arbitrary: n)
    case 0
    show ?case by (cases n) auto
  next
    case (Suc m)
    show ?case using Suc by (cases n) auto
  qed
  then show ?thesis by (auto simp: demo_tbs_def)
qed

lemma demo_tbs_binds: "tbs_binds demo_lib"
  by (simp add: tbs_binds_def demo_lib_def demo_tbs_inject)

lemma demo_signs_only: "signs_only demo_lib pk (set demo_issued)"
  unfolding signs_only_def
proof (intro allI impI)
  fix data sig assume "al_verify demo_lib pk data sig"
  then obtain aad p where "(aad, p) \<in> set demo_issued" "data = demo_tbs (demo_envelope p) aad"
    by (auto simp: demo_lib_def demo_signed_def)
  then show "\<exists>s aad p. (aad, p) \<in> set demo_issued \<and> s1_payload s = Some p \<and> data = al_tbs demo_lib s aad"
    by (intro exI [of _ "demo_envelope p"] exI [of _ aad] exI [of _ p])
      (simp add: demo_envelope_def demo_lib_def)
qed

lemma demo_codec: "auth_codec_ok demo_lib kp pk"
  by (auto simp: auth_codec_ok_def demo_lib_def demo_tbs_def signed_content_def split: if_splits)

lemma demo_signed_mem:
  "demo_tbs s aad \<in> set demo_signed \<longleftrightarrow> (aad, signed_content s) \<in> set demo_issued"
  by (auto simp: demo_signed_def demo_tbs_inject signed_content_def demo_envelope_def image_iff
      split: option.splits intro!: bexI)

lemmas demo_auth_defs = demo_lib_def demo_net_def demo_entry_def demo_index_def
  demo_whitelist_def demo_envelope_def RESERVED_SERVICE_def AUTH_PREFIX_def index_key_def
  MAX_DOC_BYTES_def DHT_MAX_RECORD_BYTES_def MAX_SERVICES_def MAX_MEMBERS_def

lemma demo_db_key: "service_key demo_net ''db'' = Ok ''/oahd/auth/h/db''"
  by (simp add: service_key_def is_valid_service_name_def is_valid_network_name_def demo_auth_defs
      is_ascii_alphanumeric_def less_eq_char_def)

lemma demo_issued_mem:
  "(aad, p) \<in> set demo_issued \<longleftrightarrow>
     aad = as_bytes ''/oahd/auth/h/service'' \<and> p = [1] \<or> aad = as_bytes ''/oahd/auth/h/db'' \<and> p = [2]"
  by (auto simp: demo_issued_def)

lemma demo_index_key: "index_key demo_net = ''/oahd/auth/h/service''"
  by (simp add: demo_auth_defs)

lemma demo_sign_index: "sign_index demo_lib kp demo_net demo_index = Ok [11]"
  unfolding sign_index_def sign_payload_def sign_ed25519_def demo_index_key Let_def
  by (simp add: demo_lib_def demo_signed_mem demo_issued_mem signed_content_def demo_envelope_def)

lemma demo_sign_whitelist: "sign_whitelist demo_lib kp demo_net ''db'' demo_whitelist = Ok [12]"
  unfolding sign_whitelist_def demo_db_key sign_payload_def sign_ed25519_def Let_def
  by (simp add: demo_lib_def demo_signed_mem demo_issued_mem signed_content_def demo_envelope_def)

lemma demo_verify_index: "now \<le> 1000 \<Longrightarrow> verify_index demo_lib demo_net [11] now = Ok demo_index"
proof -
  have "verify_payload demo_lib (net_authority demo_net) (as_bytes (index_key demo_net)) [11] = Ok [1]"
    unfolding verify_payload_Ok_iff demo_index_key
    by (simp add: demo_lib_def demo_signed_mem demo_issued_mem signed_content_def demo_envelope_def
        MAX_DOC_BYTES_def DHT_MAX_RECORD_BYTES_def)
  moreover have "check_entries (ix_services demo_index) = Ok ()"
    using demo_db_key by (simp add: demo_index_def demo_entry_def service_key_Ok_iff)
  moreover have "al_index_dec demo_lib [1] = Some demo_index" by (simp add: demo_lib_def)
  moreover assume "now \<le> 1000"
  ultimately show ?thesis
    unfolding verify_index_def by (simp add: demo_index_def MAX_SERVICES_def)
qed

lemma demo_verify_whitelist:
  "verify_whitelist demo_lib demo_net ''db'' [12] demo_entry = Ok demo_whitelist"
proof -
  have "verify_payload demo_lib (net_authority demo_net) (as_bytes ''/oahd/auth/h/db'') [12] = Ok [2]"
    unfolding verify_payload_Ok_iff
    by (simp add: demo_lib_def demo_signed_mem demo_issued_mem signed_content_def demo_envelope_def
        MAX_DOC_BYTES_def DHT_MAX_RECORD_BYTES_def)
  moreover have "al_whitelist_dec demo_lib [2] = Some demo_whitelist" by (simp add: demo_lib_def)
  moreover have "content_hash demo_lib [12] = se_hash demo_entry" "se_length demo_entry = 1"
    by (simp_all add: content_hash_def demo_lib_def demo_entry_def)
  ultimately show ?thesis
    unfolding verify_whitelist_def demo_db_key by (simp add: demo_whitelist_def MAX_MEMBERS_def)
qed

theorem no_rollback_witness:
  "check_index 4 (fst (check_index 5 auth_versions_new))
     = (fst (check_index 5 auth_versions_new), Err Rollback)"
  using no_rollback [of 4 5 auth_versions_new "fst (check_index 5 auth_versions_new)" "[]"]
  by (simp add: check_index_def auth_versions_new_def)


theorem verified_index_origin_witness:
  "(\<exists>p. (as_bytes (index_key demo_net), p) \<in> set demo_issued
      \<and> al_index_dec demo_lib p = Some demo_index) \<and> 7 \<le> ix_expires_at demo_index"
  using verified_index_origin [OF demo_tbs_binds demo_signs_only demo_verify_index [of 7]] by simp

theorem sign_verify_index_witness: "verify_index demo_lib demo_net [11] 7 = Ok demo_index"
  by (rule sign_verify_index [OF demo_codec demo_sign_index [of "[]"]])
    (use demo_db_key in \<open>simp_all add: demo_index_def demo_entry_def service_key_Ok_iff
      MAX_DOC_BYTES_def DHT_MAX_RECORD_BYTES_def MAX_SERVICES_def\<close>)

theorem sign_verify_whitelist_witness:
  "verify_whitelist demo_lib demo_net ''db'' [12] demo_entry = Ok demo_whitelist"
  by (rule sign_verify_whitelist [OF demo_codec demo_sign_whitelist [of "[]"]])
    (simp_all add: demo_whitelist_def demo_entry_def content_hash_def demo_lib_def
      MAX_DOC_BYTES_def DHT_MAX_RECORD_BYTES_def MAX_MEMBERS_def)

theorem auth_keys_separate_witness: "''/oahd/auth/h/db'' \<noteq> index_key demo_net"
  using auth_keys_separate [OF _ _ demo_db_key, of demo_net] by (simp add: demo_net_def)

end
