(* ===== verification/NN_Pq.thy ===== *)
theory NN_Pq
  imports NN_Auth
begin

text \<open>
  The post-quantum envelope of service requests (\<open>src/src/network/pq.rs\<close>): the key file of
  \<open>PqKeys\<close>, the signed \<open>PqIdentity\<close>, and \<open>seal_request\<close>, \<open>open_request\<close>, \<open>seal_response\<close> and
  \<open>open_response\<close>.

  The cryptographic crates are the record \<open>pq_lib\<close>; a key, a signature or a KEM ciphertext is the
  byte string its crate exports, and a parser is the predicate that says which byte strings it
  accepts. What \<open>OsRng\<close> draws is an argument. \<open>pq_lib_ok\<close> states the crates' documented behaviour:
  sizes, and that decapsulation, Diffie-Hellman, decryption and verification undo their partners.
  \<open>identities_only\<close> and \<open>requests_only\<close> say that a signature verifies only what its owner signed.

  The lemmas show that a sealed request opens to its plaintext and carries the response back, that
  a signed request was signed by the peer on the connection, that a request is encrypted only to
  keys its recipient signed, that the key file is read back, and which envelopes are refused.
\<close>

section \<open>External libraries\<close>

record pq_lib =
  pl_kem_generate :: "bytes \<Rightarrow> bytes \<times> bytes"
  pl_sig_generate :: "bytes \<Rightarrow> bytes"
  pl_verifying_key :: "bytes \<Rightarrow> bytes"
  pl_dk_ok :: "bytes \<Rightarrow> bool"
  pl_ek_ok :: "bytes \<Rightarrow> bool"
  pl_sk_ok :: "bytes \<Rightarrow> bool"
  pl_vk_ok :: "bytes \<Rightarrow> bool"
  pl_sig_ok :: "bytes \<Rightarrow> bool"
  pl_encapsulate :: "bytes \<Rightarrow> bytes \<Rightarrow> bytes \<times> bytes"
  pl_decapsulate :: "bytes \<Rightarrow> bytes \<Rightarrow> bytes"
  pl_x_public :: "bytes \<Rightarrow> bytes"
  pl_diffie_hellman :: "bytes \<Rightarrow> bytes \<Rightarrow> bytes"
  pl_hkdf :: "bytes \<Rightarrow> bytes \<Rightarrow> bytes"
  pl_encrypt :: "bytes \<Rightarrow> bytes \<Rightarrow> bytes \<Rightarrow> bytes option"
  pl_decrypt :: "bytes \<Rightarrow> bytes \<Rightarrow> bytes \<Rightarrow> bytes option"
  pl_dsa_sign :: "bytes \<Rightarrow> bytes \<Rightarrow> bytes"
  pl_dsa_verify :: "bytes \<Rightarrow> bytes \<Rightarrow> bytes \<Rightarrow> bool"
  pl_ed_sign :: "keypair \<Rightarrow> bytes \<Rightarrow> bytes option"
  pl_ed_public :: "keypair \<Rightarrow> bytes option"
  pl_ed_key_ok :: "bytes \<Rightarrow> bool"
  pl_ed_peer_id :: "bytes \<Rightarrow> peer_id"
  pl_ed_verify :: "bytes \<Rightarrow> bytes \<Rightarrow> bytes \<Rightarrow> bool"

section \<open>Constants and errors\<close>

definition ENVELOPE_VERSION :: u8 where
  "ENVELOPE_VERSION = 1"

definition REQ_INFO :: bytes where
  "REQ_INFO = as_bytes ''oahd/pq/req/v1''"

definition RES_INFO :: bytes where
  "RES_INFO = as_bytes ''oahd/pq/res/v1''"

definition SERVICE_REQ_PQ_PROTOCOL :: string where
  "SERVICE_REQ_PQ_PROTOCOL = ''/oahd/service_req/2.0.0''"

definition PQ_IDENTITY_PROTOCOL :: string where
  "PQ_IDENTITY_PROTOCOL = ''/oahd/pq_identity/1.0.0''"

definition NONCE_LEN :: nat where
  "NONCE_LEN = 12"

definition MAX_CIPHERTEXT :: nat where
  "MAX_CIPHERTEXT = 2 ^ 20"

definition MLKEM_CT_LEN :: nat where
  "MLKEM_CT_LEN = 1088"

definition MLKEM_EK_LEN :: nat where
  "MLKEM_EK_LEN = 1184"

definition MLKEM_DK_LEN :: nat where
  "MLKEM_DK_LEN = 2400"

definition MLDSA_VK_LEN :: nat where
  "MLDSA_VK_LEN = 1952"

definition MLDSA_SK_LEN :: nat where
  "MLDSA_SK_LEN = 4032"

definition X25519_LEN :: nat where
  "X25519_LEN = 32"

lemmas pq_sizes = NONCE_LEN_def MAX_CIPHERTEXT_def MLKEM_CT_LEN_def MLKEM_EK_LEN_def
  MLKEM_DK_LEN_def MLDSA_VK_LEN_def MLDSA_SK_LEN_def X25519_LEN_def

datatype pq_error = InvalidIdentity | InvalidKey | InvalidEnvelope | CryptoFailure

fun pq_error_display :: "pq_error \<Rightarrow> string" where
  "pq_error_display InvalidIdentity = ''pq identity proof invalid''"
| "pq_error_display InvalidKey = ''pq key material invalid''"
| "pq_error_display InvalidEnvelope = ''pq envelope malformed''"
| "pq_error_display CryptoFailure = ''pq crypto failure''"

section \<open>Length-prefixed fields\<close>

definition slice_get :: "'a list \<Rightarrow> nat \<Rightarrow> nat \<Rightarrow> 'a list option" where
  "slice_get buf i j = (if i \<le> j \<and> j \<le> length buf then Some (take (j - i) (drop i buf)) else None)"

definition push_field :: "bytes \<Rightarrow> bytes \<Rightarrow> bytes" where
  "push_field out field = out @ to_be_bytes (of_nat (length field)) @ field"

record pq_reader =
  rd_buf :: bytes
  rd_pos :: nat

definition reader_new :: "bytes \<Rightarrow> pq_reader" where
  "reader_new buf = \<lparr>rd_buf = buf, rd_pos = 0\<rparr>"

definition reader_u8 :: "pq_reader \<Rightarrow> (u8 \<times> pq_reader, pq_error) result" where
  "reader_u8 r =
     (if rd_pos r < length (rd_buf r)
      then Ok (rd_buf r ! rd_pos r, r\<lparr>rd_pos := rd_pos r + 1\<rparr>)
      else Err InvalidKey)"

definition reader_field :: "pq_reader \<Rightarrow> (bytes \<times> pq_reader, pq_error) result" where
  "reader_field r =
     (let end' = rd_pos r + 4 in
      rbind (ok_or InvalidKey (slice_get (rd_buf r) (rd_pos r) end')) (\<lambda>len_bytes.
      let l = unat (from_be_bytes len_bytes) in
      rbind (ok_or InvalidKey (slice_get (rd_buf r) end' (end' + l))) (\<lambda>field.
      Ok (field, r\<lparr>rd_pos := end' + l\<rparr>))))"

section \<open>Keys\<close>

record pq_keys =
  pk_kem_dk :: bytes
  pk_kem_ek :: bytes
  pk_x_secret :: bytes
  pk_sig_sk :: bytes
  pk_sig_vk :: bytes

record pq_identity =
  pi_ed25519_pub :: bytes
  pi_kem_pub :: bytes
  pi_x25519_pub :: bytes
  pi_sig_pub :: bytes
  pi_proof :: bytes

definition pq_generate :: "pq_lib \<Rightarrow> bytes \<Rightarrow> bytes \<Rightarrow> bytes \<Rightarrow> pq_keys" where
  "pq_generate lib kem_seed sig_seed x_seed =
     (let (kem_dk, kem_ek) = pl_kem_generate lib kem_seed;
          sig_sk = pl_sig_generate lib sig_seed
      in \<lparr>pk_kem_dk = kem_dk, pk_kem_ek = kem_ek, pk_x_secret = x_seed, pk_sig_sk = sig_sk,
          pk_sig_vk = pl_verifying_key lib sig_sk\<rparr>)"

definition keys_to_bytes :: "pq_keys \<Rightarrow> bytes" where
  "keys_to_bytes k =
     (let out = [ENVELOPE_VERSION];
          out = push_field out (pk_kem_dk k);
          out = push_field out (pk_kem_ek k);
          out = push_field out (pk_x_secret k);
          out = push_field out (pk_sig_sk k)
      in push_field out (pk_sig_vk k))"

definition keys_from_bytes :: "pq_lib \<Rightarrow> bytes \<Rightarrow> (pq_keys, pq_error) result" where
  "keys_from_bytes lib bs =
     rbind (reader_u8 (reader_new bs)) (\<lambda>(version, r).
     if version \<noteq> ENVELOPE_VERSION then Err InvalidKey
     else
       rbind (reader_field r) (\<lambda>(kem_dk, r).
       rbind (reader_field r) (\<lambda>(kem_ek, r).
       rbind (reader_field r) (\<lambda>(x, r).
       rbind (reader_field r) (\<lambda>(sig_sk, r).
       rbind (reader_field r) (\<lambda>(sig_vk, r).
       if \<not> pl_dk_ok lib kem_dk then Err InvalidKey
       else if \<not> pl_ek_ok lib kem_ek then Err InvalidKey
       else if length x \<noteq> X25519_LEN then Err InvalidKey
       else if \<not> pl_sk_ok lib sig_sk then Err InvalidKey
       else if \<not> pl_vk_ok lib sig_vk then Err InvalidKey
       else Ok \<lparr>pk_kem_dk = kem_dk, pk_kem_ek = kem_ek, pk_x_secret = x, pk_sig_sk = sig_sk,
                pk_sig_vk = sig_vk\<rparr>))))))"

definition identity_message :: "bytes \<Rightarrow> bytes \<Rightarrow> bytes \<Rightarrow> bytes" where
  "identity_message kem_pub x25519_pub sig_pub =
     as_bytes ''oahd/pq/identity/v1'' @ kem_pub @ x25519_pub @ sig_pub"

definition signed_message :: "bytes \<Rightarrow> bytes \<Rightarrow> bytes \<Rightarrow> bytes" where
  "signed_message kem nonce ciphertext = as_bytes ''oahd/pq/request/v1'' @ kem @ nonce @ ciphertext"

definition pq_identity_of :: "pq_lib \<Rightarrow> pq_keys \<Rightarrow> keypair \<Rightarrow> (pq_identity, pq_error) result" where
  "pq_identity_of lib keys id_keypair =
     (let kem_pub = pk_kem_ek keys;
          x_pub = pl_x_public lib (pk_x_secret keys);
          sig_pub = pk_sig_vk keys
      in
      rbind (ok_or CryptoFailure (pl_ed_sign lib id_keypair (identity_message kem_pub x_pub sig_pub)))
        (\<lambda>proof'.
      rbind (ok_or InvalidIdentity (pl_ed_public lib id_keypair)) (\<lambda>ed_pub.
      Ok \<lparr>pi_ed25519_pub = ed_pub, pi_kem_pub = kem_pub, pi_x25519_pub = x_pub,
          pi_sig_pub = sig_pub, pi_proof = proof'\<rparr>)))"

definition pq_verify :: "pq_lib \<Rightarrow> pq_identity \<Rightarrow> peer_id \<Rightarrow> (unit, pq_error) result" where
  "pq_verify lib i expected =
     (if \<not> pl_ed_key_ok lib (pi_ed25519_pub i) then Err InvalidIdentity
      else if pl_ed_peer_id lib (pi_ed25519_pub i) \<noteq> expected then Err InvalidIdentity
      else if \<not> pl_ed_verify lib (pi_ed25519_pub i)
                  (identity_message (pi_kem_pub i) (pi_x25519_pub i) (pi_sig_pub i)) (pi_proof i)
      then Err InvalidIdentity
      else Ok ())"

definition identity_kem_ek :: "pq_lib \<Rightarrow> pq_identity \<Rightarrow> (bytes, pq_error) result" where
  "identity_kem_ek lib i = (if pl_ek_ok lib (pi_kem_pub i) then Ok (pi_kem_pub i) else Err InvalidKey)"

definition identity_x_pub :: "pq_identity \<Rightarrow> (bytes, pq_error) result" where
  "identity_x_pub i =
     (if length (pi_x25519_pub i) = X25519_LEN then Ok (pi_x25519_pub i) else Err InvalidKey)"

definition identity_sig_vk :: "pq_lib \<Rightarrow> pq_identity \<Rightarrow> (bytes, pq_error) result" where
  "identity_sig_vk lib i = (if pl_vk_ok lib (pi_sig_pub i) then Ok (pi_sig_pub i) else Err InvalidKey)"

section \<open>Envelopes\<close>

record pq_request =
  pr_version :: u8
  pr_kem :: bytes
  pr_nonce :: bytes
  pr_ciphertext :: bytes
  pr_identity :: "pq_identity option"
  pr_signature :: "bytes option"

record pq_response =
  ps_nonce :: bytes
  ps_ciphertext :: bytes

record pq_outbound =
  po_request :: pq_request
  po_res_key :: bytes

record pq_inbound =
  pn_plaintext :: bytes
  pn_res_key :: bytes

definition combine :: "pq_lib \<Rightarrow> bytes \<Rightarrow> bytes \<Rightarrow> bytes" where
  "combine lib kem_ss x_ss = pl_hkdf lib (kem_ss @ x_ss) (as_bytes ''oahd/pq/combine/v1'')"

definition derive :: "pq_lib \<Rightarrow> bytes \<Rightarrow> bytes \<Rightarrow> bytes" where
  "derive lib shared info = pl_hkdf lib shared info"

definition aead_seal ::
    "pq_lib \<Rightarrow> bytes \<Rightarrow> bytes \<Rightarrow> bytes \<Rightarrow> (bytes \<times> bytes, pq_error) result" where
  "aead_seal lib nonce key plaintext =
     map_ok (\<lambda>ciphertext. (nonce, ciphertext)) (ok_or CryptoFailure (pl_encrypt lib key nonce plaintext))"

definition aead_open :: "pq_lib \<Rightarrow> bytes \<Rightarrow> bytes \<Rightarrow> bytes \<Rightarrow> (bytes, pq_error) result" where
  "aead_open lib key nonce ciphertext =
     (if length nonce \<noteq> NONCE_LEN \<or> length ciphertext > MAX_CIPHERTEXT then Err InvalidEnvelope
      else ok_or CryptoFailure (pl_decrypt lib key nonce ciphertext))"

definition open_response :: "pq_lib \<Rightarrow> pq_outbound \<Rightarrow> pq_response \<Rightarrow> (bytes, pq_error) result" where
  "open_response lib out response =
     aead_open lib (po_res_key out) (ps_nonce response) (ps_ciphertext response)"

definition seal_response ::
    "pq_lib \<Rightarrow> bytes \<Rightarrow> pq_inbound \<Rightarrow> bytes \<Rightarrow> (pq_response, pq_error) result" where
  "seal_response lib nonce inbound plaintext =
     map_ok (\<lambda>(nonce, ciphertext). \<lparr>ps_nonce = nonce, ps_ciphertext = ciphertext\<rparr>)
       (aead_seal lib nonce (pn_res_key inbound) plaintext)"

text \<open>\<open>pq_rng\<close> holds what one call of \<open>seal_request\<close> draws: the encapsulation coins, the ephemeral
  X25519 secret and the nonce.\<close>

record pq_rng =
  rng_kem :: bytes
  rng_eph :: bytes
  rng_nonce :: bytes

definition seal_request ::
    "pq_lib \<Rightarrow> pq_rng \<Rightarrow> pq_keys \<Rightarrow> pq_identity \<Rightarrow> bytes \<Rightarrow> bool \<Rightarrow> keypair
       \<Rightarrow> (pq_outbound, pq_error) result" where
  "seal_request lib rng keys recipient plaintext sign id_keypair =
     rbind (identity_kem_ek lib recipient) (\<lambda>ek.
     let (kem_ct, kem_ss) = pl_encapsulate lib ek (rng_kem rng);
         eph_pub = pl_x_public lib (rng_eph rng)
     in
     rbind (identity_x_pub recipient) (\<lambda>x_pub.
     let x_ss = pl_diffie_hellman lib (rng_eph rng) x_pub;
         shared = combine lib kem_ss x_ss;
         req_key = derive lib shared REQ_INFO;
         res_key = derive lib shared RES_INFO
     in
     rbind (aead_seal lib (rng_nonce rng) req_key plaintext) (\<lambda>(nonce, ciphertext).
     let kem = kem_ct @ eph_pub in
     rbind
       (if sign then
          rbind (pq_identity_of lib keys id_keypair) (\<lambda>i.
          Ok (Some i, Some (pl_dsa_sign lib (pk_sig_sk keys) (signed_message kem nonce ciphertext))))
        else Ok (None, None)) (\<lambda>(identity, signature).
     Ok \<lparr>po_request = \<lparr>pr_version = ENVELOPE_VERSION, pr_kem = kem, pr_nonce = nonce,
           pr_ciphertext = ciphertext, pr_identity = identity, pr_signature = signature\<rparr>,
         po_res_key = res_key\<rparr>))))"

definition check_sender :: "pq_lib \<Rightarrow> peer_id \<Rightarrow> pq_request \<Rightarrow> (unit, pq_error) result" where
  "check_sender lib expected_sender request =
     (case (pr_identity request, pr_signature request) of
        (Some i, Some sig) \<Rightarrow>
          rbind (pq_verify lib i expected_sender) (\<lambda>_.
          rbind (identity_sig_vk lib i) (\<lambda>vk.
          if \<not> pl_sig_ok lib sig then Err InvalidIdentity
          else if \<not> pl_dsa_verify lib vk
                      (signed_message (pr_kem request) (pr_nonce request) (pr_ciphertext request)) sig
          then Err InvalidIdentity
          else Ok ()))
      | (None, None) \<Rightarrow> Ok ()
      | _ \<Rightarrow> Err InvalidIdentity)"

definition open_request ::
    "pq_lib \<Rightarrow> pq_keys \<Rightarrow> peer_id \<Rightarrow> pq_request \<Rightarrow> (pq_inbound, pq_error) result" where
  "open_request lib keys expected_sender request =
     (if pr_version request \<noteq> ENVELOPE_VERSION
         \<or> length (pr_kem request) \<noteq> MLKEM_CT_LEN + X25519_LEN
         \<or> length (pr_nonce request) \<noteq> NONCE_LEN
         \<or> length (pr_ciphertext request) > MAX_CIPHERTEXT
      then Err InvalidEnvelope
      else
        rbind (check_sender lib expected_sender request) (\<lambda>_.
        let kem_bytes = take MLKEM_CT_LEN (pr_kem request);
            x_bytes = drop MLKEM_CT_LEN (pr_kem request);
            kem_ss = pl_decapsulate lib (pk_kem_dk keys) kem_bytes;
            x_ss = pl_diffie_hellman lib (pk_x_secret keys) x_bytes;
            shared = combine lib kem_ss x_ss;
            req_key = derive lib shared REQ_INFO;
            res_key = derive lib shared RES_INFO
        in
        rbind (aead_open lib req_key (pr_nonce request) (pr_ciphertext request)) (\<lambda>plaintext.
        Ok \<lparr>pn_plaintext = plaintext, pn_res_key = res_key\<rparr>)))"

section \<open>What the crates promise\<close>

text \<open>\<open>keys_paired\<close> holds of generated keys: the public halves belong to the private ones.\<close>

definition keys_paired :: "pq_lib \<Rightarrow> pq_keys \<Rightarrow> bool" where
  "keys_paired lib k \<longleftrightarrow>
     (\<exists>kem_seed. pl_kem_generate lib kem_seed = (pk_kem_dk k, pk_kem_ek k))
     \<and> length (pk_x_secret k) = X25519_LEN
     \<and> (\<exists>sig_seed. pk_sig_sk k = pl_sig_generate lib sig_seed)
     \<and> pk_sig_vk k = pl_verifying_key lib (pk_sig_sk k)"

definition key_sizes_ok :: "pq_lib \<Rightarrow> bool" where
  "key_sizes_ok lib \<longleftrightarrow>
     (\<forall>b. pl_dk_ok lib b \<longrightarrow> length b = MLKEM_DK_LEN)
     \<and> (\<forall>b. pl_ek_ok lib b \<longrightarrow> length b = MLKEM_EK_LEN)
     \<and> (\<forall>b. pl_sk_ok lib b \<longrightarrow> length b \<le> MLDSA_SK_LEN)
     \<and> (\<forall>b. pl_vk_ok lib b \<longrightarrow> length b = MLDSA_VK_LEN)"

definition keygen_ok :: "pq_lib \<Rightarrow> bool" where
  "keygen_ok lib \<longleftrightarrow>
     (\<forall>seed dk ek. pl_kem_generate lib seed = (dk, ek) \<longrightarrow> pl_dk_ok lib dk \<and> pl_ek_ok lib ek)
     \<and> (\<forall>seed. pl_sk_ok lib (pl_sig_generate lib seed)
               \<and> pl_vk_ok lib (pl_verifying_key lib (pl_sig_generate lib seed)))"

definition kem_ok :: "pq_lib \<Rightarrow> bool" where
  "kem_ok lib \<longleftrightarrow>
     (\<forall>seed dk ek coins ct ss. pl_kem_generate lib seed = (dk, ek) \<longrightarrow> pl_encapsulate lib ek coins = (ct, ss)
        \<longrightarrow> length ct = MLKEM_CT_LEN \<and> pl_decapsulate lib dk ct = ss)
     \<and> (\<forall>a. length a = X25519_LEN \<longrightarrow> length (pl_x_public lib a) = X25519_LEN)
     \<and> (\<forall>a b. length a = X25519_LEN \<longrightarrow> length b = X25519_LEN
          \<longrightarrow> pl_diffie_hellman lib a (pl_x_public lib b) = pl_diffie_hellman lib b (pl_x_public lib a))"

definition aead_ok :: "pq_lib \<Rightarrow> bool" where
  "aead_ok lib \<longleftrightarrow>
     (\<forall>key nonce pt. length nonce = NONCE_LEN \<longrightarrow> length pt < 2 ^ 38
        \<longrightarrow> (\<exists>ct. pl_encrypt lib key nonce pt = Some ct))
     \<and> (\<forall>key nonce pt ct. pl_encrypt lib key nonce pt = Some ct
        \<longrightarrow> length ct = length pt + 16 \<and> pl_decrypt lib key nonce ct = Some pt)"

definition signatures_ok :: "pq_lib \<Rightarrow> bool" where
  "signatures_ok lib \<longleftrightarrow>
     (\<forall>seed m. pl_sig_ok lib (pl_dsa_sign lib (pl_sig_generate lib seed) m)
        \<and> pl_dsa_verify lib (pl_verifying_key lib (pl_sig_generate lib seed)) m
            (pl_dsa_sign lib (pl_sig_generate lib seed) m))
     \<and> (\<forall>kp pub m. pl_ed_public lib kp = Some pub
        \<longrightarrow> pl_ed_key_ok lib pub \<and> (\<exists>s. pl_ed_sign lib kp m = Some s \<and> pl_ed_verify lib pub m s))"

definition pq_lib_ok :: "pq_lib \<Rightarrow> bool" where
  "pq_lib_ok lib \<longleftrightarrow>
     key_sizes_ok lib \<and> keygen_ok lib \<and> kem_ok lib \<and> aead_ok lib \<and> signatures_ok lib"

text \<open>A signature verifies only what its owner signed. \<open>identities_only lib pk s ids\<close>: the ED25519
  signature \<open>s\<close> verifies under \<open>pk\<close> only as the proof of an identity recorded in \<open>ids\<close>.
  \<open>requests_only lib vk s sent\<close>: the ML-DSA signature \<open>s\<close> verifies under \<open>vk\<close> only over a request
  recorded in \<open>sent\<close>.\<close>

definition identities_only ::
    "pq_lib \<Rightarrow> bytes \<Rightarrow> bytes \<Rightarrow> (bytes \<times> bytes \<times> bytes \<times> bytes) set \<Rightarrow> bool" where
  "identities_only lib pk s ids \<longleftrightarrow>
     (\<forall>m. pl_ed_verify lib pk m s
        \<longrightarrow> (\<exists>kem x sig. (pk, kem, x, sig) \<in> ids \<and> m = identity_message kem x sig
              \<and> length kem = MLKEM_EK_LEN \<and> length x = X25519_LEN \<and> length sig = MLDSA_VK_LEN))"

definition requests_only ::
    "pq_lib \<Rightarrow> bytes \<Rightarrow> bytes \<Rightarrow> (bytes \<times> bytes \<times> bytes \<times> bytes) set \<Rightarrow> bool" where
  "requests_only lib vk s sent \<longleftrightarrow>
     (\<forall>m. pl_dsa_verify lib vk m s
        \<longrightarrow> (\<exists>kem nonce ct. (vk, kem, nonce, ct) \<in> sent \<and> m = signed_message kem nonce ct
              \<and> length kem = MLKEM_CT_LEN + X25519_LEN \<and> length nonce = NONCE_LEN))"

section \<open>Fields and the key file\<close>

text \<open>\<open>field_at\<close> reads one field off the front of a byte string; the cursor of \<open>pq_reader\<close> does the
  same from its position on.\<close>

definition field_at :: "bytes \<Rightarrow> (bytes \<times> bytes) option" where
  "field_at bs =
     (let l = unat (from_be_bytes (take 4 bs)) in
      if length bs < 4 + l then None else Some (take l (drop 4 bs), drop (4 + l) bs))"

definition reader_rest :: "pq_reader \<Rightarrow> bytes" where
  "reader_rest r = drop (rd_pos r) (rd_buf r)"

lemma field_at_push:
  "length f < 2 ^ 32 \<Longrightarrow> field_at (push_field [] f @ rest) = Some (f, rest)"
  by (simp add: field_at_def push_field_def Let_def unat_of_nat take_bit_nat_eq_self)

interpretation key_fields: length_prefix "push_field []" field_at "\<lambda>f. length f < 2 ^ 32"
  by unfold_locales (rule field_at_push)

lemma push_field_append: "push_field out f = out @ push_field [] f"
  by (simp add: push_field_def)

lemma reader_field_refines:
  assumes "rd_pos r \<le> length (rd_buf r)"
  shows "reader_field r =
     (case field_at (reader_rest r) of
        None \<Rightarrow> Err InvalidKey
      | Some (f, rest) \<Rightarrow> Ok (f, r\<lparr>rd_pos := rd_pos r + 4 + length f\<rparr>))"
  using assms
  by (auto simp: reader_field_def field_at_def reader_rest_def slice_get_def Let_def drop_drop add.commute)

lemma reader_field_Ok:
  assumes "reader_field r = Ok (f, r')" and "rd_pos r \<le> length (rd_buf r)"
  shows "field_at (reader_rest r) = Some (f, reader_rest r')" and "rd_pos r' \<le> length (rd_buf r')"
    and "rd_buf r' = rd_buf r" and "rd_pos r < rd_pos r'"
  using assms by (auto simp: reader_field_def field_at_def reader_rest_def slice_get_def Let_def result_iffs
      ac_simps split: if_splits)

lemma reader_field_some:
  assumes "field_at (reader_rest r) = Some (f, rest)" and "rd_pos r \<le> length (rd_buf r)"
  obtains r' where "reader_field r = Ok (f, r')" "reader_rest r' = rest" "rd_pos r' \<le> length (rd_buf r')"
proof -
  from assms have "reader_field r = Ok (f, r\<lparr>rd_pos := rd_pos r + 4 + length f\<rparr>)"
    by (simp add: reader_field_refines)
  moreover from reader_field_Ok [OF this assms(2)] assms(1)
  have "reader_rest (r\<lparr>rd_pos := rd_pos r + 4 + length f\<rparr>) = rest" by simp
  moreover from reader_field_Ok [OF calculation(1) assms(2)]
  have "rd_pos (r\<lparr>rd_pos := rd_pos r + 4 + length f\<rparr>) \<le> length (rd_buf (r\<lparr>rd_pos := rd_pos r + 4 + length f\<rparr>))"
    by blast
  ultimately show thesis by (rule that)
qed

text \<open>The key file reader, written over the fields of the file.\<close>

definition parse_keys :: "pq_lib \<Rightarrow> bytes list \<Rightarrow> (pq_keys, pq_error) result" where
  "parse_keys lib fs =
     (case fs of
        [dk, ek, x, sk, vk] \<Rightarrow>
          if \<not> pl_dk_ok lib dk then Err InvalidKey
          else if \<not> pl_ek_ok lib ek then Err InvalidKey
          else if length x \<noteq> X25519_LEN then Err InvalidKey
          else if \<not> pl_sk_ok lib sk then Err InvalidKey
          else if \<not> pl_vk_ok lib vk then Err InvalidKey
          else Ok \<lparr>pk_kem_dk = dk, pk_kem_ek = ek, pk_x_secret = x, pk_sig_sk = sk, pk_sig_vk = vk\<rparr>
      | _ \<Rightarrow> Err InvalidKey)"

definition keys_from_fields :: "pq_lib \<Rightarrow> bytes \<Rightarrow> (pq_keys, pq_error) result" where
  "keys_from_fields lib bs =
     (case bs of
        [] \<Rightarrow> Err InvalidKey
      | v # rest \<Rightarrow>
          if v \<noteq> ENVELOPE_VERSION then Err InvalidKey
          else case take_n field_at 5 rest of None \<Rightarrow> Err InvalidKey | Some (fs, _) \<Rightarrow> parse_keys lib fs)"

fun read_fields :: "nat \<Rightarrow> pq_reader \<Rightarrow> (bytes list, pq_error) result" where
  "read_fields 0 r = Ok []"
| "read_fields (Suc n) r =
     rbind (reader_field r) (\<lambda>(f, r). map_ok (Cons f) (read_fields n r))"

lemma read_fields_take_n:
  "rd_pos r \<le> length (rd_buf r) \<Longrightarrow>
   read_fields n r = (case take_n field_at n (reader_rest r) of None \<Rightarrow> Err InvalidKey | Some (fs, _) \<Rightarrow> Ok fs)"
proof (induction n arbitrary: r)
  case (Suc n)
  show ?case
  proof (cases "field_at (reader_rest r)")
    case None
    then show ?thesis using Suc.prems by (simp add: reader_field_refines)
  next
    case (Some p)
    obtain f rest where p: "p = (f, rest)" by (cases p)
    from reader_field_some [OF Some [unfolded p] Suc.prems]
    obtain r' where "reader_field r = Ok (f, r')" "reader_rest r' = rest" "rd_pos r' \<le> length (rd_buf r')" .
    then show ?thesis using Suc.IH [of r'] Some p by (auto split: option.splits)
  qed
qed simp

lemma rbind_assoc: "rbind (rbind r f) g = rbind r (\<lambda>x. rbind (f x) g)"
  by (cases r) simp_all

lemma rbind_map_ok: "rbind (map_ok h r) g = rbind r (\<lambda>x. g (h x))"
  by (cases r) simp_all

lemma keys_from_bytes_read_fields:
  "keys_from_bytes lib bs =
     rbind (reader_u8 (reader_new bs)) (\<lambda>(version, r).
     if version \<noteq> ENVELOPE_VERSION then Err InvalidKey
     else rbind (read_fields 5 r) (parse_keys lib))"
  unfolding keys_from_bytes_def
  by (simp add: numeral_eq_Suc rbind_assoc rbind_map_ok case_prod_unfold parse_keys_def
      cong: if_cong)

lemma keys_from_bytes_fields: "keys_from_bytes lib bs = keys_from_fields lib bs"
proof (cases bs)
  case Nil
  then show ?thesis
    by (simp add: keys_from_bytes_read_fields keys_from_fields_def reader_u8_def reader_new_def)
next
  case (Cons v rest)
  have "read_fields 5 (reader_new bs\<lparr>rd_pos := 1\<rparr>) =
     (case take_n field_at 5 rest of None \<Rightarrow> Err InvalidKey | Some (fs, _) \<Rightarrow> Ok fs)"
    using Cons by (simp add: read_fields_take_n reader_new_def reader_rest_def)
  then show ?thesis using Cons
    by (auto simp: keys_from_bytes_read_fields keys_from_fields_def reader_u8_def reader_new_def
        split: option.splits)
qed

lemma keys_to_bytes_concat:
  "keys_to_bytes k = ENVELOPE_VERSION # concat (map (push_field [])
     [pk_kem_dk k, pk_kem_ek k, pk_x_secret k, pk_sig_sk k, pk_sig_vk k])"
  by (simp add: keys_to_bytes_def Let_def push_field_append [of "_ # _"] push_field_append [of "_ @ _"])

definition keys_valid :: "pq_lib \<Rightarrow> pq_keys \<Rightarrow> bool" where
  "keys_valid lib k \<longleftrightarrow> pl_dk_ok lib (pk_kem_dk k) \<and> pl_ek_ok lib (pk_kem_ek k)
     \<and> length (pk_x_secret k) = X25519_LEN \<and> pl_sk_ok lib (pk_sig_sk k) \<and> pl_vk_ok lib (pk_sig_vk k)"

lemma keys_paired_valid: "keygen_ok lib \<Longrightarrow> keys_paired lib k \<Longrightarrow> keys_valid lib k"
  by (auto simp: keygen_ok_def keys_paired_def keys_valid_def)

lemma keys_from_to_bytes:
  assumes "key_sizes_ok lib" and "keys_valid lib k"
  shows "keys_from_bytes lib (keys_to_bytes k @ trailing) = Ok k"
proof -
  let ?fs = "[pk_kem_dk k, pk_kem_ek k, pk_x_secret k, pk_sig_sk k, pk_sig_vk k]"
  from assms have "length f \<le> MLDSA_SK_LEN" if "f \<in> set ?fs" for f
    using that by (auto simp: keys_valid_def key_sizes_ok_def pq_sizes)
  then have fits: "\<forall>f \<in> set ?fs. length f < 2 ^ 32" by (force simp: pq_sizes)
  have "take_n field_at 5 (concat (map (push_field []) ?fs) @ trailing) = Some (?fs, trailing)"
    using key_fields.take_n_put [OF fits, of trailing] by (simp add: eval_nat_numeral)
  then show ?thesis using assms(2)
    by (simp add: keys_from_bytes_fields keys_from_fields_def keys_to_bytes_concat parse_keys_def keys_valid_def)
qed

lemma keys_from_bytes_valid: "keys_from_bytes lib bs = Ok k \<Longrightarrow> keys_valid lib k"
  by (auto simp: keys_from_bytes_fields keys_from_fields_def parse_keys_def keys_valid_def
      split: list.splits if_splits option.splits prod.splits)

lemma keys_from_bytes_only_InvalidKey: "keys_from_bytes lib bs = Err e \<Longrightarrow> e = InvalidKey"
  by (auto simp: keys_from_bytes_fields keys_from_fields_def parse_keys_def
      split: list.splits if_splits option.splits prod.splits)

section \<open>Envelopes\<close>

text \<open>The keys both ends derive from one request.\<close>

lemma shared_keys_agree:
  assumes "kem_ok lib" and "keys_paired lib k" and "length eph = X25519_LEN"
    and "pl_encapsulate lib (pk_kem_ek k) coins = (ct, ss)"
  shows "length (ct @ pl_x_public lib eph) = MLKEM_CT_LEN + X25519_LEN"
    and "pl_decapsulate lib (pk_kem_dk k) (take MLKEM_CT_LEN (ct @ pl_x_public lib eph)) = ss"
    and "pl_diffie_hellman lib (pk_x_secret k) (drop MLKEM_CT_LEN (ct @ pl_x_public lib eph))
       = pl_diffie_hellman lib eph (pl_x_public lib (pk_x_secret k))"
proof -
  from assms obtain seed where "pl_kem_generate lib seed = (pk_kem_dk k, pk_kem_ek k)"
    by (auto simp: keys_paired_def)
  with assms have ct: "length ct = MLKEM_CT_LEN" "pl_decapsulate lib (pk_kem_dk k) ct = ss"
    by (auto simp: kem_ok_def)
  have "length (pl_x_public lib eph) = X25519_LEN"
    and "pl_diffie_hellman lib (pk_x_secret k) (pl_x_public lib eph)
       = pl_diffie_hellman lib eph (pl_x_public lib (pk_x_secret k))"
    using assms by (auto simp: kem_ok_def keys_paired_def)
  with ct show "length (ct @ pl_x_public lib eph) = MLKEM_CT_LEN + X25519_LEN"
    and "pl_decapsulate lib (pk_kem_dk k) (take MLKEM_CT_LEN (ct @ pl_x_public lib eph)) = ss"
    and "pl_diffie_hellman lib (pk_x_secret k) (drop MLKEM_CT_LEN (ct @ pl_x_public lib eph))
       = pl_diffie_hellman lib eph (pl_x_public lib (pk_x_secret k))"
    by simp_all
qed

lemma aead_round_trip:
  assumes "aead_ok lib" and "length nonce = NONCE_LEN" and "length pt + 16 \<le> MAX_CIPHERTEXT"
  obtains ct where "aead_seal lib nonce key pt = Ok (nonce, ct)" and "length ct \<le> MAX_CIPHERTEXT"
    and "aead_open lib key nonce ct = Ok pt"
proof -
  have "length pt < 2 ^ 38" using assms(3) by (simp add: pq_sizes)
  with assms obtain ct where "pl_encrypt lib key nonce pt = Some ct"
    unfolding aead_ok_def by meson
  with assms that show thesis by (auto simp: aead_ok_def aead_seal_def aead_open_def)
qed

lemma aead_seal_size:
  "aead_ok lib \<Longrightarrow> aead_seal lib nonce key pt = Ok (nonce', ct) \<Longrightarrow> length ct = length pt + 16"
  by (auto simp: aead_seal_def aead_ok_def map_ok_Ok_iff)

lemma response_round_trip:
  assumes "aead_ok lib" and "po_res_key out = pn_res_key inb"
    and "length nonce = NONCE_LEN" and "length resp + 16 \<le> MAX_CIPHERTEXT"
  shows "\<exists>sealed. seal_response lib nonce inb resp = Ok sealed \<and> open_response lib out sealed = Ok resp"
  using aead_round_trip [OF assms(1,3,4), of "pn_res_key inb"] assms(2)
  by (force simp: seal_response_def open_response_def)

lemma pq_identity_of_verifies:
  assumes "signatures_ok lib" and "pl_ed_public lib kp = Some pub"
  obtains i where "pq_identity_of lib keys kp = Ok i" and "pq_verify lib i (pl_ed_peer_id lib pub) = Ok ()"
    and "pi_kem_pub i = pk_kem_ek keys" and "pi_x25519_pub i = pl_x_public lib (pk_x_secret keys)"
    and "pi_sig_pub i = pk_sig_vk keys"
proof -
  let ?m = "identity_message (pk_kem_ek keys) (pl_x_public lib (pk_x_secret keys)) (pk_sig_vk keys)"
  from assms obtain s where "pl_ed_sign lib kp ?m = Some s" "pl_ed_verify lib pub ?m s" "pl_ed_key_ok lib pub"
    by (meson signatures_ok_def)
  with assms(2) show thesis
    by (intro that [of "\<lparr>pi_ed25519_pub = pub, pi_kem_pub = pk_kem_ek keys,
        pi_x25519_pub = pl_x_public lib (pk_x_secret keys), pi_sig_pub = pk_sig_vk keys, pi_proof = s\<rparr>"])
      (simp_all add: pq_identity_of_def pq_verify_def Let_def)
qed

lemma signed_sender_checks:
  assumes "signatures_ok lib" and "keygen_ok lib" and "keys_paired lib keys"
    and "pq_verify lib i peer = Ok ()" and "pi_sig_pub i = pk_sig_vk keys"
    and "pr_identity req = Some i"
    and "pr_signature req = Some (pl_dsa_sign lib (pk_sig_sk keys)
           (signed_message (pr_kem req) (pr_nonce req) (pr_ciphertext req)))"
  shows "check_sender lib peer req = Ok ()"
  using assms by (auto simp: check_sender_def identity_sig_vk_def keys_paired_def keygen_ok_def signatures_ok_def)

text \<open>What \<open>seal_request\<close> returns: the fields of the envelope, and the response key.\<close>

lemma seal_request_OkD:
  assumes "seal_request lib rng keys recipient pt sign kp = Ok out"
  obtains ct ss where "pl_ek_ok lib (pi_kem_pub recipient)"
    and "length (pi_x25519_pub recipient) = X25519_LEN"
    and "pl_encapsulate lib (pi_kem_pub recipient) (rng_kem rng) = (ct, ss)"
    and "pr_kem (po_request out) = ct @ pl_x_public lib (rng_eph rng)"
    and "aead_seal lib (rng_nonce rng)
           (derive lib (combine lib ss (pl_diffie_hellman lib (rng_eph rng) (pi_x25519_pub recipient))) REQ_INFO) pt
         = Ok (pr_nonce (po_request out), pr_ciphertext (po_request out))"
    and "po_res_key out =
           derive lib (combine lib ss (pl_diffie_hellman lib (rng_eph rng) (pi_x25519_pub recipient))) RES_INFO"
proof -
  obtain ct ss where "pl_encapsulate lib (pi_kem_pub recipient) (rng_kem rng) = (ct, ss)" by fastforce
  with assms show thesis
    by (intro that [of ct ss]) (auto simp: seal_request_def result_iffs Let_def identity_kem_ek_def
        identity_x_pub_def split: if_splits)
qed

lemma identity_message_suffix:
  assumes "identity_message kem x sig = identity_message kem' x' sig'" and "length sig = length sig'"
  shows "sig = sig'"
  using assms by (simp add: identity_message_def append_eq_append_conv flip: append_assoc)

lemma identity_message_prefix:
  assumes "identity_message kem x sig = identity_message kem' x' sig'"
    and "length kem = length kem'" and "length x = length x'"
  shows "kem = kem' \<and> x = x' \<and> sig = sig'"
  using assms by (simp add: identity_message_def)

lemma signed_message_inject:
  assumes "signed_message kem nonce ct = signed_message kem' nonce' ct'"
    and "length kem = length kem'" and "length nonce = length nonce'"
  shows "kem = kem' \<and> nonce = nonce' \<and> ct = ct'"
  using assms by (simp add: signed_message_def)

lemma pq_verify_Ok_iff:
  "pq_verify lib i peer = Ok () \<longleftrightarrow>
     pl_ed_key_ok lib (pi_ed25519_pub i) \<and> pl_ed_peer_id lib (pi_ed25519_pub i) = peer
     \<and> pl_ed_verify lib (pi_ed25519_pub i)
         (identity_message (pi_kem_pub i) (pi_x25519_pub i) (pi_sig_pub i)) (pi_proof i)"
  by (simp add: pq_verify_def)

lemma open_request_OkD:
  assumes "open_request lib keys peer req = Ok inb"
  shows "length (pr_kem req) = MLKEM_CT_LEN + X25519_LEN" and "length (pr_nonce req) = NONCE_LEN"
    and "length (pr_ciphertext req) \<le> MAX_CIPHERTEXT" and "check_sender lib peer req = Ok ()"
  using assms by (auto simp: open_request_def result_iffs Let_def split: if_splits)

lemma check_sender_signed:
  assumes "check_sender lib peer req = Ok ()" and "pr_identity req = Some i"
  obtains s where "pr_signature req = Some s" and "pq_verify lib i peer = Ok ()"
    and "pl_vk_ok lib (pi_sig_pub i)"
    and "pl_dsa_verify lib (pi_sig_pub i) (signed_message (pr_kem req) (pr_nonce req) (pr_ciphertext req)) s"
  using assms by (auto simp: check_sender_def result_iffs identity_sig_vk_def split: option.splits if_splits)

section \<open>The properties of the envelope\<close>

lemma sealed_call_round_trip:
  assumes "pq_lib_ok lib" and "keys_paired lib rkeys" and "keys_paired lib keys"
    and "pq_identity_of lib rkeys rkp = Ok recipient"
    and "pl_ed_public lib kp = Some pub" and "sign \<longrightarrow> sender = pl_ed_peer_id lib pub"
    and "length (rng_eph rng) = X25519_LEN" and "length (rng_nonce rng) = NONCE_LEN"
    and "length pt + 16 \<le> MAX_CIPHERTEXT"
  shows "\<exists>out inb. seal_request lib rng keys recipient pt sign kp = Ok out
     \<and> open_request lib rkeys sender (po_request out) = Ok inb \<and> pn_plaintext inb = pt
     \<and> (\<forall>nonce resp. length nonce = NONCE_LEN \<and> length resp + 16 \<le> MAX_CIPHERTEXT
          \<longrightarrow> (\<exists>sealed. seal_response lib nonce inb resp = Ok sealed \<and> open_response lib out sealed = Ok resp))"
proof -
  have lib: "kem_ok lib" "aead_ok lib" "signatures_ok lib" "keygen_ok lib"
    using assms(1) by (auto simp: pq_lib_ok_def)
  have rec: "pi_kem_pub recipient = pk_kem_ek rkeys"
    "pi_x25519_pub recipient = pl_x_public lib (pk_x_secret rkeys)"
    using assms(4) by (auto simp: pq_identity_of_def result_iffs Let_def)
  obtain ct ss where enc: "pl_encapsulate lib (pk_kem_ek rkeys) (rng_kem rng) = (ct, ss)" by fastforce
  note shared = shared_keys_agree [OF lib(1) assms(2,7) enc]
  define key where "key = combine lib ss (pl_diffie_hellman lib (rng_eph rng) (pl_x_public lib (pk_x_secret rkeys)))"
  obtain c where c: "aead_seal lib (rng_nonce rng) (derive lib key REQ_INFO) pt = Ok (rng_nonce rng, c)"
    "length c \<le> MAX_CIPHERTEXT" "aead_open lib (derive lib key REQ_INFO) (rng_nonce rng) c = Ok pt"
    using aead_round_trip [OF lib(2) assms(8,9)] by metis
  obtain i where i: "pq_identity_of lib keys kp = Ok i" "pq_verify lib i (pl_ed_peer_id lib pub) = Ok ()"
    "pi_sig_pub i = pk_sig_vk keys"
    using pq_identity_of_verifies [OF lib(3) assms(5)] by metis
  define kem where "kem = ct @ pl_x_public lib (rng_eph rng)"
  define req where "req = \<lparr>pr_version = ENVELOPE_VERSION, pr_kem = kem, pr_nonce = rng_nonce rng,
     pr_ciphertext = c, pr_identity = (if sign then Some i else None),
     pr_signature = (if sign then Some (pl_dsa_sign lib (pk_sig_sk keys) (signed_message kem (rng_nonce rng) c))
                     else None)\<rparr>"
  have ek: "pl_ek_ok lib (pk_kem_ek rkeys)" "length (pl_x_public lib (pk_x_secret rkeys)) = X25519_LEN"
    using lib assms(2) by (auto simp: keygen_ok_def keys_paired_def kem_ok_def)
  have sealed: "seal_request lib rng keys recipient pt sign kp
      = Ok \<lparr>po_request = req, po_res_key = derive lib key RES_INFO\<rparr>"
    using ek enc c(1) i(1)
    by (simp add: seal_request_def identity_kem_ek_def identity_x_pub_def rec Let_def req_def kem_def
        flip: key_def)
  have "check_sender lib sender req = Ok ()"
  proof (cases sign)
    case True
    then show ?thesis
      using signed_sender_checks [OF lib(3,4) assms(3) i(2,3), of req] assms(6) by (simp add: req_def)
  qed (simp add: req_def check_sender_def)
  then have opened: "open_request lib rkeys sender req
      = Ok \<lparr>pn_plaintext = pt, pn_res_key = derive lib key RES_INFO\<rparr>"
    using shared c(2,3) assms(8)
    by (simp add: open_request_def req_def kem_def Let_def flip: key_def)
  show ?thesis
    using sealed opened response_round_trip [OF lib(2)] by auto
qed

text \<open>A request sealed to the identity of a node opens there to the plaintext that was sealed, and the
  response that node seals opens at the requester to the response. The sender is the peer of the
  requester's key when the request is signed and any peer otherwise.\<close>
theorem pq_request_response_round_trip:
  assumes "pq_lib_ok lib" and "keys_paired lib rkeys" and "keys_paired lib keys"
    and "pq_identity_of lib rkeys rkp = Ok recipient"
    and "pl_ed_public lib kp = Some pub" and "sign \<longrightarrow> sender = pl_ed_peer_id lib pub"
    and "length (rng_eph rng) = X25519_LEN" and "length (rng_nonce rng) = NONCE_LEN"
    and "length pt + 16 \<le> MAX_CIPHERTEXT"
  shows "\<exists>out inb. seal_request lib rng keys recipient pt sign kp = Ok out
     \<and> open_request lib rkeys sender (po_request out) = Ok inb \<and> pn_plaintext inb = pt
     \<and> (\<forall>nonce resp. length nonce = NONCE_LEN \<and> length resp + 16 \<le> MAX_CIPHERTEXT
          \<longrightarrow> (\<exists>sealed. seal_response lib nonce inb resp = Ok sealed \<and> open_response lib out sealed = Ok resp))"
  using assms by (rule sealed_call_round_trip)

text \<open>A request that carries an identity and opens was signed by the peer at the other end of the
  connection: that peer's ED25519 key signed an identity with the verifying key, and the owner of the
  verifying key signed exactly this KEM ciphertext, nonce and ciphertext (C27).\<close>
theorem pq_sender_authentic:
  assumes "open_request lib keys peer req = Ok inb" and "pr_identity req = Some i"
    and "key_sizes_ok lib"
    and "identities_only lib (pi_ed25519_pub i) (pi_proof i) ids"
    and "requests_only lib (pi_sig_pub i) (the (pr_signature req)) sent"
  shows "(\<exists>kem x. (pi_ed25519_pub i, kem, x, pi_sig_pub i) \<in> ids)
     \<and> pl_ed_peer_id lib (pi_ed25519_pub i) = peer
     \<and> (pi_sig_pub i, pr_kem req, pr_nonce req, pr_ciphertext req) \<in> sent"
proof -
  note req = open_request_OkD [OF assms(1)]
  from check_sender_signed [OF req(4) assms(2)] obtain s where s: "pr_signature req = Some s"
    "pq_verify lib i peer = Ok ()" "pl_vk_ok lib (pi_sig_pub i)"
    "pl_dsa_verify lib (pi_sig_pub i) (signed_message (pr_kem req) (pr_nonce req) (pr_ciphertext req)) s" .
  from s(2) assms(4) obtain kem x sig where ids: "(pi_ed25519_pub i, kem, x, sig) \<in> ids"
    "identity_message (pi_kem_pub i) (pi_x25519_pub i) (pi_sig_pub i) = identity_message kem x sig"
    "length sig = MLDSA_VK_LEN"
    unfolding identities_only_def pq_verify_Ok_iff by blast
  have "length (pi_sig_pub i) = MLDSA_VK_LEN" using assms(3) s(3) by (simp add: key_sizes_ok_def)
  with identity_message_suffix [OF ids(2)] ids(1,3) have "(pi_ed25519_pub i, kem, x, pi_sig_pub i) \<in> ids"
    by simp
  moreover from s(1,4) assms(5) obtain kem nonce ct where sent: "(pi_sig_pub i, kem, nonce, ct) \<in> sent"
    "signed_message (pr_kem req) (pr_nonce req) (pr_ciphertext req) = signed_message kem nonce ct"
    "length kem = MLKEM_CT_LEN + X25519_LEN" "length nonce = NONCE_LEN"
    unfolding requests_only_def by fastforce
  with signed_message_inject [OF sent(2)] req(1,2)
  have "(pi_sig_pub i, pr_kem req, pr_nonce req, pr_ciphertext req) \<in> sent" by simp
  ultimately show ?thesis using s(2) by (auto simp: pq_verify_Ok_iff)
qed

text \<open>A request to a verified identity is encrypted only to keys that the peer itself signed: the two
  public keys used by \<open>seal_request\<close> are those of one identity the peer's ED25519 key signed, although
  the identity message does not delimit its fields.\<close>
theorem pq_sealed_to_signed_keys:
  assumes "pq_verify lib recipient peer = Ok ()"
    and "seal_request lib rng keys recipient pt sign kp = Ok out"
    and "key_sizes_ok lib"
    and "identities_only lib (pi_ed25519_pub recipient) (pi_proof recipient) ids"
  shows "\<exists>kem x sig. (pi_ed25519_pub recipient, kem, x, sig) \<in> ids
     \<and> pl_ed_peer_id lib (pi_ed25519_pub recipient) = peer
     \<and> pr_kem (po_request out) = fst (pl_encapsulate lib kem (rng_kem rng)) @ pl_x_public lib (rng_eph rng)
     \<and> po_res_key out = derive lib (combine lib (snd (pl_encapsulate lib kem (rng_kem rng)))
         (pl_diffie_hellman lib (rng_eph rng) x)) RES_INFO"
proof -
  from assms(1,4) obtain kem x sig where ids: "(pi_ed25519_pub recipient, kem, x, sig) \<in> ids"
    "identity_message (pi_kem_pub recipient) (pi_x25519_pub recipient) (pi_sig_pub recipient)
       = identity_message kem x sig" "length kem = MLKEM_EK_LEN" "length x = X25519_LEN"
    unfolding identities_only_def pq_verify_Ok_iff by blast
  from assms(2) obtain ct ss where sealed: "pl_ek_ok lib (pi_kem_pub recipient)"
    "length (pi_x25519_pub recipient) = X25519_LEN"
    "pl_encapsulate lib (pi_kem_pub recipient) (rng_kem rng) = (ct, ss)"
    "pr_kem (po_request out) = ct @ pl_x_public lib (rng_eph rng)"
    "po_res_key out =
       derive lib (combine lib ss (pl_diffie_hellman lib (rng_eph rng) (pi_x25519_pub recipient))) RES_INFO"
    by (rule seal_request_OkD)
  have "pi_kem_pub recipient = kem \<and> pi_x25519_pub recipient = x"
    using identity_message_prefix [OF ids(2)] ids(3,4) sealed(1,2) assms(3) by (simp add: key_sizes_ok_def)
  with ids(1) sealed(3-5) assms(1) show ?thesis
    by (intro exI [of _ kem] exI [of _ x] exI [of _ sig]) (auto simp: pq_verify_Ok_iff)
qed

text \<open>The key file is read back: what \<open>to_bytes\<close> writes for generated keys, \<open>from_bytes\<close> restores,
  also when bytes follow it.\<close>
theorem pq_key_file_round_trip:
  assumes "pq_lib_ok lib" and "length x_seed = X25519_LEN"
  shows "keys_from_bytes lib (keys_to_bytes (pq_generate lib kem_seed sig_seed x_seed) @ trailing)
     = Ok (pq_generate lib kem_seed sig_seed x_seed)"
proof -
  have "keys_paired lib (pq_generate lib kem_seed sig_seed x_seed)"
    using assms(2) by (auto simp: keys_paired_def pq_generate_def Let_def split: prod.splits)
  then show ?thesis
    using assms(1) keys_from_to_bytes keys_paired_valid by (auto simp: pq_lib_ok_def)
qed

text \<open>Every byte string read as a key file gives keys whose five fields their parsers accept, with an
  X25519 secret of 32 bytes, or the error \<open>InvalidKey\<close>; no length field can make the reader leave the
  buffer (C28).\<close>
theorem pq_key_file_typed:
  "case keys_from_bytes lib bs of
     Ok k \<Rightarrow> keys_valid lib k \<and> length bs \<ge> 21 + length (pk_kem_dk k) + length (pk_kem_ek k)
       + length (pk_x_secret k) + length (pk_sig_sk k) + length (pk_sig_vk k)
   | Err e \<Rightarrow> e = InvalidKey"
proof (cases "keys_from_bytes lib bs")
  case (Ok k)
  have grow: "length (concat fs) + 4 * n \<le> length src"
    if "take_n field_at n src = Some (fs, rest)" for n src fs rest
    using that
    by (induction n arbitrary: src fs)
      (fastforce simp: field_at_def Let_def split: option.splits if_splits prod.splits)+
  from Ok obtain v src fs rest where "bs = v # src" "take_n field_at 5 src = Some (fs, rest)"
    "parse_keys lib fs = Ok k"
    by (auto simp: keys_from_bytes_fields keys_from_fields_def split: list.splits if_splits option.splits)
  with grow [OF this(2)] Ok keys_from_bytes_valid [OF Ok] show ?thesis
    by (auto simp: parse_keys_def split: list.splits if_splits)
next
  case (Err e)
  then show ?thesis by (simp add: keys_from_bytes_only_InvalidKey)
qed


section \<open>An instance of the crates\<close>

text \<open>Toy primitives with the sizes of the real ones: a signature is the message, Diffie-Hellman adds
  byte by byte, the KEM ciphertext carries the coins and the AEAD appends a tag of sixteen zeros.\<close>

definition demo_pq :: pq_lib where
  "demo_pq =
     \<lparr>pl_kem_generate = (\<lambda>_. (replicate MLKEM_DK_LEN 1, replicate MLKEM_EK_LEN 2)),
      pl_sig_generate = (\<lambda>_. replicate 32 3),
      pl_verifying_key = (\<lambda>_. replicate MLDSA_VK_LEN 4),
      pl_dk_ok = (\<lambda>b. length b = MLKEM_DK_LEN),
      pl_ek_ok = (\<lambda>b. length b = MLKEM_EK_LEN),
      pl_sk_ok = (\<lambda>b. length b = 32),
      pl_vk_ok = (\<lambda>b. length b = MLDSA_VK_LEN),
      pl_sig_ok = (\<lambda>_. True),
      pl_encapsulate = (\<lambda>ek coins.
        let ct = take MLKEM_CT_LEN (coins @ replicate MLKEM_CT_LEN 0) in (ct, take 32 ct)),
      pl_decapsulate = (\<lambda>dk ct. take 32 ct),
      pl_x_public = (\<lambda>a. a),
      pl_diffie_hellman = (\<lambda>a b. map2 (+) a b),
      pl_hkdf = (\<lambda>ikm info. info @ ikm),
      pl_encrypt = (\<lambda>key nonce pt. Some (pt @ replicate 16 0)),
      pl_decrypt = (\<lambda>key nonce ct. Some (take (length ct - 16) ct)),
      pl_dsa_sign = (\<lambda>sk m. m),
      pl_dsa_verify = (\<lambda>vk m s. s = m),
      pl_ed_sign = (\<lambda>kp m. Some m),
      pl_ed_public = (\<lambda>kp. Some kp),
      pl_ed_key_ok = (\<lambda>_. True),
      pl_ed_peer_id = (\<lambda>pk. 0 # pk),
      pl_ed_verify = (\<lambda>pk m s. s = m)\<rparr>"

lemma map2_add_commute: "map2 (+) xs ys = map2 (+) ys (xs :: u8 list)"
  by (induction xs ys rule: list_induct2') (simp_all add: add.commute)

lemma demo_pq_ok: "pq_lib_ok demo_pq"
  by (auto simp: pq_lib_ok_def key_sizes_ok_def keygen_ok_def kem_ok_def aead_ok_def signatures_ok_def
      demo_pq_def Let_def MLDSA_SK_LEN_def map2_add_commute)

definition demo_pq_keys :: pq_keys where
  "demo_pq_keys = pq_generate demo_pq [] [] (replicate X25519_LEN 7)"

definition demo_rng :: pq_rng where
  "demo_rng = \<lparr>rng_kem = replicate 32 5, rng_eph = replicate X25519_LEN 6, rng_nonce = replicate NONCE_LEN 0\<rparr>"

definition demo_identity :: pq_identity where
  "demo_identity = \<lparr>pi_ed25519_pub = [9], pi_kem_pub = replicate MLKEM_EK_LEN 2,
     pi_x25519_pub = replicate X25519_LEN 7, pi_sig_pub = replicate MLDSA_VK_LEN 4,
     pi_proof = identity_message (replicate MLKEM_EK_LEN 2) (replicate X25519_LEN 7) (replicate MLDSA_VK_LEN 4)\<rparr>"

lemma demo_keys_paired: "keys_paired demo_pq demo_pq_keys"
  by (auto simp: keys_paired_def demo_pq_keys_def pq_generate_def demo_pq_def)

lemma demo_identity_of: "pq_identity_of demo_pq demo_pq_keys [9] = Ok demo_identity"
  by (simp add: pq_identity_of_def demo_pq_keys_def pq_generate_def demo_pq_def demo_identity_def Let_def)

lemma demo_identity_verifies: "pq_verify demo_pq demo_identity [0, 9] = Ok ()"
  by (simp add: pq_verify_def demo_pq_def demo_identity_def)

definition demo_ids :: "(bytes \<times> bytes \<times> bytes \<times> bytes) list" where
  "demo_ids = [([9], replicate MLKEM_EK_LEN 2, replicate X25519_LEN 7, replicate MLDSA_VK_LEN 4)]"

lemma demo_identities_only:
  "identities_only demo_pq (pi_ed25519_pub demo_identity) (pi_proof demo_identity) (set demo_ids)"
  by (auto simp: identities_only_def demo_pq_def demo_identity_def demo_ids_def)

definition demo_kem :: bytes where
  "demo_kem = take MLKEM_CT_LEN (replicate 32 5 @ replicate MLKEM_CT_LEN 0) @ replicate X25519_LEN 6"

definition demo_envelope_for :: "bytes \<Rightarrow> pq_request" where
  "demo_envelope_for pt = \<lparr>pr_version = ENVELOPE_VERSION, pr_kem = demo_kem, pr_nonce = replicate NONCE_LEN 0,
     pr_ciphertext = pt @ replicate 16 0, pr_identity = Some demo_identity,
     pr_signature = Some (signed_message demo_kem (replicate NONCE_LEN 0) (pt @ replicate 16 0))\<rparr>"

definition demo_res_key :: bytes where
  "demo_res_key = derive demo_pq (combine demo_pq (take 32 (take MLKEM_CT_LEN (replicate 32 5 @ replicate MLKEM_CT_LEN 0)))
     (map2 (+) (replicate X25519_LEN 6) (replicate X25519_LEN 7))) RES_INFO"

lemma demo_seal_request:
  "seal_request demo_pq demo_rng demo_pq_keys demo_identity pt True [9]
     = Ok \<lparr>po_request = demo_envelope_for pt, po_res_key = demo_res_key\<rparr>"
  by (simp add: seal_request_def demo_identity_of demo_rng_def identity_kem_ek_def identity_x_pub_def
      aead_seal_def demo_envelope_for_def demo_res_key_def demo_kem_def Let_def)
    (simp add: demo_pq_def demo_identity_def Let_def derive_def combine_def min.commute)

lemma demo_open_request:
  "open_request demo_pq demo_pq_keys [0, 9] (demo_envelope_for [1, 2, 3])
     = Ok \<lparr>pn_plaintext = [1, 2, 3], pn_res_key = demo_res_key\<rparr>"
proof -
  have "check_sender demo_pq [0, 9] (demo_envelope_for [1, 2, 3]) = Ok ()"
    using demo_identity_verifies
    by (simp add: check_sender_def demo_envelope_for_def identity_sig_vk_def)
      (simp add: demo_pq_def demo_identity_def)
  then show ?thesis
    by (simp add: open_request_def demo_envelope_for_def demo_kem_def demo_pq_keys_def pq_generate_def
        demo_pq_def Let_def aead_open_def demo_res_key_def derive_def combine_def map2_add_commute pq_sizes)
qed

lemma demo_requests_only:
  "requests_only demo_pq (pi_sig_pub demo_identity) (the (pr_signature (demo_envelope_for [1, 2, 3])))
     {(pi_sig_pub demo_identity, demo_kem, replicate NONCE_LEN 0, [1, 2, 3] @ replicate 16 0)}"
  by (auto simp: requests_only_def demo_pq_def demo_envelope_for_def demo_kem_def)

theorem pq_request_response_round_trip_witness:
  "\<exists>out inb. seal_request demo_pq demo_rng demo_pq_keys demo_identity [1, 2, 3] True [9] = Ok out
     \<and> open_request demo_pq demo_pq_keys [0, 9] (po_request out) = Ok inb \<and> pn_plaintext inb = [1, 2, 3]"
  using pq_request_response_round_trip [OF demo_pq_ok demo_keys_paired demo_keys_paired demo_identity_of,
      of "[9]" "[9]" True "[0, 9]" demo_rng "[1, 2, 3]"]
  by (simp add: demo_rng_def) (simp add: demo_pq_def pq_sizes, blast)

theorem pq_sender_authentic_witness:
  "(\<exists>kem x. ([9], kem, x, replicate MLDSA_VK_LEN 4) \<in> set demo_ids)
     \<and> pl_ed_peer_id demo_pq [9] = [0, 9]"
  using pq_sender_authentic [OF demo_open_request _ _ demo_identities_only demo_requests_only] demo_pq_ok
  by (simp add: pq_lib_ok_def) (simp add: demo_envelope_for_def demo_identity_def)

theorem pq_sealed_to_signed_keys_witness:
  "\<exists>kem x sig. ([9], kem, x, sig) \<in> set demo_ids
     \<and> pr_kem (demo_envelope_for []) = fst (pl_encapsulate demo_pq kem (rng_kem demo_rng)) @ replicate X25519_LEN 6"
  using pq_sealed_to_signed_keys [OF demo_identity_verifies demo_seal_request [of "[]"] _ demo_identities_only] demo_pq_ok
  by (simp add: pq_lib_ok_def) (auto simp: demo_identity_def demo_rng_def demo_pq_def)

theorem pq_key_file_round_trip_witness:
  "keys_from_bytes demo_pq (keys_to_bytes demo_pq_keys @ [0, 1]) = Ok demo_pq_keys"
  unfolding demo_pq_keys_def by (rule pq_key_file_round_trip [OF demo_pq_ok]) simp


end
