(* ===== verification/NN_DhtCache.thy ===== *)
theory NN_DhtCache
  imports NN_Config
begin

text \<open>
  The read-through cache of \<open>src/src/dht_cache.rs\<close>.

  The cache runs on a multi-threaded executor and takes a lock per field, so its steps are the
  critical sections of the code: a refresh task registers itself (\<open>Starting\<close>), reads the
  generation of its key (\<open>Fetching\<close>), compares it once the network has answered (\<open>Checked\<close>),
  stores the outcome and wakes the waiters (\<open>Sent\<close>), and leaves the table of running refreshes
  (the \<open>defer!\<close> block). Any other operation may run between two of these. A \<open>watch\<close> channel is
  its identifier, \<open>dh_channels\<close> holds what it carries.

  Network access (the \<open>Fetcher\<close>) is the value that the event \<open>FetchDone\<close> delivers.
\<close>

section \<open>State\<close>

record 'v fetched =
  fe_value :: 'v
  fe_version :: "u64 option"
  fe_size :: nat

record 'v cache_read =
  cr_value :: "'v option"
  cr_last_error :: "string option"

datatype cache_error = Unavailable string

record 'v entry =
  en_value :: "'v option"
  en_version :: "u64 option"
  en_last_error :: "string option"
  en_last_access :: instant
  en_size :: nat

type_synonym 'v fetch_result = "('v fetched option, string) result"
type_synonym generation = "u64 \<times> u64"
type_synonym channel = nat

datatype 'v task_pc = Starting | Fetching generation | Checked "'v fetch_result" | Sent

record ('k, 'v) refresh_task =
  rt_key :: 'k
  rt_pc :: "'v task_pc"

record ('k, 'v) dht_cache =
  dh_entries :: "('k \<times> 'v entry) list"
  dh_inflight :: "'k \<rightharpoonup> channel"
  dh_global_generation :: u64
  dh_key_generation :: "'k \<rightharpoonup> u64"
  dh_max_entries :: nat
  dh_max_bytes :: nat
  dh_channels :: "channel \<rightharpoonup> (unit, string) result option"
  dh_tasks :: "channel \<rightharpoonup> ('k, 'v) refresh_task"
  dh_next_channel :: channel

definition dht_cache_new :: "nat \<Rightarrow> nat \<Rightarrow> ('k, 'v) dht_cache" where
  "dht_cache_new max_entries max_bytes =
     \<lparr>dh_entries = [], dh_inflight = Map.empty, dh_global_generation = 0,
      dh_key_generation = Map.empty, dh_max_entries = max max_entries 1,
      dh_max_bytes = max max_bytes 1, dh_channels = Map.empty, dh_tasks = Map.empty,
      dh_next_channel = 0\<rparr>"

section \<open>Entries\<close>

definition read_from :: "'v entry \<Rightarrow> 'v cache_read" where
  "read_from e = \<lparr>cr_value = en_value e, cr_last_error = en_last_error e\<rparr>"

text \<open>\<open>min_by_key\<close> returns the first of the least recently used entries.\<close>

definition victim :: "('k \<times> 'v entry) list \<Rightarrow> 'k" where
  "victim entries = fst (arg_min_list (\<lambda>(_, e). en_last_access e) entries)"

definition total_size :: "('k \<times> 'v entry) list \<Rightarrow> nat" where
  "total_size entries = sum_list (map (\<lambda>(_, e). en_size e) entries)"

lemma length_hm_del: "k \<in> hm_keys m \<Longrightarrow> length (hm_del k m) < length m"
  by (induction m) (auto simp: le_imp_less_Suc length_delete_le)

lemma victim_in: "entries \<noteq> [] \<Longrightarrow> victim entries \<in> hm_keys entries"
  unfolding victim_def by (intro imageI arg_min_list_in)

function evict :: "('k \<times> 'v entry) list \<Rightarrow> nat \<Rightarrow> nat \<Rightarrow> ('k \<times> 'v entry) list" where
  "evict entries max_entries max_bytes =
     (if length entries > max_entries \<or> total_size entries > max_bytes
      then if entries = [] then entries
           else if length entries = 1 then entries
           else evict (hm_del (victim entries) entries) max_entries max_bytes
      else entries)"
  by pat_completeness auto
termination
  by (relation "measure (\<lambda>(entries, _, _). length entries)") (auto simp: length_hm_del victim_in)

declare evict.simps [simp del]

text \<open>\<open>entry\<close>: read an entry and mark it as used now.\<close>

definition cache_entry :: "'k \<Rightarrow> instant \<Rightarrow> ('k, 'v) dht_cache \<Rightarrow> ('k, 'v) dht_cache \<times> 'v entry option" where
  "cache_entry key now c =
     (case hm_get (dh_entries c) key of
        None \<Rightarrow> (c, None)
      | Some e \<Rightarrow>
          (let e' = e\<lparr>en_last_access := now\<rparr>
           in (c\<lparr>dh_entries := hm_put key e' (dh_entries c)\<rparr>, Some e')))"

definition peek :: "'k \<Rightarrow> instant \<Rightarrow> ('k, 'v) dht_cache \<Rightarrow> ('k, 'v) dht_cache \<times> 'v cache_read option" where
  "peek key now c = (case cache_entry key now c of (c', e) \<Rightarrow> (c', map_option read_from e))"

definition generation_of :: "('k, 'v) dht_cache \<Rightarrow> 'k \<Rightarrow> generation" where
  "generation_of c key =
     (dh_global_generation c,
      case dh_key_generation c key of None \<Rightarrow> 0 | Some g \<Rightarrow> g)"

definition store :: "'k \<Rightarrow> 'v fetched \<Rightarrow> instant \<Rightarrow> ('k, 'v) dht_cache \<Rightarrow> ('k, 'v) dht_cache" where
  "store key f now c =
     (let entries = dh_entries c; existing = hm_get entries key;
          compared = (case existing of
                        None \<Rightarrow> None
                      | Some e \<Rightarrow>
                          (case (en_version e, fe_version f) of
                             (Some old, Some new) \<Rightarrow> Some (e, old, new)
                           | _ \<Rightarrow> None));
          rollback = (case compared of None \<Rightarrow> False | Some (e, old, new) \<Rightarrow> new < old);
          conflict = (case compared of
                        None \<Rightarrow> False
                      | Some (e, old, new) \<Rightarrow>
                          new = old \<and> (case en_value e of None \<Rightarrow> False | Some v \<Rightarrow> v \<noteq> fe_value f))
      in
      if rollback then c
      else if conflict then
        (case existing of
           None \<Rightarrow> c
         | Some e \<Rightarrow>
             c\<lparr>dh_entries := hm_put key
                 (e\<lparr>en_last_error := Some ''conflicting content for the same version'',
                    en_last_access := now\<rparr>) entries\<rparr>)
      else
        c\<lparr>dh_entries := evict
            (hm_put key \<lparr>en_value = Some (fe_value f), en_version = fe_version f,
                         en_last_error = None, en_last_access = now, en_size = fe_size f\<rparr> entries)
            (dh_max_entries c) (dh_max_bytes c)\<rparr>)"

definition store_missing :: "'k \<Rightarrow> instant \<Rightarrow> ('k, 'v) dht_cache \<Rightarrow> ('k, 'v) dht_cache" where
  "store_missing key now c =
     c\<lparr>dh_entries := evict
         (hm_put key \<lparr>en_value = None, en_version = None, en_last_error = None,
                      en_last_access = now, en_size = 0\<rparr> (dh_entries c))
         (dh_max_entries c) (dh_max_bytes c)\<rparr>"

definition mark_error :: "'k \<Rightarrow> string \<Rightarrow> instant \<Rightarrow> ('k, 'v) dht_cache \<Rightarrow> ('k, 'v) dht_cache" where
  "mark_error key error now c =
     (case hm_get (dh_entries c) key of
        None \<Rightarrow> c
      | Some e \<Rightarrow>
          c\<lparr>dh_entries := hm_put key
              (e\<lparr>en_last_error := Some error, en_last_access := now\<rparr>) (dh_entries c)\<rparr>)"

section \<open>Refreshes\<close>

text \<open>The first half of \<open>ensure_refresh\<close>: join the running refresh or register a new one.\<close>

definition ensure_refresh :: "'k \<Rightarrow> ('k, 'v) dht_cache \<Rightarrow> ('k, 'v) dht_cache \<times> channel" where
  "ensure_refresh key c =
     (case dh_inflight c key of
        Some rx \<Rightarrow> (c, rx)
      | None \<Rightarrow>
          (let rx = dh_next_channel c
           in (c\<lparr>dh_inflight := (dh_inflight c)(key \<mapsto> rx),
                 dh_channels := (dh_channels c)(rx \<mapsto> None),
                 dh_tasks := (dh_tasks c)(rx \<mapsto> \<lparr>rt_key = key, rt_pc = Starting\<rparr>),
                 dh_next_channel := Suc rx\<rparr>, rx)))"

definition set_pc :: "channel \<Rightarrow> 'v task_pc \<Rightarrow> ('k, 'v) dht_cache \<Rightarrow> ('k, 'v) dht_cache" where
  "set_pc rx pc c =
     (case dh_tasks c rx of
        None \<Rightarrow> c
      | Some t \<Rightarrow> c\<lparr>dh_tasks := (dh_tasks c)(rx \<mapsto> t\<lparr>rt_pc := pc\<rparr>)\<rparr>)"

definition send :: "channel \<Rightarrow> (unit, string) result \<Rightarrow> ('k, 'v) dht_cache \<Rightarrow> ('k, 'v) dht_cache" where
  "send rx r c = c\<lparr>dh_channels := (dh_channels c)(rx \<mapsto> Some r)\<rparr>"

text \<open>Its second half reads the generation and spawns the task.\<close>

definition spawn_refresh :: "channel \<Rightarrow> ('k, 'v) dht_cache \<Rightarrow> ('k, 'v) dht_cache" where
  "spawn_refresh rx c =
     (case dh_tasks c rx of
        Some t \<Rightarrow> (if rt_pc t = Starting then set_pc rx (Fetching (generation_of c (rt_key t))) c else c)
      | None \<Rightarrow> c)"

text \<open>\<open>run_refresh\<close>, from the answer of the network to the comparison of the generations.\<close>

definition fetch_done :: "channel \<Rightarrow> 'v fetch_result \<Rightarrow> ('k, 'v) dht_cache \<Rightarrow> ('k, 'v) dht_cache" where
  "fetch_done rx result c =
     (case dh_tasks c rx of
        Some t \<Rightarrow>
          (case rt_pc t of
             Fetching generation \<Rightarrow>
               if generation \<noteq> generation_of c (rt_key t)
               then set_pc rx Sent (send rx (Err ''cache invalidated'') c)
               else set_pc rx (Checked result) c
           | _ \<Rightarrow> c)
      | None \<Rightarrow> c)"

text \<open>\<open>run_refresh\<close>, from there to the message to the waiters.\<close>

definition apply_refresh :: "channel \<Rightarrow> instant \<Rightarrow> ('k, 'v) dht_cache \<Rightarrow> ('k, 'v) dht_cache" where
  "apply_refresh rx now c =
     (case dh_tasks c rx of
        Some t \<Rightarrow>
          (case rt_pc t of
             Checked (Ok (Some fetched)) \<Rightarrow>
               set_pc rx Sent (send rx (Ok ()) (store (rt_key t) fetched now c))
           | Checked (Ok None) \<Rightarrow>
               set_pc rx Sent (send rx (Ok ()) (store_missing (rt_key t) now c))
           | Checked (Err error) \<Rightarrow>
               set_pc rx Sent (send rx (Err error) (mark_error (rt_key t) error now c))
           | _ \<Rightarrow> c)
      | None \<Rightarrow> c)"

text \<open>The \<open>defer!\<close> block at the end of \<open>run_refresh\<close>.\<close>

definition exit_refresh :: "channel \<Rightarrow> ('k, 'v) dht_cache \<Rightarrow> ('k, 'v) dht_cache" where
  "exit_refresh rx c =
     (case dh_tasks c rx of
        Some t \<Rightarrow>
          if rt_pc t = Sent
          then c\<lparr>dh_inflight := (dh_inflight c)(rt_key t := None), dh_tasks := (dh_tasks c)(rx := None)\<rparr>
          else c
      | None \<Rightarrow> c)"

text \<open>A refresh that no other operation interrupts.\<close>

definition run_refresh :: "channel \<Rightarrow> 'v fetch_result \<Rightarrow> instant \<Rightarrow> ('k, 'v) dht_cache \<Rightarrow> ('k, 'v) dht_cache" where
  "run_refresh rx result now c = exit_refresh rx (apply_refresh rx now (fetch_done rx result c))"

definition refresh :: "'k \<Rightarrow> ('k, 'v) dht_cache \<Rightarrow> ('k, 'v) dht_cache" where
  "refresh key c = fst (ensure_refresh key c)"

definition invalidate :: "'k \<Rightarrow> ('k, 'v) dht_cache \<Rightarrow> ('k, 'v) dht_cache" where
  "invalidate key c =
     c\<lparr>dh_key_generation := (dh_key_generation c)
         (key \<mapsto> (case dh_key_generation c key of None \<Rightarrow> 0 | Some g \<Rightarrow> g) + 1),
       dh_entries := hm_del key (dh_entries c)\<rparr>"

definition invalidate_all :: "('k, 'v) dht_cache \<Rightarrow> ('k, 'v) dht_cache" where
  "invalidate_all c =
     c\<lparr>dh_global_generation := dh_global_generation c + 1, dh_entries := [],
       dh_key_generation := Map.empty\<rparr>"

section \<open>Reading through the cache\<close>

datatype 'v get_state = GetHit "'v cache_read" | GetWait channel

text \<open>\<open>get\<close> up to its \<open>await\<close>, and from there on.\<close>

definition get_begin :: "'k \<Rightarrow> instant \<Rightarrow> ('k, 'v) dht_cache \<Rightarrow> ('k, 'v) dht_cache \<times> 'v get_state" where
  "get_begin key now c =
     (case cache_entry key now c of
        (c', Some e) \<Rightarrow> (refresh key c', GetHit (read_from e))
      | (c', None) \<Rightarrow> (case ensure_refresh key c' of (c'', rx) \<Rightarrow> (c'', GetWait rx)))"

definition get_finish ::
    "'k \<Rightarrow> channel \<Rightarrow> instant \<Rightarrow> ('k, 'v) dht_cache
       \<Rightarrow> ('k, 'v) dht_cache \<times> ('v cache_read, cache_error) result option" where
  "get_finish key rx now c =
     (case dh_channels c rx of
        None \<Rightarrow> (c, Some (Err (Unavailable ''refresh task exited without a result'')))
      | Some None \<Rightarrow> (c, None)
      | Some (Some (Ok _)) \<Rightarrow>
          (case cache_entry key now c of
             (c', Some e) \<Rightarrow> (c', Some (Ok (read_from e)))
           | (c', None) \<Rightarrow> (c', Some (Err (Unavailable ''cache invalidated''))))
      | Some (Some (Err error)) \<Rightarrow> (c, Some (Err (Unavailable error))))"

section \<open>The cache as a system of steps\<close>

datatype ('k, 'v) cache_event =
    Touch 'k instant
  | Ensure 'k
  | Spawn channel
  | FetchDone channel "'v fetch_result"
  | Apply channel instant
  | Exit channel
  | Invalidate 'k
  | InvalidateAll

fun cache_step :: "('k, 'v) cache_event \<Rightarrow> ('k, 'v) dht_cache \<Rightarrow> ('k, 'v) dht_cache" where
  "cache_step (Touch key now) c = fst (cache_entry key now c)"
| "cache_step (Ensure key) c = refresh key c"
| "cache_step (Spawn rx) c = spawn_refresh rx c"
| "cache_step (FetchDone rx result) c = fetch_done rx result c"
| "cache_step (Apply rx now) c = apply_refresh rx now c"
| "cache_step (Exit rx) c = exit_refresh rx c"
| "cache_step (Invalidate key) c = invalidate key c"
| "cache_step InvalidateAll c = invalidate_all c"

text \<open>
  The whole of \<open>get\<close>: \<open>es\<close> is what the executor does while the reader awaits its channel. The
  result is \<open>None\<close> if the channel is still unanswered after \<open>es\<close>.
\<close>

definition cache_get ::
    "'k \<Rightarrow> instant \<Rightarrow> ('k, 'v) cache_event list \<Rightarrow> instant \<Rightarrow> ('k, 'v) dht_cache
       \<Rightarrow> ('k, 'v) dht_cache \<times> ('v cache_read, cache_error) result option" where
  "cache_get key now es now' c =
     (case get_begin key now c of
        (c1, GetHit r) \<Rightarrow> (c1, Some (Ok r))
      | (c1, GetWait rx) \<Rightarrow> get_finish key rx now' (fold cache_step es c1))"

section \<open>Eviction\<close>

lemma length_hm_put: "hm_get m k = Some e \<Longrightarrow> length (hm_put k v m) = length m"
  by (induction m) (auto split: if_splits)

lemma length_hm_del_le: "length (hm_del k m) \<le> length m"
  by (rule length_delete_le)

lemma total_size_put:
  "hm_get m k = Some e \<Longrightarrow> en_size e' = en_size e \<Longrightarrow> total_size (hm_put k e' m) = total_size m"
  by (induction m) (auto simp: total_size_def split: if_splits)

lemma total_size_del: "total_size (hm_del k m) \<le> total_size m"
  by (induction m) (auto simp: total_size_def)

definition within :: "nat \<Rightarrow> nat \<Rightarrow> ('k \<times> 'v entry) list \<Rightarrow> bool" where
  "within n b es \<longleftrightarrow> length es \<le> n \<and> total_size es \<le> b \<or> length es \<le> 1"

lemma within_put:
  "within n b es \<Longrightarrow> hm_get es k = Some e \<Longrightarrow> en_size e' = en_size e \<Longrightarrow> within n b (hm_put k e' es)"
  by (simp add: within_def total_size_put length_hm_put)

lemma within_del: "within n b es \<Longrightarrow> within n b (hm_del k es)"
  using total_size_del [of k es] length_hm_del_le [of k es] by (auto simp: within_def)

lemma evict_single [simp]: "evict [x] n b = [x]"
  by (simp add: evict.simps)

lemma evict_within: "within n b (evict es n b)"
proof (induction es n b rule: evict.induct)
  case (1 es n b)
  then show ?case by (subst evict.simps) (auto simp: within_def)
qed

lemma evict_subset: "set (evict es n b) \<subseteq> set es"
proof (induction es n b rule: evict.induct)
  case (1 es n b)
  then show ?case
    by (subst evict.simps) (auto simp: AList.delete_eq split: if_splits)
qed

lemma evict_wf [simp, intro]: "hm_wf es \<Longrightarrow> hm_wf (evict es n b)"
proof (induction es n b rule: evict.induct)
  case (1 es n b)
  then show ?case by (subst evict.simps) auto
qed

lemma evict_get: "hm_wf es \<Longrightarrow> hm_get (evict es n b) k = Some e \<Longrightarrow> hm_get es k = Some e"
  using evict_subset [of es n b] by (auto simp: hm_get_eq_Some_iff)

lemma hm_del_Nil_iff: "hm_del k es = [] \<longleftrightarrow> hm_keys es \<subseteq> {k}"
  using hm_keys_del [of k es] by (metis Diff_eq_empty_iff image_is_empty set_empty)

lemma evict_not_Nil: "hm_wf es \<Longrightarrow> es \<noteq> [] \<Longrightarrow> evict es n b \<noteq> []"
proof (induction es n b rule: evict.induct)
  case (1 es n b)
  have "hm_del (victim es) es \<noteq> []" if "length es \<noteq> 1"
  proof -
    have "card (hm_keys es) = length es"
      using 1(2) unfolding hm_wf_def by (metis distinct_card length_map set_map)
    moreover have "hm_keys es \<subseteq> {victim es} \<Longrightarrow> card (hm_keys es) \<le> 1"
      using card_mono [of "{victim es}"] by simp
    moreover have "0 < length es" using 1(3) by simp
    ultimately show ?thesis using that by (auto simp: hm_del_Nil_iff)
  qed
  with 1 show ?case by (subst evict.simps) auto
qed

lemma victim_oldest:
  assumes "hm_wf es" and "(victim es, e) \<in> set es" and "y \<in> set es"
  shows "en_last_access e \<le> en_last_access (snd y)"
proof -
  let ?f = "\<lambda>(_ :: 'a, e :: 'b entry). en_last_access e"
  have ne: "es \<noteq> []" using assms(3) by auto
  then have "arg_min_list ?f es \<in> set es" by (rule arg_min_list_in)
  moreover have "fst (arg_min_list ?f es) = victim es" by (simp add: victim_def case_prod_unfold)
  ultimately have "arg_min_list ?f es = (victim es, e)"
    using assms(1,2) by (metis eq_key_imp_eq_value hm_wf_def prod.collapse)
  moreover have "?f (arg_min_list ?f es) \<le> ?f y"
    using f_arg_min_list_f [OF ne, of ?f] assms(3) by simp
  ultimately show ?thesis by (auto split: prod.splits)
qed

lemma evict_lru:
  "hm_wf es \<Longrightarrow> x \<in> set es \<Longrightarrow> x \<notin> set (evict es n b) \<Longrightarrow> y \<in> set (evict es n b) \<Longrightarrow>
     en_last_access (snd x) \<le> en_last_access (snd y)"
proof (induction es n b rule: evict.induct)
  case (1 es n b)
  let ?del = "hm_del (victim es) es"
  have run: "evict es n b = evict ?del n b"
    using 1(3,4) by (subst evict.simps) (auto simp: evict.simps [of es])
  have more: "length es > n \<or> total_size es > b" "es \<noteq> []" "length es \<noteq> 1"
    using 1(3,4) by (auto simp: evict.simps [of es] split: if_splits)
  have y: "y \<in> set es" using 1(5) evict_subset by blast
  show ?case
  proof (cases "fst x = victim es")
    case True
    with 1(3) have "(victim es, snd x) \<in> set es" by (metis prod.collapse)
    then show ?thesis by (rule victim_oldest [OF 1(2) _ y])
  next
    case False
    then have "x \<in> set ?del" using 1(3) by (auto simp: AList.delete_eq)
    with 1(1) [OF more] 1(2,4,5) show ?thesis by (simp add: run)
  qed
qed

lemma evict_keeps_newest:
  assumes "hm_wf es" and "(k, e) \<in> set es"
    and "\<And>k' e'. (k', e') \<in> set es \<Longrightarrow> k' \<noteq> k \<Longrightarrow> en_last_access e' < en_last_access e"
  shows "(k, e) \<in> set (evict es n b)"
proof (rule ccontr)
  assume gone: "(k, e) \<notin> set (evict es n b)"
  obtain y where y: "y \<in> set (evict es n b)"
    using evict_not_Nil [OF assms(1), of n b] assms(2)
    by (metis empty_iff empty_set list.set_intros(1) neq_Nil_conv)
  with evict_subset have "y \<in> set es" by blast
  moreover have "fst y \<noteq> k"
    using calculation assms(1,2) y gone by (metis eq_key_imp_eq_value hm_wf_def prod.collapse)
  ultimately have "en_last_access (snd y) < en_last_access e" using assms(3) by (metis prod.collapse)
  moreover have "en_last_access e \<le> en_last_access (snd y)"
    using evict_lru [OF assms(1,2) gone y] by simp
  ultimately show False by simp
qed

section \<open>The invariant of the cache\<close>

text \<open>The operations on entries change nothing else.\<close>

definition same_refreshes :: "('k, 'v) dht_cache \<Rightarrow> ('k, 'v) dht_cache \<Rightarrow> bool" where
  "same_refreshes c c' \<longleftrightarrow>
     dh_inflight c' = dh_inflight c \<and> dh_tasks c' = dh_tasks c \<and> dh_channels c' = dh_channels c
     \<and> dh_next_channel c' = dh_next_channel c \<and> dh_max_entries c' = dh_max_entries c
     \<and> dh_max_bytes c' = dh_max_bytes c"

lemma store_same: "same_refreshes c (store key f now c)"
  by (auto simp: same_refreshes_def store_def Let_def split: option.splits)

lemma store_missing_same: "same_refreshes c (store_missing key now c)"
  by (simp add: same_refreshes_def store_missing_def)

lemma mark_error_same: "same_refreshes c (mark_error key error now c)"
  by (simp add: same_refreshes_def mark_error_def split: option.splits)

lemma cache_entry_same: "same_refreshes c (fst (cache_entry key now c))"
  by (simp add: same_refreshes_def cache_entry_def Let_def split: option.splits)

definition entries_ok :: "('k, 'v) dht_cache \<Rightarrow> bool" where
  "entries_ok c \<longleftrightarrow>
     hm_wf (dh_entries c) \<and> within (dh_max_entries c) (dh_max_bytes c) (dh_entries c)"

text \<open>
  A refresh is registered exactly under its key, its channel is answered exactly when the task has
  sent, and an unanswered channel has a live task.
\<close>

definition refreshes_ok :: "('k, 'v) dht_cache \<Rightarrow> bool" where
  "refreshes_ok c \<longleftrightarrow>
     (\<forall>key rx. dh_inflight c key = Some rx \<longleftrightarrow> (\<exists>t. dh_tasks c rx = Some t \<and> rt_key t = key))
     \<and> (\<forall>rx t. dh_tasks c rx = Some t \<longrightarrow>
          (if rt_pc t = Sent then \<exists>r. dh_channels c rx = Some (Some r) else dh_channels c rx = Some None))
     \<and> (\<forall>rx. dh_channels c rx = Some None \<longrightarrow> dh_tasks c rx \<noteq> None)
     \<and> (\<forall>rx \<ge> dh_next_channel c. dh_channels c rx = None \<and> dh_tasks c rx = None)"

lemma entries_ok_store [intro]: "entries_ok c \<Longrightarrow> entries_ok (store key f now c)"
  by (auto simp: entries_ok_def store_def Let_def evict_within split: option.splits intro: within_put)

lemma entries_ok_store_missing [intro]: "entries_ok c \<Longrightarrow> entries_ok (store_missing key now c)"
  by (simp add: entries_ok_def store_missing_def evict_within)

lemma entries_ok_mark_error [intro]: "entries_ok c \<Longrightarrow> entries_ok (mark_error key error now c)"
  by (auto simp: entries_ok_def mark_error_def split: option.splits intro: within_put)

lemma entries_ok_cache_entry [intro]: "entries_ok c \<Longrightarrow> entries_ok (fst (cache_entry key now c))"
  by (auto simp: entries_ok_def cache_entry_def Let_def split: option.splits intro: within_put)

lemma entries_ok_frame:
  "dh_entries c' = dh_entries c \<Longrightarrow> dh_max_entries c' = dh_max_entries c \<Longrightarrow>
   dh_max_bytes c' = dh_max_bytes c \<Longrightarrow> entries_ok c \<Longrightarrow> entries_ok c'"
  by (simp add: entries_ok_def)

lemma entries_ok_set_pc [simp]: "entries_ok (set_pc rx pc c) \<longleftrightarrow> entries_ok c"
  by (simp add: entries_ok_def set_pc_def split: option.splits)

lemma entries_ok_send [simp]: "entries_ok (send rx r c) \<longleftrightarrow> entries_ok c"
  by (simp add: entries_ok_def send_def)

lemma entries_ok_step: "entries_ok c \<Longrightarrow> entries_ok (cache_step e c)"
proof (cases e)
  case (Ensure key)
  then show "entries_ok c \<Longrightarrow> ?thesis"
    by (auto simp: refresh_def ensure_refresh_def Let_def entries_ok_def split: option.splits)
next
  case (Invalidate key)
  then show "entries_ok c \<Longrightarrow> ?thesis" by (simp add: invalidate_def entries_ok_def within_del)
next
  case InvalidateAll
  then show "entries_ok c \<Longrightarrow> ?thesis" by (simp add: invalidate_all_def entries_ok_def within_def)
next
  case (Exit rx)
  then show "entries_ok c \<Longrightarrow> ?thesis"
    by (auto simp: exit_refresh_def entries_ok_def split: option.splits)
next
  case (Apply rx now)
  then show "entries_ok c \<Longrightarrow> ?thesis"
    by (auto simp: apply_refresh_def split: option.splits task_pc.splits result.splits)
qed (auto simp: spawn_refresh_def fetch_done_def split: option.splits task_pc.splits)

lemma refreshes_ok_same: "same_refreshes c c' \<Longrightarrow> refreshes_ok c \<Longrightarrow> refreshes_ok c'"
  by (simp add: same_refreshes_def refreshes_ok_def)

lemma refreshes_ok_set_pc:
  assumes "refreshes_ok c" and "dh_tasks c rx = Some t" and "rt_pc t \<noteq> Sent" and "pc \<noteq> Sent"
  shows "refreshes_ok (set_pc rx pc c)"
  using assms by (auto simp: refreshes_ok_def set_pc_def split: if_splits)

lemma refreshes_ok_sent:
  assumes "refreshes_ok c" and "dh_tasks c rx = Some t"
  shows "refreshes_ok (set_pc rx Sent (send rx r c))"
  using assms by (auto simp: refreshes_ok_def set_pc_def send_def split: if_splits)

lemma refreshes_ok_registered:
  "refreshes_ok c \<Longrightarrow> dh_tasks c rx = Some t \<Longrightarrow> dh_inflight c (rt_key t) = Some rx"
  unfolding refreshes_ok_def by blast

lemma refreshes_ok_ensure:
  assumes "refreshes_ok c"
  shows "refreshes_ok (fst (ensure_refresh key c))"
proof (cases "dh_inflight c key")
  case None
  then have "rt_key t \<noteq> key" if "dh_tasks c rx = Some t" for rx t
    using refreshes_ok_registered [OF assms that] None by auto
  moreover have "dh_tasks c (dh_next_channel c) = None"
    using assms by (simp add: refreshes_ok_def)
  ultimately show ?thesis
    using assms None by (simp add: refreshes_ok_def ensure_refresh_def Let_def)
qed (simp add: ensure_refresh_def assms)

lemma refreshes_ok_exit:
  assumes "refreshes_ok c"
  shows "refreshes_ok (exit_refresh rx c)"
proof (cases "\<exists>t. dh_tasks c rx = Some t \<and> rt_pc t = Sent")
  case True
  then obtain t r where t: "dh_tasks c rx = Some t" "rt_pc t = Sent" "dh_channels c rx = Some (Some r)"
    using assms unfolding refreshes_ok_def by metis
  have key: "rt_key t' = rt_key t \<longleftrightarrow> rx' = rx" if "dh_tasks c rx' = Some t'" for rx' t'
    using refreshes_ok_registered [OF assms that] refreshes_ok_registered [OF assms t(1)] that t(1)
    by auto
  have "exit_refresh rx c =
      c\<lparr>dh_inflight := (dh_inflight c)(rt_key t := None), dh_tasks := (dh_tasks c)(rx := None)\<rparr>"
    using t by (simp add: exit_refresh_def)
  with assms t key show ?thesis by (simp add: refreshes_ok_def)
next
  case False
  then have "exit_refresh rx c = c" by (auto simp: exit_refresh_def split: option.split)
  with assms show ?thesis by simp
qed

lemma tasks_same: "same_refreshes c c' \<Longrightarrow> dh_tasks c' = dh_tasks c"
  by (simp add: same_refreshes_def)

lemma refreshes_ok_step: "refreshes_ok c \<Longrightarrow> refreshes_ok (cache_step e c)"
proof (cases e)
  case (Touch key now)
  then show "refreshes_ok c \<Longrightarrow> ?thesis" by (simp add: refreshes_ok_same [OF cache_entry_same])
next
  case (Ensure key)
  then show "refreshes_ok c \<Longrightarrow> ?thesis" by (simp add: refresh_def refreshes_ok_ensure)
next
  case (Spawn rx)
  then show "refreshes_ok c \<Longrightarrow> ?thesis"
    by (auto simp: spawn_refresh_def intro: refreshes_ok_set_pc split: option.splits)
next
  case (FetchDone rx result)
  then show "refreshes_ok c \<Longrightarrow> ?thesis"
    by (auto simp: fetch_done_def intro: refreshes_ok_set_pc refreshes_ok_sent
        split: option.splits task_pc.splits)
next
  case (Apply rx now)
  have *: "refreshes_ok (set_pc rx Sent (send rx r c'))"
    if "refreshes_ok c" "same_refreshes c c'" "dh_tasks c rx = Some t" for r c' t
    using that refreshes_ok_same refreshes_ok_sent [of c' rx t] by (auto simp: tasks_same)
  from Apply show "refreshes_ok c \<Longrightarrow> ?thesis"
    by (auto simp: apply_refresh_def intro!: * store_same store_missing_same mark_error_same
        split: option.splits task_pc.splits result.splits)
next
  case (Exit rx)
  then show "refreshes_ok c \<Longrightarrow> ?thesis" by (simp add: refreshes_ok_exit)
qed (simp_all add: refreshes_ok_def invalidate_def invalidate_all_def)

definition cache_inv :: "('k, 'v) dht_cache \<Rightarrow> bool" where
  "cache_inv c \<longleftrightarrow> entries_ok c \<and> refreshes_ok c"

interpretation cache: invariant_system "dht_cache_new n b" cache_step cache_inv for n b
proof unfold_locales
  show "cache_inv (dht_cache_new n b)"
    by (simp add: cache_inv_def entries_ok_def refreshes_ok_def dht_cache_new_def within_def)
qed (auto simp: cache_inv_def intro: entries_ok_step refreshes_ok_step)

section \<open>Where cached values come from\<close>

text \<open>
  \<open>P key v\<close> is what the fetcher of the cache guarantees of a value it returns for a key, e.g. that
  its signature has been verified; \<open>fetches P\<close> is that guarantee on the delivered events.
\<close>

fun fetches :: "('k \<Rightarrow> 'v \<Rightarrow> bool) \<Rightarrow> ('k, 'v) cache_event \<Rightarrow> ('k, 'v) dht_cache \<Rightarrow> bool" where
  "fetches P (FetchDone rx (Ok (Some f))) c \<longleftrightarrow>
     (case dh_tasks c rx of None \<Rightarrow> True | Some t \<Rightarrow> P (rt_key t) (fe_value f))"
| "fetches P _ c \<longleftrightarrow> True"

definition entries_from :: "('k \<Rightarrow> 'v \<Rightarrow> bool) \<Rightarrow> ('k \<times> 'v entry) list \<Rightarrow> bool" where
  "entries_from P es \<longleftrightarrow> (\<forall>(k, e) \<in> set es. \<forall>v. en_value e = Some v \<longrightarrow> P k v)"

definition all_from :: "('k \<Rightarrow> 'v \<Rightarrow> bool) \<Rightarrow> ('k, 'v) dht_cache \<Rightarrow> bool" where
  "all_from P c \<longleftrightarrow>
     entries_from P (dh_entries c)
     \<and> (\<forall>rx t f. dh_tasks c rx = Some t \<longrightarrow> rt_pc t = Checked (Ok (Some f)) \<longrightarrow> P (rt_key t) (fe_value f))"

lemma set_hm_put: "set (hm_put k v m) \<subseteq> insert (k, v) (set m)"
  by (induction m) auto

lemma entries_from_put:
  "entries_from P es \<Longrightarrow> (\<And>v. en_value e = Some v \<Longrightarrow> P k v) \<Longrightarrow> entries_from P (hm_put k e es)"
  using set_hm_put [of k e es] by (fastforce simp: entries_from_def)

lemma entries_from_subset: "entries_from P es \<Longrightarrow> set es' \<subseteq> set es \<Longrightarrow> entries_from P es'"
  by (auto simp: entries_from_def)

lemma entries_from_get:
  "entries_from P es \<Longrightarrow> hm_get es k = Some e \<Longrightarrow> en_value e = Some v \<Longrightarrow> P k v"
  using map_of_SomeD by (fastforce simp: entries_from_def)

lemmas entries_from_intros = entries_from_put entries_from_subset [OF _ evict_subset] entries_from_get

lemma entries_from_store:
  "entries_from P (dh_entries c) \<Longrightarrow> P key (fe_value f) \<Longrightarrow> entries_from P (dh_entries (store key f now c))"
  by (auto simp: store_def Let_def split: option.splits intro!: entries_from_put entries_from_subset [OF _ evict_subset]
      dest: entries_from_get)

lemma entries_from_store_missing:
  "entries_from P (dh_entries c) \<Longrightarrow> entries_from P (dh_entries (store_missing key now c))"
  by (auto simp: store_missing_def intro!: entries_from_put entries_from_subset [OF _ evict_subset])

lemma entries_from_mark_error:
  "entries_from P (dh_entries c) \<Longrightarrow> entries_from P (dh_entries (mark_error key error now c))"
  by (auto simp: mark_error_def split: option.splits intro!: entries_from_put dest: entries_from_get)

lemma entries_from_cache_entry:
  "entries_from P (dh_entries c) \<Longrightarrow> entries_from P (dh_entries (fst (cache_entry key now c)))"
  by (auto simp: cache_entry_def Let_def split: option.splits intro!: entries_from_put dest: entries_from_get)

lemma dh_entries_set_pc [simp]: "dh_entries (set_pc rx pc c) = dh_entries c"
  by (simp add: set_pc_def split: option.splits)

lemma dh_entries_send [simp]: "dh_entries (send rx r c) = dh_entries c"
  by (simp add: send_def)

lemma dh_tasks_set_pc:
  "dh_tasks c rx = Some t \<Longrightarrow> dh_tasks (set_pc rx pc c) = (dh_tasks c)(rx \<mapsto> t\<lparr>rt_pc := pc\<rparr>)"
  by (simp add: set_pc_def)

lemma dh_tasks_send [simp]: "dh_tasks (send rx r c) = dh_tasks c"
  by (simp add: send_def)

lemma all_from_set_pc:
  assumes "all_from P c" and "dh_tasks c rx = Some t"
    and "\<And>f. pc = Checked (Ok (Some f)) \<Longrightarrow> P (rt_key t) (fe_value f)"
  shows "all_from P (set_pc rx pc c)"
  using assms by (auto simp: all_from_def dh_tasks_set_pc split: if_splits)

lemma all_from_send [simp]: "all_from P (send rx r c) \<longleftrightarrow> all_from P c"
  by (simp add: all_from_def)

lemma all_from_same:
  "all_from P c \<Longrightarrow> same_refreshes c c' \<Longrightarrow> entries_from P (dh_entries c') \<Longrightarrow> all_from P c'"
  by (simp add: all_from_def same_refreshes_def)

lemma all_from_apply: "all_from P c \<Longrightarrow> all_from P (apply_refresh rx now c)"
proof (cases "dh_tasks c rx")
  case (Some t)
  assume inv: "all_from P c"
  have sent: "all_from P (set_pc rx Sent (send rx r c'))"
    if "same_refreshes c c'" "entries_from P (dh_entries c')" for c' r
    using all_from_same [OF inv that] Some that(1)
    by (intro all_from_set_pc [where t = t]) (auto simp: tasks_same)
  have old: "entries_from P (dh_entries c)"
    and chk: "\<And>f. rt_pc t = Checked (Ok (Some f)) \<Longrightarrow> P (rt_key t) (fe_value f)"
    using inv Some by (auto simp: all_from_def)
  show ?thesis
    using inv Some chk old
    by (auto simp: apply_refresh_def split: task_pc.splits result.splits option.splits
        intro!: sent store_same store_missing_same mark_error_same entries_from_store
          entries_from_store_missing entries_from_mark_error)
qed (simp add: apply_refresh_def)

lemma all_from_step:
  assumes "all_from P c" and "fetches P e c"
  shows "all_from P (cache_step e c)"
proof (cases e)
  case (Touch key now)
  with assms show ?thesis
    using all_from_same [OF assms(1) cache_entry_same [of c key now] entries_from_cache_entry]
    by (simp add: all_from_def)
next
  case (Ensure key)
  with assms show ?thesis
    by (auto simp: refresh_def ensure_refresh_def Let_def all_from_def split: option.splits)
next
  case (Spawn rx)
  with assms show ?thesis
    by (auto simp: spawn_refresh_def intro: all_from_set_pc split: option.splits)
next
  case (FetchDone rx result)
  with assms show ?thesis
    by (auto simp: fetch_done_def intro!: all_from_set_pc split: option.splits task_pc.splits)
next
  case (Apply rx now)
  with assms show ?thesis by (simp add: all_from_apply)
next
  case (Exit rx)
  with assms show ?thesis by (auto simp: exit_refresh_def all_from_def split: option.splits)
next
  case (Invalidate key)
  with assms show ?thesis
    by (auto simp: invalidate_def all_from_def AList.delete_eq intro: entries_from_subset)
next
  case InvalidateAll
  with assms show ?thesis by (auto simp: invalidate_all_def all_from_def entries_from_def)
qed

interpretation served: guarded_system "dht_cache_new n b" "fetches P" cache_step "all_from P" for n b P
proof unfold_locales
  show "all_from P (dht_cache_new n b)"
    by (simp add: all_from_def entries_from_def dht_cache_new_def)
qed (rule all_from_step)

lemma get_begin_steps: "fst (get_begin key now c) = cache_step (Ensure key) (cache_step (Touch key now) c)"
  by (simp add: get_begin_def refresh_def split: prod.splits option.splits)

lemma get_finish_steps: "fst (get_finish key rx now c) \<in> {c, cache_step (Touch key now) c}"
  by (auto simp: get_finish_def split: prod.splits option.splits result.splits)

lemma all_from_get_begin: "all_from P c \<Longrightarrow> all_from P (fst (get_begin key now c))"
  by (simp add: get_begin_steps all_from_step del: cache_step.simps)

text \<open>What every client of the cache uses: reading keeps the guarantee, and the value read has it.\<close>

lemma cache_get_from:
  assumes "all_from P c" and "valid_run (fetches P) cache_step es (fst (get_begin key now c))"
    and "cache_get key now es now' c = (c', r)"
  shows "all_from P c'" and "r = Some (Ok read) \<Longrightarrow> cr_value read = Some v \<Longrightarrow> P key v"
proof -
  obtain c1 g where g: "get_begin key now c = (c1, g)" by fastforce
  have c1: "all_from P c1" using all_from_get_begin [OF assms(1), of key now] g by simp
  have c2: "all_from P (fold cache_step es c1)"
    using served.inv_run [OF c1] assms(2) g by simp
  have hit: "\<exists>e. hm_get (dh_entries c) key = Some e \<and> en_value e = cr_value r0" if "g = GetHit r0" for r0
    using g that by (auto simp: get_begin_def cache_entry_def Let_def read_from_def
        split: option.splits prod.splits)
  have fin: "\<exists>e. hm_get (dh_entries d) key = Some e \<and> en_value e = cr_value r0"
    if "snd (get_finish key rx now' d) = Some (Ok r0)" for r0 rx d
    using that by (auto simp: get_finish_def cache_entry_def Let_def read_from_def
        split: option.splits prod.splits result.splits)
  have finish: "all_from P (fst (get_finish key rx now' d))" if "all_from P d" for rx d
    using get_finish_steps [of key rx now' d] all_from_step [OF that, of "Touch key now'"] that by auto
  show "all_from P c'"
  proof (cases g)
    case (GetWait rx)
    with assms(3) g have "c' = fst (get_finish key rx now' (fold cache_step es c1))"
      by (simp add: cache_get_def)
    with finish [OF c2] show ?thesis by simp
  qed (use assms(3) g c1 in \<open>simp add: cache_get_def\<close>)
  show "P key v" if "r = Some (Ok read)" "cr_value read = Some v"
  proof (cases g)
    case (GetHit r0)
    with assms(1,3) g that hit show ?thesis
      by (auto simp: cache_get_def all_from_def dest: entries_from_get)
  next
    case (GetWait rx)
    with assms(3) g that have "snd (get_finish key rx now' (fold cache_step es c1)) = Some (Ok read)"
      by (simp add: cache_get_def)
    from fin [OF this] c2 that(2) show ?thesis by (auto simp: all_from_def dest: entries_from_get)
  qed
qed

section \<open>Generations\<close>

definition bumps :: "'k \<Rightarrow> ('k, 'v) cache_event \<Rightarrow> bool" where
  "bumps key e \<longleftrightarrow> e = Invalidate key \<or> e = InvalidateAll"

lemma dh_generation_set_pc [simp]:
  "dh_global_generation (set_pc rx pc c) = dh_global_generation c"
  "dh_key_generation (set_pc rx pc c) = dh_key_generation c"
  by (simp_all add: set_pc_def split: option.splits)

lemma dh_generation_send [simp]:
  "dh_global_generation (send rx r c) = dh_global_generation c"
  "dh_key_generation (send rx r c) = dh_key_generation c"
  by (simp_all add: send_def)

lemma dh_generation_store [simp]:
  "dh_global_generation (store key f now c) = dh_global_generation c"
  "dh_key_generation (store key f now c) = dh_key_generation c"
  by (simp_all add: store_def Let_def split: option.splits)

lemma dh_generation_mark [simp]:
  "dh_global_generation (mark_error key error now c) = dh_global_generation c"
  "dh_key_generation (mark_error key error now c) = dh_key_generation c"
  "dh_global_generation (store_missing key now c) = dh_global_generation c"
  "dh_key_generation (store_missing key now c) = dh_key_generation c"
  by (simp_all add: mark_error_def store_missing_def split: option.splits)

lemmas refresh_step_defs = spawn_refresh_def fetch_done_def apply_refresh_def exit_refresh_def
  refresh_def ensure_refresh_def cache_entry_def Let_def

lemma generation_step:
  "generation_of (cache_step e c) key =
     (if e = InvalidateAll then (fst (generation_of c key) + 1, 0)
      else if e = Invalidate key then (fst (generation_of c key), snd (generation_of c key) + 1)
      else generation_of c key)"
  by (cases e)
    (auto simp: generation_of_def refresh_step_defs invalidate_def invalidate_all_def
      split: option.splits task_pc.splits result.splits)

definition count :: "('a \<Rightarrow> bool) \<Rightarrow> 'a list \<Rightarrow> nat" where
  "count P xs = length (filter P xs)"

lemma generation_run:
  "fst (generation_of (fold cache_step es c) key)
     = fst (generation_of c key) + of_nat (count (\<lambda>e. e = InvalidateAll) es)"
  "InvalidateAll \<notin> set es \<Longrightarrow>
   snd (generation_of (fold cache_step es c) key)
     = snd (generation_of c key) + of_nat (count (\<lambda>e. e = Invalidate key) es)"
  by (induction es arbitrary: c) (auto simp: count_def generation_step)

lemma of_nat_u64_neq_0: "0 < n \<Longrightarrow> n < 2 ^ 64 \<Longrightarrow> (of_nat n :: u64) \<noteq> 0"
proof
  assume "0 < n" "n < 2 ^ 64" "(of_nat n :: u64) = 0"
  then have "unat (of_nat n :: u64) = 0" by simp
  with \<open>0 < n\<close> \<open>n < 2 ^ 64\<close> show False by (simp only: unat_of_nat) (simp add: take_bit_nat_eq_self)
qed

lemma count_bounds: "x \<in> set xs \<Longrightarrow> P x \<Longrightarrow> 0 < count P xs" "count P xs \<le> length xs"
  by (auto simp: count_def filter_empty_conv)

lemma generation_changes:
  assumes "e \<in> set es" and "bumps key e" and "length es < 2 ^ 64"
  shows "generation_of (fold cache_step es c) key \<noteq> generation_of c key"
proof (cases "InvalidateAll \<in> set es")
  case True
  then have "(of_nat (count (\<lambda>e. e = InvalidateAll) es) :: u64) \<noteq> 0"
    using count_bounds(1) [OF True] count_bounds(2) [of _ es] assms(3)
    by (intro of_nat_u64_neq_0) (auto intro: le_less_trans)
  with generation_run(1) [of es c key] show ?thesis by auto
next
  case False
  with assms(1,2) have e: "Invalidate key \<in> set es" by (auto simp: bumps_def)
  then have "(of_nat (count (\<lambda>e. e = Invalidate key) es) :: u64) \<noteq> 0"
    using count_bounds(1) [OF e] count_bounds(2) [of _ es] assms(3)
    by (intro of_nat_u64_neq_0) (auto intro: le_less_trans)
  with generation_run(2) [OF False, of c key] show ?thesis by auto
qed

section \<open>Properties\<close>

lemma max_step:
  "dh_max_entries (cache_step e c) = dh_max_entries c \<and> dh_max_bytes (cache_step e c) = dh_max_bytes c"
  by (cases e)
    (auto simp: refresh_step_defs invalidate_def invalidate_all_def set_pc_def send_def store_def
      store_missing_def mark_error_def split: option.splits task_pc.splits result.splits)

lemma max_run:
  "dh_max_entries (fold cache_step es c) = dh_max_entries c
   \<and> dh_max_bytes (fold cache_step es c) = dh_max_bytes c"
  by (induction es arbitrary: c) (auto simp: max_step)

text \<open>
  (C8) In every state that any interleaving of reads, refreshes and invalidations can reach, at most
  one refresh runs per key, every waiter whose channel is unanswered has a running refresh to answer
  it, no key is cached twice, and the cache is within its entry and byte limits unless it holds a
  single entry.
\<close>
theorem cache_single_flight:
  assumes c_def: "c = fold cache_step es (dht_cache_new n b)"
  shows "(\<forall>rx rx' t t'. dh_tasks c rx = Some t \<and> dh_tasks c rx' = Some t' \<and> rt_key t = rt_key t'
            \<longrightarrow> rx = rx')
     \<and> (\<forall>rx. dh_channels c rx = Some None \<longrightarrow> (\<exists>t. dh_tasks c rx = Some t))
     \<and> distinct (map fst (dh_entries c))
     \<and> (length (dh_entries c) \<le> max n 1 \<and> total_size (dh_entries c) \<le> max b 1
        \<or> length (dh_entries c) \<le> 1)"
proof -
  have inv: "cache_inv c" unfolding c_def by (rule cache.inv_always)
  have lim: "dh_max_entries c = max n 1" "dh_max_bytes c = max b 1"
    unfolding c_def by (simp_all add: max_run dht_cache_new_def)
  have "rx = rx'" if "dh_tasks c rx = Some t" "dh_tasks c rx' = Some t'" "rt_key t = rt_key t'"
    for rx rx' t t'
    using refreshes_ok_registered [of c rx t] refreshes_ok_registered [of c rx' t'] inv that
    by (simp add: cache_inv_def)
  moreover have "\<forall>rx. dh_channels c rx = Some None \<longrightarrow> (\<exists>t. dh_tasks c rx = Some t)"
    using inv by (simp add: cache_inv_def refreshes_ok_def)
  moreover have "distinct (map fst (dh_entries c))"
    using inv by (simp add: cache_inv_def entries_ok_def hm_wf_def)
  moreover have "length (dh_entries c) \<le> max n 1 \<and> total_size (dh_entries c) \<le> max b 1
      \<or> length (dh_entries c) \<le> 1"
    using inv lim by (simp add: cache_inv_def entries_ok_def within_def)
  ultimately show ?thesis by blast
qed

text \<open>
  Eviction terminates within the limits and drops only least recently used entries: it keeps a
  non-empty part of the map, and no dropped entry was used after a kept one.
\<close>
theorem evict_spec:
  assumes "hm_wf es" and "es \<noteq> []" and kept_def: "kept = evict es n b"
  shows "kept \<noteq> [] \<and> set kept \<subseteq> set es
     \<and> (length kept \<le> n \<and> total_size kept \<le> b \<or> length kept = 1)
     \<and> (\<forall>x \<in> set es - set kept. \<forall>y \<in> set kept. en_last_access (snd x) \<le> en_last_access (snd y))"
proof -
  have "kept \<noteq> []" unfolding kept_def using assms(1,2) by (rule evict_not_Nil)
  moreover have "within n b kept" unfolding kept_def by (rule evict_within)
  moreover have "length kept = 1" if "length kept \<le> 1" using that calculation(1) by (cases kept) auto
  ultimately show ?thesis
    using evict_subset [of es n b] evict_lru [OF assms(1), of _ n b]
    unfolding kept_def within_def by auto
qed

text \<open>
  A value with a version is never replaced by an older version, nor by different content of the
  same version: storing a fetched value keeps the version of the key at least as high (or evicts the
  key), and where the version stays the value stays.
\<close>
theorem store_no_rollback:
  assumes "hm_wf (dh_entries c)" and "hm_get (dh_entries c) key = Some old"
    and "en_version old = Some v" and "en_value old = Some x" and "fe_version f = Some w"
    and "hm_get (dh_entries (store key f now c)) key = Some new"
  shows "\<exists>v'. en_version new = Some v' \<and> v \<le> v' \<and> (v' = v \<longrightarrow> en_value new = Some x)"
proof -
  have put: "hm_get (evict (hm_put key e (dh_entries c)) n b) key = Some new \<Longrightarrow> new = e" for e n b
    using evict_get [OF hm_wf_put [OF assms(1)]] by fastforce
  from assms show ?thesis
    by (auto simp: store_def Let_def not_less dest!: put split: if_splits)
qed

text \<open>
  A failed refresh never costs the node a cached value: the entry keeps its value, version and
  size and only records the error, no other entry changes, and the waiters get the error.
\<close>
theorem failed_refresh_keeps_value:
  assumes "dh_tasks c rx = Some t" and "rt_pc t = Checked (Err error)"
    and "c' = apply_refresh rx now c"
  shows "hm_get (dh_entries c') (rt_key t)
       = map_option (\<lambda>e. e\<lparr>en_last_error := Some error, en_last_access := now\<rparr>)
           (hm_get (dh_entries c) (rt_key t))
     \<and> (\<forall>k. k \<noteq> rt_key t \<longrightarrow> hm_get (dh_entries c') k = hm_get (dh_entries c) k)
     \<and> dh_channels c' rx = Some (Some (Err error))"
  using assms tasks_same [OF mark_error_same [of c "rt_key t" error now]]
  by (auto simp: apply_refresh_def set_pc_def send_def mark_error_def split: option.splits)

text \<open>
  A refresh that was started before its key (or the whole cache) was invalidated does not bring
  the old value back when the network answers: fewer than \<open>2 ^ 64\<close> steps after the start, the
  comparison of generations detects the invalidation, the entries stay as they are and the waiters
  are told.
\<close>
theorem invalidated_refresh_discarded:
  assumes "dh_tasks c rx = Some t" and "rt_pc t = Fetching (generation_of c (rt_key t))"
    and "c' = fold cache_step es c" and "dh_tasks c' rx = Some t"
    and "Invalidate (rt_key t) \<in> set es \<or> InvalidateAll \<in> set es" and "length es < 2 ^ 64"
    and "c'' = fetch_done rx result c'"
  shows "dh_entries c'' = dh_entries c' \<and> dh_channels c'' rx = Some (Some (Err ''cache invalidated''))
     \<and> (\<exists>t'. dh_tasks c'' rx = Some t' \<and> rt_pc t' = Sent)"
proof -
  have "generation_of c' (rt_key t) \<noteq> generation_of c (rt_key t)"
    using assms(5) generation_changes [OF _ _ assms(6), of _ "rt_key t" c]
    unfolding assms(3) bumps_def by blast
  with assms(2,4,7) show ?thesis
    by (auto simp: fetch_done_def set_pc_def send_def)
qed

text \<open>
  Whatever the fetcher guarantees of the values it returns for a key holds of every value that
  a read of that key returns, hit or miss, in every state of every run.
\<close>
theorem cache_serves_fetched:
  assumes "valid_run (fetches P) cache_step es (dht_cache_new n b)"
    and "c = fold cache_step es (dht_cache_new n b)"
    and "snd (get_begin key now c) = GetHit read \<or> snd (get_finish key rx now c) = Some (Ok read)"
    and "cr_value read = Some v"
  shows "P key v"
proof -
  have "entries_from P (dh_entries c)"
    using served.inv_reachable [OF assms(1)] assms(2) by (simp add: all_from_def)
  moreover have "\<exists>e. hm_get (dh_entries c) key = Some e \<and> en_value e = Some v"
    using assms(3,4)
    by (auto simp: get_begin_def get_finish_def cache_entry_def Let_def read_from_def
        split: option.splits prod.splits result.splits)
  ultimately show ?thesis by (auto dest: entries_from_get)
qed

lemma evict_put_newest:
  assumes "hm_wf es" and "\<And>k e'. (k, e') \<in> set es \<Longrightarrow> en_last_access e' < en_last_access e"
  shows "hm_get (evict (hm_put key e es) n b) key = Some e"
proof -
  have wf: "hm_wf (hm_put key e es)" using assms(1) by simp
  have "(key, e) \<in> set (evict (hm_put key e es) n b)"
  proof (rule evict_keeps_newest [OF wf])
    show "(key, e) \<in> set (hm_put key e es)"
      using hm_get_eq_Some_iff [OF wf, of key e] by simp
    show "en_last_access e' < en_last_access e" if "(k', e') \<in> set (hm_put key e es)" "k' \<noteq> key" for k' e'
      using that set_hm_put [of key e es] assms(2) by auto
  qed
  then show ?thesis using wf by (simp add: hm_get_eq_Some_iff)
qed

text \<open>
  A cold read ends: it registers a refresh, and once that refresh has run the reader gets what
  the network answered: the fetched value, the absence of one, or the real error of the fetch.
\<close>
theorem cold_read_returns:
  assumes "hm_wf (dh_entries c)" and "hm_get (dh_entries c) key = None" and "dh_inflight c key = None"
    and "\<forall>(k, e) \<in> set (dh_entries c). en_last_access e < now"
    and "get_begin key now c = (c1, GetWait rx)"
    and "c2 = run_refresh rx result now (spawn_refresh rx c1)"
  shows "snd (get_finish key rx now c2) =
     Some (case result of
             Ok x \<Rightarrow> Ok \<lparr>cr_value = map_option fe_value x, cr_last_error = None\<rparr>
           | Err error \<Rightarrow> Err (Unavailable error))"
proof -
  have newest: "hm_get (evict (hm_put key e (dh_entries c)) n b) key = Some e"
    if "en_last_access e = now" for e n b
    using evict_put_newest [OF assms(1)] assms(4) that by force
  have "c1 = c\<lparr>dh_inflight := (dh_inflight c)(key \<mapsto> rx), dh_channels := (dh_channels c)(rx \<mapsto> None),
               dh_tasks := (dh_tasks c)(rx \<mapsto> \<lparr>rt_key = key, rt_pc = Starting\<rparr>),
               dh_next_channel := Suc rx\<rparr>"
    using assms(2,3,5) by (auto simp: get_begin_def cache_entry_def ensure_refresh_def Let_def)
  with assms(2,6) newest show ?thesis
    by (cases result)
      (auto simp: run_refresh_def spawn_refresh_def fetch_done_def apply_refresh_def exit_refresh_def
        set_pc_def send_def generation_of_def store_def store_missing_def mark_error_def Let_def
        get_finish_def cache_entry_def read_from_def split: option.splits)
qed

text \<open>
  (C31) The limit of that protection: the comparison of generations and the store are two critical
  sections, and an invalidation between them is lost. For every key and fetched value there is an
  interleaving in which the refresh that the invalidation should have discarded stores its value.
\<close>
theorem invalidation_race:
  "\<exists>e. hm_get (dh_entries
          (fold cache_step
             [Ensure key, Spawn 0, FetchDone 0 (Ok (Some f)), Invalidate key, Apply 0 now]
             (dht_cache_new n b))) key = Some e \<and> en_value e = Some (fe_value f)"
  by (simp add: dht_cache_new_def refresh_def ensure_refresh_def spawn_refresh_def fetch_done_def
      apply_refresh_def set_pc_def send_def generation_of_def store_def invalidate_def Let_def)

section \<open>Concrete instances\<close>

definition demo_fetched :: "nat fetched" where
  "demo_fetched = \<lparr>fe_value = 7, fe_version = Some 2, fe_size = 10\<rparr>"

definition demo_cached :: "nat entry" where
  "demo_cached = \<lparr>en_value = Some 5, en_version = Some 3, en_last_error = None, en_last_access = 1, en_size = 8\<rparr>"

text \<open>A cache that holds key 0 and has a refresh of it registered on channel 0.\<close>

definition demo_cache :: "nat task_pc \<Rightarrow> (nat, nat) dht_cache" where
  "demo_cache pc =
     \<lparr>dh_entries = [(0, demo_cached)], dh_inflight = [0 \<mapsto> 0], dh_global_generation = 0,
      dh_key_generation = Map.empty, dh_max_entries = 4, dh_max_bytes = 100,
      dh_channels = [0 \<mapsto> None], dh_tasks = [0 \<mapsto> \<lparr>rt_key = 0, rt_pc = pc\<rparr>], dh_next_channel = 1\<rparr>"

definition demo_two :: "(nat, nat) dht_cache" where
  "demo_two = fold cache_step [Ensure 0, Ensure 0] (dht_cache_new 4 4)"

theorem cache_single_flight_witness:
  "distinct (map fst (dh_entries demo_two)) \<and> (\<exists>t. dh_tasks demo_two 0 = Some t)"
proof -
  have "dh_channels demo_two 0 = Some None"
    by (simp add: demo_two_def dht_cache_new_def refresh_def ensure_refresh_def)
  with cache_single_flight [OF demo_two_def] show ?thesis by blast
qed

theorem evict_spec_witness:
  "evict [(0::nat, demo_cached), (1, demo_cached\<lparr>en_last_access := 9\<rparr>)] 1 100 \<noteq> []"
  using evict_spec [of "[(0::nat, demo_cached), (1, demo_cached\<lparr>en_last_access := 9\<rparr>)]" _ 1 100]
  by (simp add: hm_wf_def)

theorem store_no_rollback_witness:
  "\<exists>v'. en_version demo_cached = Some v' \<and> 3 \<le> v' \<and> (v' = 3 \<longrightarrow> en_value demo_cached = Some 5)"
  by (rule store_no_rollback [of "demo_cache Starting" 0 demo_cached 3 5 demo_fetched 2 9])
    (simp_all add: demo_cache_def demo_cached_def demo_fetched_def store_def hm_wf_def)

theorem failed_refresh_keeps_value_witness:
  "hm_get (dh_entries (apply_refresh 0 9 (demo_cache (Checked (Err ''no route''))))) 0
     = Some (demo_cached\<lparr>en_last_error := Some ''no route'', en_last_access := 9\<rparr>)"
  using failed_refresh_keeps_value [of "demo_cache (Checked (Err ''no route''))" 0
      "\<lparr>rt_key = 0, rt_pc = Checked (Err ''no route'')\<rparr>" "''no route''" _ 9]
  by (simp add: demo_cache_def)

theorem invalidated_refresh_discarded_witness:
  "dh_channels (fetch_done 0 (Ok (Some demo_fetched))
     (fold cache_step [Invalidate 0] (demo_cache (Fetching (0, 0))))) 0
   = Some (Some (Err ''cache invalidated''))"
  using invalidated_refresh_discarded [of "demo_cache (Fetching (0, 0))" 0
      "\<lparr>rt_key = 0, rt_pc = Fetching (0, 0)\<rparr>" _ "[Invalidate 0]" _ "Ok (Some demo_fetched)"]
  by (simp add: demo_cache_def generation_of_def invalidate_def)

definition demo_run :: "(nat, nat) cache_event list" where
  "demo_run = [Ensure 0, Spawn 0, FetchDone 0 (Ok (Some demo_fetched)), Apply 0 1, Exit 0]"

lemmas demo_run_simps = demo_run_def dht_cache_new_def refresh_def ensure_refresh_def
  spawn_refresh_def fetch_done_def apply_refresh_def exit_refresh_def set_pc_def send_def
  generation_of_def store_def Let_def

definition demo_P :: "nat \<Rightarrow> nat \<Rightarrow> bool" where
  "demo_P k v \<longleftrightarrow> v = 7 + k"

theorem cache_serves_fetched_witness: "demo_P 0 7"
proof -
  let ?P = demo_P
  have "valid_run (fetches ?P) cache_step demo_run (dht_cache_new 4 100)"
    by (simp add: demo_run_simps demo_fetched_def demo_P_def)
  moreover have "snd (get_begin 0 2 (fold cache_step demo_run (dht_cache_new 4 100)))
      = GetHit \<lparr>cr_value = Some 7, cr_last_error = None\<rparr>"
    by (simp add: demo_run_simps demo_fetched_def get_begin_def cache_entry_def read_from_def)
  ultimately show ?thesis
    using cache_serves_fetched [of ?P demo_run 4 100 _ 0 2 "\<lparr>cr_value = Some 7, cr_last_error = None\<rparr>"]
    by simp
qed

theorem cold_read_returns_witness:
  "snd (get_finish 1 1 9 (run_refresh 1 (Ok (Some demo_fetched)) 9
     (spawn_refresh 1 (fst (get_begin 1 9 (demo_cache Starting))))))
   = Some (Ok \<lparr>cr_value = Some 7, cr_last_error = None\<rparr>)"
  using cold_read_returns [of "demo_cache Starting" 1 9 "fst (get_begin 1 9 (demo_cache Starting))" 1 _
      "Ok (Some demo_fetched)"]
  by (simp add: demo_cache_def demo_cached_def demo_fetched_def get_begin_def cache_entry_def
      ensure_refresh_def hm_wf_def)

end
