(* ===== verification/NN_AuthGate.thy ===== *)
theory NN_AuthGate
  imports NN_Auth NN_DhtCache
begin

text \<open>
  The gate for inbound requests, \<open>src/src/controller/auth_gate.rs\<close>: it keeps two DHT caches (index and
  whitelists), whose fetchers verify what the network returns, and the rollback guard.

  \<open>authorize\<close> awaits the caches twice. What the executor does meanwhile is part of its input
  (\<open>auth_env\<close>): the steps of the two caches and the clock. A record key is the string it is made
  from, and a peer is given by its printed form. The answer of a DHT query is an argument of the
  fetchers.
\<close>

section \<open>State\<close>

datatype auth_state = Disabled | Active auth_net | Misconfigured string

datatype decision = Allow | AllowUnprotected | Deny string

fun show_auth_error :: "auth_error \<Rightarrow> string" where
  "show_auth_error AuthCose = ''cose envelope error''"
| "show_auth_error AuthMalformed = ''malformed auth document''"
| "show_auth_error InvalidAuthority = ''invalid authority public key''"
| "show_auth_error InvalidSignature = ''signature verification failed''"
| "show_auth_error Expired = ''auth document expired''"
| "show_auth_error Rollback = ''auth document version rollback''"
| "show_auth_error HashMismatch = ''whitelist hash/length mismatch''"
| "show_auth_error NotInIndex = ''service not listed in auth index''"
| "show_auth_error TooLarge = ''auth document too large''"
| "show_auth_error InvalidName = ''invalid network or service name''"

fun show_cache_error :: "cache_error \<Rightarrow> string" where
  "show_cache_error (Unavailable reason) = ''DHT value unavailable: '' @ reason"

text \<open>The two messages for a network without a usable key are Chinese; these are their UTF-8 bytes.\<close>

definition invalid_key_reason :: "string \<Rightarrow> auth_error \<Rightarrow> string" where
  "invalid_key_reason network e =
     from_bytes [0xE9, 0x89, 0xB4, 0xE6, 0x9D, 0x83, 0xE7, 0xBD, 0x91, 0xE7, 0xBB, 0x9C, 0x20, 0x27]
     @ network
     @ from_bytes [0x27, 0x20, 0xE6, 0x9D, 0x83, 0xE5, 0xA8, 0x81, 0xE5, 0x85, 0xAC, 0xE9, 0x92, 0xA5,
         0xE6, 0x97, 0xA0, 0xE6, 0x95, 0x88, 0x3A, 0x20]
     @ show_auth_error e"

definition missing_key_reason :: "string \<Rightarrow> string" where
  "missing_key_reason network =
     from_bytes [0xE9, 0x89, 0xB4, 0xE6, 0x9D, 0x83, 0xE7, 0xBD, 0x91, 0xE7, 0xBB, 0x9C, 0x20, 0x27]
     @ network
     @ from_bytes [0x27, 0x20, 0xE6, 0x9C, 0xAA, 0xE9, 0x85, 0x8D, 0xE7, 0xBD, 0xAE, 0xE6, 0x9D, 0x83,
         0xE5, 0xA8, 0x81, 0xE5, 0x85, 0xAC, 0xE9, 0x92, 0xA5]"

definition resolve_state :: "auth_lib \<Rightarrow> node_config \<Rightarrow> auth_state" where
  "resolve_state lib config =
     (let network = auth_network config in
      if network = ''none'' then Disabled
      else case auth_authority config network of
        Some authority \<Rightarrow>
          (case auth_net_new lib network authority of
             Ok net \<Rightarrow> Active net
           | Err e \<Rightarrow> Misconfigured (invalid_key_reason network e))
      | None \<Rightarrow> Misconfigured (missing_key_reason network))"

fun same_trust_domain :: "auth_state \<Rightarrow> auth_state \<Rightarrow> bool" where
  "same_trust_domain (Active a) (Active b) \<longleftrightarrow>
     net_hash a = net_hash b \<and> net_authority a = net_authority b"
| "same_trust_domain Disabled Disabled \<longleftrightarrow> True"
| "same_trust_domain _ _ \<longleftrightarrow> False"

record whitelist_key =
  wk_service :: string
  wk_hash :: bytes
  wk_length :: u64
  wk_index_expires_at :: u64

section \<open>Fetchers\<close>

record peer_record =
  pr_peer :: "peer_id option"
  pr_value :: bytes

text \<open>
  \<open>select_index\<close> and \<open>select_whitelist\<close> are the same loop over the documents that verify;
  \<open>version\<close> reads the version of a document.
\<close>

fun select_loop ::
    "(bytes \<Rightarrow> ('d, auth_error) result) \<Rightarrow> ('d \<Rightarrow> u64) \<Rightarrow> string \<Rightarrow> peer_record list
       \<Rightarrow> ('d \<times> nat) option \<Rightarrow> (('d \<times> nat) option, string) result" where
  "select_loop verify version conflict [] best = Ok best"
| "select_loop verify version conflict (record # records) best =
     (case verify (pr_value record) of
        Err _ \<Rightarrow> select_loop verify version conflict records best
      | Ok doc \<Rightarrow>
          (let size = length (pr_value record) in
           case best of
             None \<Rightarrow> select_loop verify version conflict records (Some (doc, size))
           | Some (current, n) \<Rightarrow>
               if version doc > version current
               then select_loop verify version conflict records (Some (doc, size))
               else if version doc = version current \<and> doc \<noteq> current then Err conflict
               else select_loop verify version conflict records best))"

definition select_index ::
    "auth_lib \<Rightarrow> peer_record list \<Rightarrow> auth_net \<Rightarrow> u64 \<Rightarrow> ((index_doc \<times> nat) option, string) result" where
  "select_index lib records net now =
     select_loop (\<lambda>value. verify_index lib net value now) ix_version
       ''conflicting auth index content for the same version'' records None"

definition select_whitelist ::
    "auth_lib \<Rightarrow> peer_record list \<Rightarrow> auth_net \<Rightarrow> whitelist_key \<Rightarrow> service_entry
       \<Rightarrow> ((whitelist_doc \<times> nat) option, string) result" where
  "select_whitelist lib records net key entry =
     select_loop (\<lambda>value. verify_whitelist lib net (wk_service key) value entry) wd_version
       ''conflicting whitelist content for the same version'' records None"

definition index_fetch ::
    "auth_lib \<Rightarrow> auth_net \<Rightarrow> (peer_record list, string) result \<Rightarrow> u64 \<Rightarrow> index_doc fetch_result" where
  "index_fetch lib net answer now =
     rbind answer (\<lambda>records.
       map_ok (map_option (\<lambda>(doc, size). \<lparr>fe_value = doc, fe_version = Some (ix_version doc), fe_size = size\<rparr>))
         (select_index lib records net now))"

definition whitelist_fetch ::
    "auth_lib \<Rightarrow> auth_net \<Rightarrow> whitelist_key \<Rightarrow> (peer_record list, string) result \<Rightarrow> whitelist_doc fetch_result" where
  "whitelist_fetch lib net key answer =
     rbind (map_err show_auth_error (service_key net (wk_service key))) (\<lambda>record_key.
     rbind answer (\<lambda>records.
       (let entry = \<lparr>se_name = wk_service key, se_hash = wk_hash key, se_length = wk_length key\<rparr> in
        map_ok (map_option (\<lambda>(doc, size). \<lparr>fe_value = doc, fe_version = Some (wd_version doc), fe_size = size\<rparr>))
          (select_whitelist lib records net key entry))))"

section \<open>The gate\<close>

record auth_caches =
  ca_index :: "(string, index_doc) dht_cache"
  ca_whitelist :: "(whitelist_key, whitelist_doc) dht_cache"

definition build_caches :: auth_caches where
  "build_caches =
     \<lparr>ca_index = dht_cache_new 1024 (push_bit 20 64), ca_whitelist = dht_cache_new 1024 (push_bit 20 64)\<rparr>"

record auth_gate =
  ag_config :: node_config
  ag_state :: auth_state
  ag_caches :: "auth_caches option"
  ag_versions :: auth_versions

definition gate_new :: "auth_lib \<Rightarrow> node_config \<Rightarrow> auth_gate" where
  "gate_new lib config =
     (let state = resolve_state lib config in
      \<lparr>ag_config = config, ag_state = state,
       ag_caches = (case state of Active _ \<Rightarrow> Some build_caches | _ \<Rightarrow> None),
       ag_versions = auth_versions_new\<rparr>)"

definition reload :: "auth_lib \<Rightarrow> auth_gate \<Rightarrow> auth_gate" where
  "reload lib g =
     (let next = resolve_state lib (ag_config g);
          same_domain = same_trust_domain (ag_state g) next;
          versions = (if \<not> same_domain then versions_clear (ag_versions g) else ag_versions g);
          caches = (case (next, same_domain) of
                      (Active net, True) \<Rightarrow>
                        (if ag_caches g = None then Some build_caches else ag_caches g)
                    | _ \<Rightarrow> (case next of Active net \<Rightarrow> Some build_caches | _ \<Rightarrow> None))
      in g\<lparr>ag_state := next, ag_caches := caches, ag_versions := versions\<rparr>)"

definition gate_invalidate_all :: "auth_gate \<Rightarrow> auth_gate" where
  "gate_invalidate_all g =
     (case ag_caches g of
        None \<Rightarrow> g
      | Some ca \<Rightarrow>
          g\<lparr>ag_caches := Some (ca\<lparr>ca_index := invalidate_all (ca_index ca),
                                  ca_whitelist := invalidate_all (ca_whitelist ca)\<rparr>)\<rparr>)"

text \<open>What the executor and the clock do during one call of \<open>authorize\<close>.\<close>

record auth_env =
  ev_start :: instant
  ev_index_events :: "(string, index_doc) cache_event list"
  ev_index_read :: instant
  ev_now_unix :: u64
  ev_whitelist_start :: instant
  ev_whitelist_events :: "(whitelist_key, whitelist_doc) cache_event list"
  ev_whitelist_read :: instant

text \<open>From the whitelist query to the verdict.\<close>

definition authorize_whitelist ::
    "auth_env \<Rightarrow> string \<Rightarrow> string \<Rightarrow> whitelist_key \<Rightarrow> auth_caches \<Rightarrow> auth_gate
       \<Rightarrow> auth_gate \<times> decision option" where
  "authorize_whitelist env target service key ca g =
     (case cache_get key (ev_whitelist_start env) (ev_whitelist_events env) (ev_whitelist_read env)
             (ca_whitelist ca) of
        (wc, None) \<Rightarrow> (g\<lparr>ag_caches := Some (ca\<lparr>ca_whitelist := wc\<rparr>)\<rparr>, None)
      | (wc, Some (Err e)) \<Rightarrow>
          (g\<lparr>ag_caches := Some (ca\<lparr>ca_whitelist := wc\<rparr>)\<rparr>,
           Some (Deny (''whitelist query failed: '' @ show_cache_error e)))
      | (wc, Some (Ok read)) \<Rightarrow>
          (case cr_value read of
             None \<Rightarrow> (g\<lparr>ag_caches := Some (ca\<lparr>ca_whitelist := wc\<rparr>)\<rparr>, Some (Deny ''whitelist unavailable''))
           | Some whitelist \<Rightarrow>
               (case check_whitelist service (wd_version whitelist) (ag_versions g) of
                  (vs, Err _) \<Rightarrow>
                    (g\<lparr>ag_versions := vs, ag_caches := Some (ca\<lparr>ca_whitelist := invalidate key wc\<rparr>)\<rparr>,
                     Some (Deny ''whitelist rollback''))
                | (vs, Ok _) \<Rightarrow>
                    (g\<lparr>ag_versions := vs, ag_caches := Some (ca\<lparr>ca_whitelist := wc\<rparr>)\<rparr>,
                     Some (if list_ex (\<lambda>m. m = target) (wd_members whitelist) then Allow
                           else Deny ''peer not authorized'')))))"

text \<open>From the index query to the whitelist query: a verdict, or the key of the whitelist.\<close>

definition authorize_lookup ::
    "auth_env \<Rightarrow> string \<Rightarrow> auth_net \<Rightarrow> auth_caches \<Rightarrow> auth_gate
       \<Rightarrow> auth_gate \<times> (decision option + whitelist_key \<times> auth_caches)" where
  "authorize_lookup env service net ca g =
     (case cache_get (index_key net) (ev_start env) (ev_index_events env) (ev_index_read env) (ca_index ca) of
        (ic, None) \<Rightarrow> (g\<lparr>ag_caches := Some (ca\<lparr>ca_index := ic\<rparr>)\<rparr>, Inl None)
      | (ic, Some (Err e)) \<Rightarrow>
          (g\<lparr>ag_caches := Some (ca\<lparr>ca_index := ic\<rparr>)\<rparr>,
           Inl (Some (Deny (''auth index query failed: '' @ show_cache_error e))))
      | (ic, Some (Ok read)) \<Rightarrow>
          (let ca = ca\<lparr>ca_index := ic\<rparr>; g = g\<lparr>ag_caches := Some ca\<rparr> in
           case cr_value read of
             None \<Rightarrow> (g, Inl (Some (Deny ''auth index unavailable'')))
           | Some index \<Rightarrow>
               if ev_now_unix env > ix_expires_at index
               then (g, Inl (Some (Deny ''auth index expired'')))
               else
                 (case check_index (ix_version index) (ag_versions g) of
                    (vs, Err _) \<Rightarrow>
                      (g\<lparr>ag_versions := vs,
                         ag_caches := Some (ca\<lparr>ca_index := invalidate (index_key net) ic\<rparr>)\<rparr>,
                       Inl (Some (Deny ''auth index rollback'')))
                  | (vs, Ok _) \<Rightarrow>
                      (let g = g\<lparr>ag_versions := vs\<rparr> in
                       case find (\<lambda>e. se_name e = service) (ix_services index) of
                         None \<Rightarrow> (g, Inl (Some AllowUnprotected))
                       | Some entry \<Rightarrow>
                           (g, Inr (\<lparr>wk_service = service, wk_hash = se_hash entry,
                                     wk_length = se_length entry,
                                     wk_index_expires_at = ix_expires_at index\<rparr>, ca))))))"

definition authorize_index ::
    "auth_env \<Rightarrow> string \<Rightarrow> string \<Rightarrow> auth_net \<Rightarrow> auth_caches \<Rightarrow> auth_gate
       \<Rightarrow> auth_gate \<times> decision option" where
  "authorize_index env target service net ca g =
     (case authorize_lookup env service net ca g of
        (g1, Inl d) \<Rightarrow> (g1, d)
      | (g1, Inr (key, ca1)) \<Rightarrow> authorize_whitelist env target service key ca1 g1)"

definition authorize ::
    "auth_env \<Rightarrow> string \<Rightarrow> string \<Rightarrow> auth_gate \<Rightarrow> auth_gate \<times> decision option" where
  "authorize env target service g =
     (case ag_state g of
        Disabled \<Rightarrow> (g, Some Allow)
      | Misconfigured reason \<Rightarrow> (g, Some (Deny reason))
      | Active net \<Rightarrow>
          if \<not> service_requires_auth (ag_config g) service then (g, Some Allow)
          else case ag_caches g of
            None \<Rightarrow> (g, Some (Deny ''auth caches unavailable''))
          | Some ca \<Rightarrow> authorize_index env target service net ca g)"

fun state_label :: "auth_state \<Rightarrow> string \<times> string option" where
  "state_label Disabled = (''disabled'', None)"
| "state_label (Active _) = (''active'', None)"
| "state_label (Misconfigured r) = (''misconfigured'', Some r)"

section \<open>Selecting among the answers\<close>

lemma select_loop_Ok:
  assumes "select_loop verify version conflict records best = Ok r"
  shows "(case r of
            None \<Rightarrow> best = None \<and> (\<forall>x \<in> set records. \<forall>d. verify (pr_value x) \<noteq> Ok d)
          | Some (d, n) \<Rightarrow>
              (best = Some (d, n) \<or> (\<exists>x \<in> set records. verify (pr_value x) = Ok d \<and> n = length (pr_value x)))
              \<and> (\<forall>b m. best = Some (b, m) \<longrightarrow> version b \<le> version d)
              \<and> (\<forall>x \<in> set records. \<forall>d'. verify (pr_value x) = Ok d' \<longrightarrow>
                   version d' \<le> version d \<and> (version d' = version d \<longrightarrow> d' = d))
              \<and> (\<forall>b m. best = Some (b, m) \<and> version b = version d \<longrightarrow> b = d))"
  using assms
proof (induction records arbitrary: best)
  case Nil
  then show ?case by (auto split: option.split)
next
  case (Cons x records)
  show ?case
  proof (cases "verify (pr_value x)")
    case (Err e)
    with Cons show ?thesis by (fastforce split: option.splits)
  next
    case (Ok doc)
    show ?thesis
    proof (cases best)
      case None
      with Cons Ok show ?thesis by (fastforce simp: Let_def split: option.splits)
    next
      case (Some b)
      with Cons Ok show ?thesis
        by (cases b) (fastforce simp: Let_def split: option.splits if_splits)
    qed
  qed
qed

text \<open>Two different documents of one version, among the verified records and the best so far.\<close>

definition clash :: "(bytes \<Rightarrow> ('d, auth_error) result) \<Rightarrow> ('d \<Rightarrow> u64) \<Rightarrow> peer_record list
    \<Rightarrow> ('d \<times> nat) option \<Rightarrow> bool" where
  "clash verify version records best \<longleftrightarrow>
     (\<exists>d d'. d \<noteq> d' \<and> version d = version d'
        \<and> (\<exists>x \<in> set records. verify (pr_value x) = Ok d')
        \<and> ((\<exists>n. best = Some (d, n)) \<or> (\<exists>x \<in> set records. verify (pr_value x) = Ok d)))"

lemma clash_skip: "clash verify version records best \<Longrightarrow> clash verify version (x # records) best"
  unfolding clash_def by (metis list.set_intros(2))

lemma clash_take:
  assumes "clash verify version records (Some (doc, n))" and "verify (pr_value x) = Ok doc"
  shows "clash verify version (x # records) best"
proof -
  from assms(1) obtain d d' where "d \<noteq> d'" "version d = version d'"
    "\<exists>x \<in> set records. verify (pr_value x) = Ok d'"
    "d = doc \<or> (\<exists>x \<in> set records. verify (pr_value x) = Ok d)"
    unfolding clash_def by blast
  with assms(2) show ?thesis
    unfolding clash_def by (intro exI [of _ d] exI [of _ d']) auto
qed

lemma select_loop_Err:
  "select_loop verify version conflict records best = Err e \<Longrightarrow>
     e = conflict \<and> clash verify version records best"
proof (induction records arbitrary: best)
  case (Cons x records)
  show ?case
  proof (cases "verify (pr_value x)")
    case (Err e')
    with Cons show ?thesis by (auto intro: clash_skip)
  next
    case (Ok doc)
    have take: "e = conflict \<and> clash verify version (x # records) best"
      if "select_loop verify version conflict records (Some (doc, n)) = Err e" for n
      using Cons.IH [OF that] clash_take [of verify version records doc n x best] Ok by blast
    have here: "clash verify version (x # records) (Some (cur, m))"
      if "version doc = version cur" "doc \<noteq> cur" for cur m
      using that Ok unfolding clash_def by (intro exI [of _ cur] exI [of _ doc]) auto
    show ?thesis
      using Cons.prems Ok take here Cons.IH [of best] clash_skip
      by (cases best) (auto simp: Let_def split: if_splits prod.splits)
  qed
qed simp

text \<open>What the two fetchers guarantee of the documents they put into the caches.\<close>

definition index_ok :: "auth_lib \<Rightarrow> auth_net \<Rightarrow> string \<Rightarrow> index_doc \<Rightarrow> bool" where
  "index_ok lib net key doc \<longleftrightarrow> (\<exists>t. index_trusted lib net t doc)"

definition whitelist_ok :: "auth_lib \<Rightarrow> auth_net \<Rightarrow> whitelist_key \<Rightarrow> whitelist_doc \<Rightarrow> bool" where
  "whitelist_ok lib net key doc \<longleftrightarrow>
     (\<exists>value. whitelist_trusted lib net (wk_service key) value
        \<lparr>se_name = wk_service key, se_hash = wk_hash key, se_length = wk_length key\<rparr> doc)"

lemma select_loop_verified:
  assumes "select_loop verify version conflict records None = Ok (Some (d, n))"
  shows "\<exists>x \<in> set records. verify (pr_value x) = Ok d"
  using select_loop_Ok [OF assms] by auto

lemmas fetch_iffs = result_iffs eq_commute [of "Some _" "map_option _ _"]

lemma index_fetch_ok: "index_fetch lib net answer now = Ok (Some f) \<Longrightarrow> index_ok lib net key (fe_value f)"
  by (fastforce simp: index_fetch_def fetch_iffs select_index_def index_ok_def
      dest!: select_loop_verified verify_index_trusted)

lemma whitelist_fetch_ok:
  "whitelist_fetch lib net key answer = Ok (Some f) \<Longrightarrow> whitelist_ok lib net key (fe_value f)"
  by (fastforce simp: whitelist_fetch_def fetch_iffs select_whitelist_def whitelist_ok_def Let_def
      dest!: select_loop_verified verify_whitelist_trusted)

text \<open>The refreshes of the two caches are answered by their fetchers.\<close>

fun index_events :: "auth_lib \<Rightarrow> auth_net \<Rightarrow> (string, index_doc) cache_event
    \<Rightarrow> (string, index_doc) dht_cache \<Rightarrow> bool" where
  "index_events lib net (FetchDone rx result) c \<longleftrightarrow> (\<exists>answer now. result = index_fetch lib net answer now)"
| "index_events lib net _ c \<longleftrightarrow> True"

fun whitelist_events :: "auth_lib \<Rightarrow> auth_net \<Rightarrow> (whitelist_key, whitelist_doc) cache_event
    \<Rightarrow> (whitelist_key, whitelist_doc) dht_cache \<Rightarrow> bool" where
  "whitelist_events lib net (FetchDone rx result) c \<longleftrightarrow>
     (case dh_tasks c rx of
        None \<Rightarrow> True
      | Some t \<Rightarrow> \<exists>answer. result = whitelist_fetch lib net (rt_key t) answer)"
| "whitelist_events lib net _ c \<longleftrightarrow> True"

lemma index_events_fetch: "index_events lib net e c \<Longrightarrow> fetches (index_ok lib net) e c"
proof (cases e)
  case (FetchDone rx r)
  then show "index_events lib net e c \<Longrightarrow> ?thesis"
    by (cases "(index_ok lib net, e, c)" rule: fetches.cases)
      (auto split: option.splits dest: index_fetch_ok [OF sym])
qed auto

lemma whitelist_events_fetch: "whitelist_events lib net e c \<Longrightarrow> fetches (whitelist_ok lib net) e c"
proof (cases e)
  case (FetchDone rx r)
  then show "whitelist_events lib net e c \<Longrightarrow> ?thesis"
    by (cases "(whitelist_ok lib net, e, c)" rule: fetches.cases)
      (auto split: option.splits dest: whitelist_fetch_ok [OF sym])
qed auto

section \<open>The gate as a system of steps\<close>

datatype gate_event =
    GSetConfig node_config
  | GReload
  | GInvalidateAll
  | GIndexStep "(string, index_doc) cache_event"
  | GWhitelistStep "(whitelist_key, whitelist_doc) cache_event"
  | GAuthorize auth_env string string

definition on_caches :: "(auth_caches \<Rightarrow> auth_caches) \<Rightarrow> auth_gate \<Rightarrow> auth_gate" where
  "on_caches f g = g\<lparr>ag_caches := map_option f (ag_caches g)\<rparr>"

fun gate_step :: "auth_lib \<Rightarrow> gate_event \<Rightarrow> auth_gate \<Rightarrow> auth_gate" where
  "gate_step lib (GSetConfig c) g = g\<lparr>ag_config := c\<rparr>"
| "gate_step lib GReload g = reload lib g"
| "gate_step lib GInvalidateAll g = gate_invalidate_all g"
| "gate_step lib (GIndexStep e) g = on_caches (\<lambda>ca. ca\<lparr>ca_index := cache_step e (ca_index ca)\<rparr>) g"
| "gate_step lib (GWhitelistStep e) g =
     on_caches (\<lambda>ca. ca\<lparr>ca_whitelist := cache_step e (ca_whitelist ca)\<rparr>) g"
| "gate_step lib (GAuthorize env target service) g = fst (authorize env target service g)"

text \<open>The environment answers every refresh through the fetchers of the current network.\<close>

fun gate_enabled :: "auth_lib \<Rightarrow> gate_event \<Rightarrow> auth_gate \<Rightarrow> bool" where
  "gate_enabled lib (GIndexStep e) g \<longleftrightarrow>
     (\<forall>net ca. ag_state g = Active net \<and> ag_caches g = Some ca \<longrightarrow> index_events lib net e (ca_index ca))"
| "gate_enabled lib (GWhitelistStep e) g \<longleftrightarrow>
     (\<forall>net ca. ag_state g = Active net \<and> ag_caches g = Some ca
        \<longrightarrow> whitelist_events lib net e (ca_whitelist ca))"
| "gate_enabled lib (GAuthorize env target service) g \<longleftrightarrow>
     (\<forall>net ca. ag_state g = Active net \<and> ag_caches g = Some ca \<longrightarrow>
        valid_run (index_events lib net) cache_step (ev_index_events env)
          (fst (get_begin (index_key net) (ev_start env) (ca_index ca)))
        \<and> (\<forall>g1 key ca1. authorize_lookup env service net ca g = (g1, Inr (key, ca1)) \<longrightarrow>
              valid_run (whitelist_events lib net) cache_step (ev_whitelist_events env)
                (fst (get_begin key (ev_whitelist_start env) (ca_whitelist ca1)))))"
| "gate_enabled lib _ g \<longleftrightarrow> True"

text \<open>
  The caches exist exactly while authentication is active, and hold only documents that verified
  for the current network and authority.
\<close>

definition caches_ok :: "auth_lib \<Rightarrow> auth_net \<Rightarrow> auth_caches \<Rightarrow> bool" where
  "caches_ok lib net ca \<longleftrightarrow>
     all_from (index_ok lib net) (ca_index ca) \<and> all_from (whitelist_ok lib net) (ca_whitelist ca)"

definition gate_inv :: "auth_lib \<Rightarrow> auth_gate \<Rightarrow> bool" where
  "gate_inv lib g \<longleftrightarrow>
     (case ag_state g of
        Active net \<Rightarrow> \<exists>ca. ag_caches g = Some ca \<and> caches_ok lib net ca
      | _ \<Rightarrow> ag_caches g = None)"

lemma caches_ok_build [simp]: "caches_ok lib net build_caches"
  by (simp add: caches_ok_def build_caches_def served.inv_init)

lemma same_trust_domain_iff:
  "same_trust_domain (Active a) s \<longleftrightarrow> s = Active a"
  by (cases s) auto

lemma gate_inv_reload: "gate_inv lib g \<Longrightarrow> gate_inv lib (reload lib g)"
proof (cases "resolve_state lib (ag_config g)")
  case (Active net)
  assume inv: "gate_inv lib g"
  show ?thesis
  proof (cases "same_trust_domain (ag_state g) (Active net)")
    case True
    then have "ag_state g = Active net" by (cases "ag_state g") auto
    with inv Active True show ?thesis by (auto simp: gate_inv_def reload_def Let_def)
  next
    case False
    with Active show ?thesis by (simp add: gate_inv_def reload_def Let_def)
  qed
qed (simp_all add: gate_inv_def reload_def Let_def)

lemma all_from_invalidate [intro]: "all_from P c \<Longrightarrow> all_from P (invalidate key c)"
  using all_from_step [of P c "Invalidate key"] by simp

lemma all_from_invalidate_all [intro]: "all_from P c \<Longrightarrow> all_from P (invalidate_all c)"
  using all_from_step [of P c InvalidateAll] by simp

lemma gate_inv_on_caches:
  assumes "gate_inv lib g"
    and "\<And>net ca. ag_state g = Active net \<Longrightarrow> ag_caches g = Some ca \<Longrightarrow> caches_ok lib net ca
      \<Longrightarrow> caches_ok lib net (f ca)"
  shows "gate_inv lib (on_caches f g)"
  using assms by (auto simp: gate_inv_def on_caches_def split: auth_state.splits)

text \<open>Each query keeps the caches sound, and what it returns has been verified.\<close>

lemma index_query:
  assumes "caches_ok lib net ca"
    and "valid_run (index_events lib net) cache_step es (fst (get_begin key now (ca_index ca)))"
    and "cache_get key now es now' (ca_index ca) = (ic, r)"
  shows "caches_ok lib net (ca\<lparr>ca_index := ic\<rparr>)"
    and "r = Some (Ok read) \<Longrightarrow> cr_value read = Some doc \<Longrightarrow> \<exists>t. index_trusted lib net t doc"
proof -
  have run: "valid_run (fetches (index_ok lib net)) cache_step es (fst (get_begin key now (ca_index ca)))"
    using assms(2) index_events_fetch by (rule valid_run_mono)
  note from_cache = cache_get_from [OF _ run assms(3)]
  show "caches_ok lib net (ca\<lparr>ca_index := ic\<rparr>)"
    using assms(1) from_cache(1) by (simp add: caches_ok_def)
  show "\<exists>t. index_trusted lib net t doc" if "r = Some (Ok read)" "cr_value read = Some doc"
    using assms(1) from_cache(2) [OF _ that] by (simp add: caches_ok_def index_ok_def)
qed

lemma whitelist_query:
  assumes "caches_ok lib net ca"
    and "valid_run (whitelist_events lib net) cache_step es (fst (get_begin key now (ca_whitelist ca)))"
    and "cache_get key now es now' (ca_whitelist ca) = (wc, r)"
  shows "caches_ok lib net (ca\<lparr>ca_whitelist := wc\<rparr>)"
    and "r = Some (Ok read) \<Longrightarrow> cr_value read = Some doc \<Longrightarrow> whitelist_ok lib net key doc"
proof -
  have run: "valid_run (fetches (whitelist_ok lib net)) cache_step es
      (fst (get_begin key now (ca_whitelist ca)))"
    using assms(2) whitelist_events_fetch by (rule valid_run_mono)
  note from_cache = cache_get_from [OF _ run assms(3)]
  show "caches_ok lib net (ca\<lparr>ca_whitelist := wc\<rparr>)"
    using assms(1) from_cache(1) by (simp add: caches_ok_def)
  show "whitelist_ok lib net key doc" if "r = Some (Ok read)" "cr_value read = Some doc"
    using assms(1) from_cache(2) [OF _ that] by (simp add: caches_ok_def)
qed

lemma caches_ok_invalidate_whitelist:
  "caches_ok lib net (ca\<lparr>ca_whitelist := wc\<rparr>) \<Longrightarrow> caches_ok lib net (ca\<lparr>ca_whitelist := invalidate key wc\<rparr>)"
  by (auto simp: caches_ok_def)

lemma caches_ok_invalidate_index:
  "caches_ok lib net (ca\<lparr>ca_index := ic\<rparr>) \<Longrightarrow> caches_ok lib net (ca\<lparr>ca_index := invalidate key ic\<rparr>)"
  by (auto simp: caches_ok_def)

text \<open>What a call leaves behind: sound caches, and the state it started from.\<close>

definition kept :: "auth_lib \<Rightarrow> auth_net \<Rightarrow> auth_gate \<Rightarrow> auth_gate \<Rightarrow> bool" where
  "kept lib net g g' \<longleftrightarrow>
     ag_state g' = ag_state g \<and> (\<exists>ca. ag_caches g' = Some ca \<and> caches_ok lib net ca)"

lemma authorize_whitelist_ok:
  assumes "caches_ok lib net ca"
    and "valid_run (whitelist_events lib net) cache_step (ev_whitelist_events env)
          (fst (get_begin key (ev_whitelist_start env) (ca_whitelist ca)))"
    and "authorize_whitelist env target service key ca g = (g', d)"
  shows "kept lib net g g' \<and> d \<noteq> Some AllowUnprotected
     \<and> (d = Some Allow \<longrightarrow> (\<exists>doc. whitelist_ok lib net key doc \<and> target \<in> set (wd_members doc)))"
proof -
  obtain wc r where q: "cache_get key (ev_whitelist_start env) (ev_whitelist_events env)
      (ev_whitelist_read env) (ca_whitelist ca) = (wc, r)" by fastforce
  note wq = whitelist_query [OF assms(1,2) q]
  from assms(3) wq caches_ok_invalidate_whitelist [OF wq(1)] show ?thesis
    unfolding authorize_whitelist_def q kept_def
    by (auto simp: list_ex_iff split: option.splits result.splits prod.splits if_splits)
qed

definition entitled :: "auth_lib \<Rightarrow> auth_net \<Rightarrow> string \<Rightarrow> string \<Rightarrow> u64 \<Rightarrow> bool" where
  "entitled lib net service target now \<longleftrightarrow>
     (\<exists>index entry value doc.
        index_trusted lib net now index \<and> find (\<lambda>e. se_name e = service) (ix_services index) = Some entry
        \<and> whitelist_trusted lib net service value entry doc \<and> target \<in> set (wd_members doc))"

definition unlisted :: "auth_lib \<Rightarrow> auth_net \<Rightarrow> string \<Rightarrow> u64 \<Rightarrow> bool" where
  "unlisted lib net service now \<longleftrightarrow>
     (\<exists>index. index_trusted lib net now index \<and> service \<notin> se_name ` set (ix_services index))"

lemma find_entry:
  assumes "find (\<lambda>e. se_name e = service) es = Some entry"
  shows "entry = \<lparr>se_name = service, se_hash = se_hash entry, se_length = se_length entry\<rparr>"
proof -
  from assms have "se_name entry = service" by (auto simp: find_Some_iff)
  then show ?thesis by (cases entry) simp
qed

lemma authorize_lookup_ok:
  assumes "caches_ok lib net ca"
    and "valid_run (index_events lib net) cache_step (ev_index_events env)
          (fst (get_begin (index_key net) (ev_start env) (ca_index ca)))"
    and "authorize_lookup env service net ca g = (g1, r)"
  shows "kept lib net g g1
     \<and> (case r of
          Inl d \<Rightarrow> d \<noteq> Some Allow \<and> (d = Some AllowUnprotected \<longrightarrow> unlisted lib net service (ev_now_unix env))
        | Inr (key, ca1) \<Rightarrow> ag_caches g1 = Some ca1 \<and> wk_service key = service
            \<and> (\<exists>index entry. index_trusted lib net (ev_now_unix env) index
                 \<and> find (\<lambda>e. se_name e = service) (ix_services index) = Some entry
                 \<and> wk_hash key = se_hash entry \<and> wk_length key = se_length entry))"
proof -
  obtain ic q where q: "cache_get (index_key net) (ev_start env) (ev_index_events env)
      (ev_index_read env) (ca_index ca) = (ic, q)" by fastforce
  note iq = index_query [OF assms(1,2) q]
  have trusted: "index_trusted lib net (ev_now_unix env) index"
    if "q = Some (Ok read)" "cr_value read = Some index" "\<not> ev_now_unix env > ix_expires_at index"
    for read index
    using iq(2) [OF that(1,2)] that(3) by (auto simp: index_trusted_def not_less)
  show ?thesis
    using assms(3) iq(1) caches_ok_invalidate_index [OF iq(1), of "index_key net"]
    unfolding authorize_lookup_def q kept_def unlisted_def
    by (auto simp: Let_def find_None_iff split: option.splits result.splits prod.splits if_splits)
      (metis trusted imageE, metis trusted)
qed

lemma authorize_index_ok:
  assumes "caches_ok lib net ca"
    and "valid_run (index_events lib net) cache_step (ev_index_events env)
          (fst (get_begin (index_key net) (ev_start env) (ca_index ca)))"
    and "\<And>g1 key ca1. authorize_lookup env service net ca g = (g1, Inr (key, ca1)) \<Longrightarrow>
          valid_run (whitelist_events lib net) cache_step (ev_whitelist_events env)
            (fst (get_begin key (ev_whitelist_start env) (ca_whitelist ca1)))"
    and "authorize_index env target service net ca g = (g', d)"
  shows "kept lib net g g' \<and> (d = Some Allow \<longrightarrow> entitled lib net service target (ev_now_unix env))
     \<and> (d = Some AllowUnprotected \<longrightarrow> unlisted lib net service (ev_now_unix env))"
proof -
  obtain g1 r where lookup: "authorize_lookup env service net ca g = (g1, r)" by fastforce
  note ok = authorize_lookup_ok [OF assms(1,2) lookup]
  show ?thesis
  proof (cases r)
    case (Inl v)
    with assms(4) lookup ok show ?thesis by (auto simp: authorize_index_def)
  next
    case (Inr kc)
    obtain key ca1 where kc: "kc = (key, ca1)" by fastforce
    from ok Inr kc obtain index entry where k: "kept lib net g g1" "ag_caches g1 = Some ca1"
      "wk_service key = service" "index_trusted lib net (ev_now_unix env) index"
      "find (\<lambda>e. se_name e = service) (ix_services index) = Some entry"
      "wk_hash key = se_hash entry" "wk_length key = se_length entry" by auto
    from k(1,2) have ca1: "caches_ok lib net ca1" by (auto simp: kept_def)
    from assms(4) lookup Inr kc have "authorize_whitelist env target service key ca1 g1 = (g', d)"
      by (simp add: authorize_index_def)
    from authorize_whitelist_ok [OF ca1 assms(3) this] lookup Inr kc
    have "kept lib net g1 g'" "d \<noteq> Some AllowUnprotected"
      "d = Some Allow \<longrightarrow> (\<exists>doc. whitelist_ok lib net key doc \<and> target \<in> set (wd_members doc))"
      by simp_all
    with k find_entry [OF k(5)] show ?thesis
      by (auto simp: kept_def entitled_def whitelist_ok_def)
  qed
qed

lemma authorize_sound:
  assumes "gate_inv lib g" and "gate_enabled lib (GAuthorize env target service) g"
    and "authorize env target service g = (g', d)"
  shows "gate_inv lib g'"
    and "d = Some Allow \<Longrightarrow>
      ag_state g = Disabled \<or> (\<exists>net. ag_state g = Active net
        \<and> (service_requires_auth (ag_config g) service \<longrightarrow> entitled lib net service target (ev_now_unix env)))"
    and "d = Some AllowUnprotected \<Longrightarrow>
      \<exists>net. ag_state g = Active net \<and> unlisted lib net service (ev_now_unix env)"
proof -
  have main: "kept lib net g g' \<and> (d = Some Allow \<longrightarrow> entitled lib net service target (ev_now_unix env))
     \<and> (d = Some AllowUnprotected \<longrightarrow> unlisted lib net service (ev_now_unix env))"
    if "ag_state g = Active net" "service_requires_auth (ag_config g) service" for net
  proof -
    from assms(1) that obtain ca where "ag_caches g = Some ca" "caches_ok lib net ca"
      by (auto simp: gate_inv_def)
    with assms(2,3) that show ?thesis
      by (intro authorize_index_ok [of lib net ca env service g target g' d])
        (auto simp: authorize_def)
  qed
  show "gate_inv lib g'"
    using assms(1,3) main
    by (auto simp: authorize_def gate_inv_def kept_def split: auth_state.splits if_splits)
  show "d = Some Allow \<Longrightarrow>
      ag_state g = Disabled \<or> (\<exists>net. ag_state g = Active net
        \<and> (service_requires_auth (ag_config g) service \<longrightarrow> entitled lib net service target (ev_now_unix env)))"
    using assms(3) main by (auto simp: authorize_def split: auth_state.splits if_splits)
  show "d = Some AllowUnprotected \<Longrightarrow>
      \<exists>net. ag_state g = Active net \<and> unlisted lib net service (ev_now_unix env)"
    using assms(3) main by (auto simp: authorize_def split: auth_state.splits if_splits)
qed

lemma gate_inv_step:
  assumes "gate_inv lib g" and "gate_enabled lib e g"
  shows "gate_inv lib (gate_step lib e g)"
proof (cases e)
  case (GAuthorize env target service)
  with assms authorize_sound(1) [of lib g env target service] show ?thesis
    by (metis gate_step.simps(6) prod.collapse)
next
  case (GIndexStep ev)
  with assms show ?thesis
    by (auto intro!: gate_inv_on_caches all_from_step simp: caches_ok_def intro: index_events_fetch)
next
  case (GWhitelistStep ev)
  with assms show ?thesis
    by (auto intro!: gate_inv_on_caches all_from_step simp: caches_ok_def intro: whitelist_events_fetch)
qed (use assms gate_inv_reload in \<open>auto simp: gate_inv_def gate_invalidate_all_def caches_ok_def
      split: auth_state.splits option.splits\<close>)

interpretation gate: guarded_system "gate_new lib config" "gate_enabled lib" "gate_step lib" "gate_inv lib"
  for lib config
proof unfold_locales
  show "gate_inv lib (gate_new lib config)"
    by (auto simp: gate_inv_def gate_new_def Let_def split: auth_state.splits)
qed (rule gate_inv_step)

section \<open>Properties\<close>

lemma index_trusted_issued:
  assumes "index_trusted lib net now index" and "tbs_binds lib"
    and "signs_only lib (net_authority net) issued"
  shows "\<exists>p. (as_bytes (index_key net), p) \<in> issued \<and> al_index_dec lib p = Some index"
  using assms signed_by_issued [OF _ assms(2,3)] by (auto simp: index_trusted_def)

lemma whitelist_trusted_issued:
  assumes "whitelist_trusted lib net service value entry doc" and "tbs_binds lib"
    and "signs_only lib (net_authority net) issued"
  shows "\<exists>key p. service_key net service = Ok key \<and> (as_bytes key, p) \<in> issued
     \<and> al_whitelist_dec lib p = Some doc"
  using assms signed_by_issued [OF _ assms(2,3)] by (auto simp: whitelist_trusted_def)

text \<open>
  (C2) Access control end to end. Take any run of the gate from its creation (configuration changes,
  reloads, invalidations, cache refreshes with whatever the DHT returned, other authorizations). If
  authentication is active and the service requires it, a request is allowed only if the authority
  has signed an index of this network that is unexpired now and lists the service, and has signed a
  whitelist of this service that names the requesting peer.
\<close>
theorem authorize_allows_only_whitelisted:
  assumes "valid_run (gate_enabled lib) (gate_step lib) es (gate_new lib config)"
    and "g = fold (gate_step lib) es (gate_new lib config)"
    and "gate_enabled lib (GAuthorize env target service) g"
    and "snd (authorize env target service g) = Some Allow"
    and "ag_state g = Active net" and "service_requires_auth (ag_config g) service"
    and "tbs_binds lib" and "signs_only lib (net_authority net) issued"
  shows "\<exists>index p key q doc.
     (as_bytes (index_key net), p) \<in> issued \<and> al_index_dec lib p = Some index
     \<and> ev_now_unix env \<le> ix_expires_at index \<and> service \<in> se_name ` set (ix_services index)
     \<and> service_key net service = Ok key \<and> (as_bytes key, q) \<in> issued
     \<and> al_whitelist_dec lib q = Some doc \<and> target \<in> set (wd_members doc)"
proof -
  have "gate_inv lib g" using gate.inv_reachable [OF assms(1)] assms(2) by simp
  from authorize_sound(2) [OF this assms(3)] assms(4-6)
  have "entitled lib net service target (ev_now_unix env)"
    by (metis auth_state.distinct(1) auth_state.inject(1) prod.collapse)
  then obtain index entry val doc where e: "index_trusted lib net (ev_now_unix env) index"
    "find (\<lambda>e. se_name e = service) (ix_services index) = Some entry"
    "whitelist_trusted lib net service val entry doc" "target \<in> set (wd_members doc)"
    by (auto simp: entitled_def)
  have "service \<in> se_name ` set (ix_services index)"
    using e(2) by (force simp: find_Some_iff)
  moreover have "ev_now_unix env \<le> ix_expires_at index" using e(1) by (simp add: index_trusted_def)
  ultimately show ?thesis
    using index_trusted_issued [OF e(1) assms(7,8)] whitelist_trusted_issued [OF e(3) assms(7,8)] e(4)
    by blast
qed

text \<open>
  The only other way past an active gate is the documented one: a request to a service that
  requires authentication is let through unprotected only if an index signed by the authority and
  unexpired now does not list that service. In particular a missing, expired or unverifiable index
  never opens the gate.
\<close>
theorem authorize_unprotected_only_unlisted:
  assumes "valid_run (gate_enabled lib) (gate_step lib) es (gate_new lib config)"
    and "g = fold (gate_step lib) es (gate_new lib config)"
    and "gate_enabled lib (GAuthorize env target service) g"
    and "snd (authorize env target service g) = Some AllowUnprotected"
  shows "\<exists>net index. ag_state g = Active net \<and> index_trusted lib net (ev_now_unix env) index
     \<and> service \<notin> se_name ` set (ix_services index)"
proof -
  have "gate_inv lib g" using gate.inv_reachable [OF assms(1)] assms(2) by simp
  from authorize_sound(3) [OF this assms(3)] assms(4) show ?thesis
    unfolding unlisted_def by (metis prod.collapse)
qed

text \<open>
  Among the answers of the DHT, honest or not, the fetcher of the index takes a verified
  document of the highest version: it returns nothing only if no answer verifies, a document only if
  every verified answer has a lower version or is the same document, and an error only if two
  verified answers of one version differ. Answers that do not verify have no influence.
\<close>
theorem select_index_spec:
  "case select_index lib records net now of
     Ok None \<Rightarrow> \<forall>r \<in> set records. \<not> is_ok (verify_index lib net (pr_value r) now)
   | Ok (Some (d, n)) \<Rightarrow>
       (\<exists>r \<in> set records. verify_index lib net (pr_value r) now = Ok d \<and> n = length (pr_value r))
       \<and> (\<forall>r \<in> set records. \<forall>d'. verify_index lib net (pr_value r) now = Ok d' \<longrightarrow>
            ix_version d' < ix_version d \<or> d' = d)
   | Err e \<Rightarrow>
       \<exists>r \<in> set records. \<exists>r' \<in> set records. \<exists>d d'. d \<noteq> d' \<and> ix_version d = ix_version d'
         \<and> verify_index lib net (pr_value r) now = Ok d \<and> verify_index lib net (pr_value r') now = Ok d'"
proof (cases "select_index lib records net now")
  case (Ok r)
  have none: "\<not> is_ok x \<longleftrightarrow> (\<forall>d. x \<noteq> Ok d)" for x :: "(index_doc, auth_error) result"
    by (cases x) auto
  from select_loop_Ok [OF Ok [unfolded select_index_def]] Ok show ?thesis
    by (auto simp: none le_less split: option.splits)
next
  case (Err e)
  from select_loop_Err [OF Err [unfolded select_index_def]] Err show ?thesis
    unfolding clash_def by fastforce
qed

text \<open>
  A reload that changes the network or the authority key forgets the version history and every
  cached record, so nothing verified for the old trust domain is used in the new one; a reload within
  an active domain keeps both.
\<close>
theorem reload_trust_domain:
  assumes "valid_run (gate_enabled lib) (gate_step lib) es (gate_new lib config)"
    and "g = fold (gate_step lib) es (gate_new lib config)"
  shows "ag_state (reload lib g) = resolve_state lib (ag_config g)
     \<and> (same_trust_domain (ag_state g) (ag_state (reload lib g)) \<longrightarrow> reload lib g = g)
     \<and> (\<not> same_trust_domain (ag_state g) (ag_state (reload lib g)) \<longrightarrow>
          ag_versions (reload lib g) = auth_versions_new
          \<and> ag_caches (reload lib g) \<in> {None, Some build_caches})"
proof -
  have inv: "gate_inv lib g" using gate.inv_reachable [OF assms(1)] assms(2) by simp
  have "reload lib g = g" if "same_trust_domain (ag_state g) (resolve_state lib (ag_config g))"
  proof (cases "resolve_state lib (ag_config g)")
    case (Active net)
    with that have "ag_state g = Active net" by (cases "ag_state g") auto
    with Active inv that show ?thesis by (auto simp: reload_def Let_def gate_inv_def)
  next
    case Disabled
    with that have "ag_state g = Disabled" by (cases "ag_state g") auto
    with Disabled inv show ?thesis by (auto simp: reload_def Let_def gate_inv_def)
  next
    case (Misconfigured r)
    with that show ?thesis by (cases "ag_state g") auto
  qed
  moreover have "ag_state (reload lib g) = resolve_state lib (ag_config g)"
    by (simp add: reload_def Let_def)
  ultimately show ?thesis
    by (auto simp: reload_def Let_def versions_clear_def auth_versions_new_def split: auth_state.splits)
qed

section \<open>A concrete instance\<close>

text \<open>A fresh gate on the network of \<open>NN_Auth\<close>, asked about a peer on the whitelist of \<open>db\<close>.\<close>

definition demo_config :: node_config where
  "demo_config =
     node_config_default
       \<lparr>cfg_auth := \<lparr>ac_network = ''net'', ac_networks = [''net'' \<mapsto> \<lparr>an_authority = [CHR 0x09]\<rparr>]\<rparr>,
        cfg_services := services_config_default
          \<lparr>sv_dispatcher := dispatcher_config_default
             \<lparr>dc_local_services := [\<lparr>ls_name = ''db'', ls_port = 5432, ls_require_auth = True\<rparr>,
                                    \<lparr>ls_name = ''web'', ls_port = 8080, ls_require_auth = True\<rparr>]\<rparr>\<rparr>\<rparr>"

definition refresh_events :: "'v fetch_result \<Rightarrow> ('k, 'v) cache_event list" where
  "refresh_events r = [Spawn 0, FetchDone 0 r, Apply 0 1, Exit 0]"

definition demo_answer :: "u8 \<Rightarrow> peer_record list" where
  "demo_answer b = [\<lparr>pr_peer = None, pr_value = [b]\<rparr>]"

definition demo_key :: whitelist_key where
  "demo_key = \<lparr>wk_service = ''db'', wk_hash = replicate 32 0, wk_length = 1, wk_index_expires_at = 1000\<rparr>"

definition demo_auth_env :: auth_env where
  "demo_auth_env =
     \<lparr>ev_start = 0,
      ev_index_events = refresh_events (index_fetch demo_lib demo_net (Ok (demo_answer 11)) 7),
      ev_index_read = 2, ev_now_unix = 7, ev_whitelist_start = 0,
      ev_whitelist_events = refresh_events (whitelist_fetch demo_lib demo_net demo_key (Ok (demo_answer 12))),
      ev_whitelist_read = 2\<rparr>"

lemma demo_index_fetch:
  "index_fetch demo_lib demo_net (Ok (demo_answer 11)) 7
     = Ok (Some \<lparr>fe_value = demo_index, fe_version = Some 5, fe_size = 1\<rparr>)"
  by (simp add: index_fetch_def select_index_def demo_answer_def demo_verify_index Let_def)
    (simp add: demo_index_def)

lemma demo_whitelist_fetch:
  "whitelist_fetch demo_lib demo_net demo_key (Ok (demo_answer 12))
     = Ok (Some \<lparr>fe_value = demo_whitelist, fe_version = Some 3, fe_size = 1\<rparr>)"
proof -
  have "\<lparr>se_name = ''db'', se_hash = wk_hash demo_key, se_length = wk_length demo_key\<rparr> = demo_entry"
    and "wk_service demo_key = ''db''" by (simp_all add: demo_key_def demo_entry_def)
  then show ?thesis
    by (simp add: whitelist_fetch_def select_whitelist_def demo_answer_def demo_verify_whitelist
        demo_db_key Let_def) (simp add: demo_whitelist_def)
qed

lemma refresh_events_read:
  "\<exists>c. cache_get key 0 (refresh_events (Ok (Some f))) 2 (dht_cache_new n b)
     = (c, Some (Ok \<lparr>cr_value = Some (fe_value f), cr_last_error = None\<rparr>))"
  by (simp add: refresh_events_def cache_get_def get_begin_def get_finish_def cache_entry_def
      read_from_def demo_run_simps)

lemma demo_gate_state: "ag_state (gate_new demo_lib demo_config) = Active demo_net"
proof -
  have "is_valid_network_name ''net''"
    by (simp add: is_valid_network_name_def is_ascii_alphanumeric_def less_eq_char_def)
  then have "auth_net_new demo_lib ''net'' [CHR 0x09] = Ok demo_net"
    by (simp add: auth_net_new_def parse_authority_def hash_network_name_def demo_lib_def
        demo_net_def as_bytes_def)
  then show ?thesis
    by (simp add: gate_new_def resolve_state_def auth_network_def auth_authority_def demo_config_def Let_def)
qed

lemma demo_gate_caches: "ag_caches (gate_new demo_lib demo_config) = Some build_caches"
  using demo_gate_state by (auto simp: gate_new_def Let_def)

lemma demo_gate_versions: "ag_versions (gate_new demo_lib demo_config) = auth_versions_new"
  by (simp add: gate_new_def Let_def)

lemma demo_lookup:
  "\<exists>g1 ca. authorize_lookup demo_auth_env ''db'' demo_net build_caches (gate_new demo_lib demo_config)
     = (g1, Inr (demo_key, ca)) \<and> ca_whitelist ca = dht_cache_new 1024 (push_bit 20 64)
     \<and> ag_versions g1 = auth_versions_new\<lparr>av_index := Some 5\<rparr>"
proof -
  obtain c where c: "cache_get (index_key demo_net) 0
      (refresh_events (Ok (Some \<lparr>fe_value = demo_index, fe_version = Some 5, fe_size = 1\<rparr>))) 2
      (dht_cache_new 1024 (push_bit 20 64))
     = (c, Some (Ok \<lparr>cr_value = Some demo_index, cr_last_error = None\<rparr>))"
    using refresh_events_read [of "index_key demo_net" "\<lparr>fe_value = demo_index, fe_version = Some 5, fe_size = 1\<rparr>"]
    by auto
  show ?thesis
    unfolding authorize_lookup_def demo_auth_env_def build_caches_def
    by (simp add: c [simplified] demo_index_fetch Let_def demo_gate_versions check_index_def auth_versions_new_def)
      (simp add: demo_index_def demo_entry_def demo_key_def)
qed

lemma demo_authorize:
  "snd (authorize demo_auth_env ''alice'' ''db'' (gate_new demo_lib demo_config)) = Some Allow"
proof -
  obtain g1 ca where l: "authorize_lookup demo_auth_env ''db'' demo_net build_caches
      (gate_new demo_lib demo_config) = (g1, Inr (demo_key, ca))"
    "ca_whitelist ca = dht_cache_new 1024 (push_bit 20 64)"
    "ag_versions g1 = auth_versions_new\<lparr>av_index := Some 5\<rparr>" using demo_lookup by blast
  obtain c where c: "cache_get demo_key 0
      (refresh_events (Ok (Some \<lparr>fe_value = demo_whitelist, fe_version = Some 3, fe_size = 1\<rparr>))) 2
      (dht_cache_new 1024 (push_bit 20 64))
     = (c, Some (Ok \<lparr>cr_value = Some demo_whitelist, cr_last_error = None\<rparr>))"
    using refresh_events_read [of demo_key "\<lparr>fe_value = demo_whitelist, fe_version = Some 3, fe_size = 1\<rparr>"]
    by auto
  have "service_requires_auth (ag_config (gate_new demo_lib demo_config)) ''db''"
    by (simp add: gate_new_def Let_def service_requires_auth_def local_services_def demo_config_def)
  then have "snd (authorize demo_auth_env ''alice'' ''db'' (gate_new demo_lib demo_config))
      = snd (authorize_whitelist demo_auth_env ''alice'' ''db'' demo_key ca g1)"
    by (simp add: authorize_def demo_gate_state demo_gate_caches authorize_index_def l)
  also have "\<dots> = Some Allow"
    unfolding authorize_whitelist_def l(2,3) demo_auth_env_def
    by (simp add: c [simplified] demo_whitelist_fetch l [simplified] check_whitelist_def auth_versions_new_def)
      (simp add: demo_whitelist_def)
  finally show ?thesis .
qed

lemma demo_index_valid:
  "valid_run (index_events demo_lib demo_net) cache_step (ev_index_events demo_auth_env) c"
  by (auto simp: demo_auth_env_def refresh_events_def simp del: cache_step.simps)

lemma demo_whitelist_valid:
  "valid_run (whitelist_events demo_lib demo_net) cache_step (ev_whitelist_events demo_auth_env)
     (fst (get_begin demo_key 0 (dht_cache_new n b)))"
  by (auto simp: demo_auth_env_def refresh_events_def get_begin_def cache_entry_def dht_cache_new_def
      ensure_refresh_def spawn_refresh_def set_pc_def)

lemma demo_enabled:
  "gate_enabled demo_lib (GAuthorize demo_auth_env ''alice'' ''db'') (gate_new demo_lib demo_config)"
  using demo_lookup demo_index_valid demo_whitelist_valid
  by (auto simp: demo_gate_state demo_gate_caches) (simp add: demo_auth_env_def)

lemma demo_requires:
  "service_requires_auth (ag_config (gate_new demo_lib demo_config)) ''db''"
  "service_requires_auth (ag_config (gate_new demo_lib demo_config)) ''web''"
  by (simp_all add: gate_new_def Let_def service_requires_auth_def local_services_def demo_config_def)

theorem authorize_allows_only_whitelisted_witness:
  "\<exists>index p key q doc.
     (as_bytes (index_key demo_net), p) \<in> set demo_issued \<and> al_index_dec demo_lib p = Some index
     \<and> ev_now_unix demo_auth_env \<le> ix_expires_at index \<and> ''db'' \<in> se_name ` set (ix_services index)
     \<and> service_key demo_net ''db'' = Ok key \<and> (as_bytes key, q) \<in> set demo_issued
     \<and> al_whitelist_dec demo_lib q = Some doc \<and> ''alice'' \<in> set (wd_members doc)"
  by (rule authorize_allows_only_whitelisted [of demo_lib "[]" demo_config, OF _ refl])
    (simp_all add: demo_enabled demo_authorize demo_gate_state demo_requires demo_tbs_binds
      demo_signs_only del: gate_enabled.simps)

lemma demo_lookup_web:
  "\<exists>g1. authorize_lookup demo_auth_env ''web'' demo_net build_caches (gate_new demo_lib demo_config)
     = (g1, Inl (Some AllowUnprotected))"
proof -
  obtain c where c: "cache_get (index_key demo_net) 0
      (refresh_events (Ok (Some \<lparr>fe_value = demo_index, fe_version = Some 5, fe_size = 1\<rparr>))) 2
      (dht_cache_new 1024 (push_bit 20 64))
     = (c, Some (Ok \<lparr>cr_value = Some demo_index, cr_last_error = None\<rparr>))"
    using refresh_events_read [of "index_key demo_net" "\<lparr>fe_value = demo_index, fe_version = Some 5, fe_size = 1\<rparr>"]
    by auto
  show ?thesis
    unfolding authorize_lookup_def demo_auth_env_def build_caches_def
    by (simp add: c [simplified] demo_index_fetch Let_def demo_gate_versions check_index_def auth_versions_new_def)
      (simp add: demo_index_def demo_entry_def)
qed

theorem authorize_unprotected_only_unlisted_witness:
  "\<exists>net index. ag_state (gate_new demo_lib demo_config) = Active net
     \<and> index_trusted demo_lib net (ev_now_unix demo_auth_env) index
     \<and> ''web'' \<notin> se_name ` set (ix_services index)"
proof (rule authorize_unprotected_only_unlisted [of demo_lib "[]" demo_config])
  show "snd (authorize demo_auth_env ''alice'' ''web'' (gate_new demo_lib demo_config)) = Some AllowUnprotected"
    using demo_lookup_web
    by (auto simp: authorize_def demo_gate_state demo_gate_caches demo_requires authorize_index_def)
  show "gate_enabled demo_lib (GAuthorize demo_auth_env ''alice'' ''web'') (gate_new demo_lib demo_config)"
    using demo_lookup_web demo_index_valid by (auto simp: demo_gate_state demo_gate_caches)
qed simp_all

theorem select_index_spec_witness:
  "case select_index demo_lib (demo_answer 11 @ demo_answer 13) demo_net 7 of
     Ok (Some (d, n)) \<Rightarrow> d = demo_index \<or> ix_version demo_index < ix_version d | _ \<Rightarrow> True"
  using select_index_spec [where lib = demo_lib and records = "demo_answer 11 @ demo_answer 13"
      and net = demo_net and now = 7]
  by (auto simp: demo_answer_def demo_verify_index split: result.splits option.splits)

theorem reload_trust_domain_witness:
  "ag_state (reload demo_lib (gate_new demo_lib demo_config)) = Active demo_net
   \<and> reload demo_lib (gate_new demo_lib demo_config) = gate_new demo_lib demo_config"
proof -
  have s: "resolve_state demo_lib (ag_config (gate_new demo_lib demo_config)) = Active demo_net"
    using demo_gate_state by (simp add: gate_new_def Let_def)
  from reload_trust_domain [of demo_lib "[]" demo_config, OF _ refl] show ?thesis
    by (simp add: s demo_gate_state)
qed

end
