(* ===== verification/NN_Peers.thy ===== *)
theory NN_Peers
  imports NN_AuthGate
begin

text \<open>
  Peers: their round-trip times and failures (\<open>src/src/controller/peer_tracker.rs\<close>), the bootstrap
  nodes among them (\<open>src/src/controller/bootstrap.rs\<close>) and the fetchers of plain records and provider
  lists (\<open>src/src/controller/dht_fetchers.rs\<close>).

  The lemmas show that the tracker implements its specification over the history of pings, that the
  provider it picks has the lowest known round-trip time, which addresses enter the bootstrap list,
  and which of the records of the DHT is served.
\<close>

section \<open>Peer tracker\<close>

record peer_tracker =
  pt_rtts :: "peer_id \<rightharpoonup> duration"
  pt_failures :: "peer_id \<rightharpoonup> u32"

definition peer_tracker_new :: "peer_id \<Rightarrow> peer_tracker" where
  "peer_tracker_new my_peer_id = \<lparr>pt_rtts = [my_peer_id \<mapsto> 0], pt_failures = Map.empty\<rparr>"

record ping_event =
  pe_peer :: peer_id
  pe_result :: "(duration, string) result"

definition on_ping :: "ping_event \<Rightarrow> u32 \<Rightarrow> peer_tracker \<Rightarrow> peer_tracker \<times> peer_id option" where
  "on_ping event max_failures t =
     (let peer = pe_peer event in
      case pe_result event of
        Ok rtt \<Rightarrow>
          (t\<lparr>pt_rtts := (pt_rtts t)(peer \<mapsto> rtt), pt_failures := (pt_failures t)(peer := None)\<rparr>, None)
      | Err e \<Rightarrow>
          (let t = t\<lparr>pt_rtts := (pt_rtts t)(peer := None)\<rparr> in
           if max_failures = 0 then (t, None)
           else
             (let count = (case pt_failures t peer of None \<Rightarrow> 0 | Some c \<Rightarrow> c) + 1 in
              if count \<ge> max_failures
              then (t\<lparr>pt_failures := (pt_failures t)(peer := None)\<rparr>, Some peer)
              else (t\<lparr>pt_failures := (pt_failures t)(peer \<mapsto> count)\<rparr>, None))))"

text \<open>\<open>Iterator::min_by_key\<close>: the first of the elements with the least key.\<close>

fun min_by_key :: "('a \<Rightarrow> 'b::linorder) \<Rightarrow> 'a list \<Rightarrow> 'a option" where
  "min_by_key key [] = None"
| "min_by_key key (x # xs) =
     (case min_by_key key xs of
        None \<Rightarrow> Some x
      | Some y \<Rightarrow> if key y < key x then Some y else Some x)"

definition best_peer :: "peer_id list \<Rightarrow> peer_tracker \<Rightarrow> peer_id option" where
  "best_peer providers t =
     map_option fst (min_by_key snd
       (List.map_filter (\<lambda>p. map_option (\<lambda>rtt. (p, rtt)) (pt_rtts t p)) providers))"

section \<open>Fetchers\<close>

definition find_rev :: "('a \<Rightarrow> bool) \<Rightarrow> 'a list \<Rightarrow> 'a option" where
  "find_rev P xs = List.find P (rev xs)"

text \<open>The last record that came from a peer, else the last one of the local store.\<close>

definition generic_record_fetch :: "(peer_record list, string) result \<Rightarrow> bytes fetch_result" where
  "generic_record_fetch answer =
     rbind answer (\<lambda>records.
       (let selected =
              (case find_rev (\<lambda>r. pr_peer r \<noteq> None) records of
                 Some r \<Rightarrow> Some r
               | None \<Rightarrow> (if records = [] then None else Some (last records)))
        in Ok (map_option (\<lambda>r. \<lparr>fe_value = pr_value r, fe_version = None, fe_size = length (pr_value r)\<rparr>)
             selected)))"

text \<open>\<open>peer_id_size\<close> is \<open>size_of::<PeerId>()\<close>.\<close>

definition provider_fetch :: "nat \<Rightarrow> (peer_id list, string) result \<Rightarrow> peer_id list fetch_result" where
  "provider_fetch peer_id_size answer =
     rbind answer (\<lambda>providers.
       Ok (Some \<lparr>fe_value = providers, fe_version = None, fe_size = length providers * peer_id_size\<rparr>))"

section \<open>Bootstrap discovery\<close>

definition BOOTSTRAP_PROVIDER_KEY :: string where
  "BOOTSTRAP_PROVIDER_KEY = ''/oahd/bootstrap''"

record bootstrap_discovery =
  bd_is_bootstrap_provider :: bool

definition bootstrap_new :: bootstrap_discovery where
  "bootstrap_new = \<lparr>bd_is_bootstrap_provider = False\<rparr>"

definition bootstrap_reset :: "bootstrap_discovery \<Rightarrow> bootstrap_discovery" where
  "bootstrap_reset b = b\<lparr>bd_is_bootstrap_provider := False\<rparr>"

text \<open>\<open>answer\<close> is what \<open>start_providing\<close> returns; the second component tells whether it is called.\<close>

definition announce_self ::
    "node_config \<Rightarrow> (unit, string) result \<Rightarrow> bootstrap_discovery \<Rightarrow> bootstrap_discovery \<times> bool" where
  "announce_self config answer b =
     (if bd_is_bootstrap_provider b \<or> \<not> allow_bootstrap config then (b, False)
      else
        (let dual_stack = nc_ipv4_enabled (cfg_network config) \<and> nc_ipv6_enabled (cfg_network config) in
         if \<not> dual_stack then (b, False)
         else case answer of
           Ok _ \<Rightarrow> (b\<lparr>bd_is_bootstrap_provider := True\<rparr>, True)
         | Err e \<Rightarrow> (b, True)))"

fun is_ip4 :: "protocol \<Rightarrow> bool" where
  "is_ip4 (Ip4 _) = True"
| "is_ip4 _ = False"

fun is_ip6 :: "protocol \<Rightarrow> bool" where
  "is_ip6 (Ip6 _) = True"
| "is_ip6 _ = False"

fun is_p2p :: "protocol \<Rightarrow> bool" where
  "is_p2p (P2p _) = True"
| "is_p2p _ = False"

definition is_dual_stack_addrs :: "multiaddr list \<Rightarrow> bool" where
  "is_dual_stack_addrs addrs \<longleftrightarrow> list_ex (list_ex is_ip4) addrs \<and> list_ex (list_ex is_ip6) addrs"

definition with_peer :: "peer_id \<Rightarrow> multiaddr \<Rightarrow> multiaddr" where
  "with_peer peer_id addr = (if list_ex is_p2p addr then addr else addr @ [P2p peer_id])"

fun pick_addrs :: "peer_id \<Rightarrow> multiaddr list \<Rightarrow> multiaddr option \<times> multiaddr option
    \<Rightarrow> multiaddr option \<times> multiaddr option" where
  "pick_addrs peer_id [] (v4, v6) = (v4, v6)"
| "pick_addrs peer_id (addr # addrs) (v4, v6) =
     (let full = with_peer peer_id addr in
      if list_ex is_ip4 addr \<and> v4 = None then pick_addrs peer_id addrs (Some full, v6)
      else if list_ex is_ip6 addr \<and> v6 = None then pick_addrs peer_id addrs (v4, Some full)
      else pick_addrs peer_id addrs (v4, v6))"

definition bootstrap_addrs_from :: "multiaddr list \<Rightarrow> peer_id \<Rightarrow> multiaddr list" where
  "bootstrap_addrs_from addrs peer_id =
     (case pick_addrs peer_id addrs (None, None) of (v4, v6) \<Rightarrow> List.map_filter id [v4, v6])"

definition push_new :: "multiaddr \<Rightarrow> multiaddr list \<Rightarrow> multiaddr list" where
  "push_new addr nodes = (if addr \<in> set nodes then nodes else nodes @ [addr])"

type_synonym provider_cache = "(string, peer_id list) dht_cache"

text \<open>The last component tells whether the configuration is saved.\<close>

definition on_identify ::
    "multiaddr list \<Rightarrow> peer_id \<Rightarrow> instant \<Rightarrow> node_config \<Rightarrow> provider_cache
       \<Rightarrow> node_config \<times> provider_cache \<times> bool" where
  "on_identify listen_addrs peer_id now config cache =
     (if \<not> accept_bootstrap_providers config then (config, cache, False)
      else if \<not> is_dual_stack_addrs listen_addrs then (config, cache, False)
      else
        (let key = BOOTSTRAP_PROVIDER_KEY in
         case peek key now (refresh key cache) of
           (cache, None) \<Rightarrow> (config, cache, False)
         | (cache, Some read) \<Rightarrow>
             (let providers = (case cr_value read of None \<Rightarrow> [] | Some ps \<Rightarrow> ps);
                  candidates = bootstrap_addrs_from listen_addrs peer_id;
                  nodes = fold push_new candidates (bootstrap_nodes config)
              in if peer_id \<notin> set providers then (config, cache, False)
                 else if candidates = [] then (config, cache, False)
                 else if nodes \<noteq> bootstrap_nodes config
                 then (set_bootstrap_nodes nodes config, cache, True)
                 else (config, cache, False))))"

section \<open>The tracker against its history\<close>

text \<open>
  The specification: the number of failures of a peer since its last success, and its last
  measured round-trip time.
\<close>

fun streak :: "peer_id \<Rightarrow> ping_event list \<Rightarrow> nat" where
  "streak p [] = 0"
| "streak p (e # es) =
     (if pe_peer e \<noteq> p then streak p es
      else case pe_result e of Ok rtt \<Rightarrow> 0 | Err e \<Rightarrow> Suc (streak p es))"

fun last_rtt :: "peer_id \<Rightarrow> peer_id \<Rightarrow> ping_event list \<Rightarrow> duration option" where
  "last_rtt me p [] = (if p = me then Some 0 else None)"
| "last_rtt me p (e # es) =
     (if pe_peer e \<noteq> p then last_rtt me p es
      else case pe_result e of Ok rtt \<Rightarrow> Some rtt | Err e \<Rightarrow> None)"

text \<open>The newest event is the head of a history.\<close>

definition tracked_after :: "u32 \<Rightarrow> peer_id \<Rightarrow> ping_event list \<Rightarrow> peer_tracker" where
  "tracked_after max_failures me es = foldr (\<lambda>e t. fst (on_ping e max_failures t)) es (peer_tracker_new me)"

definition count_for :: "u32 \<Rightarrow> nat \<Rightarrow> u32 option" where
  "count_for max_failures k =
     (if max_failures = 0 \<or> k mod unat max_failures = 0 then None
      else Some (of_nat (k mod unat max_failures)))"

lemma count_for_step:
  assumes "max_failures \<noteq> 0"
  shows "(case count_for max_failures k of None \<Rightarrow> 0 | Some c \<Rightarrow> c) + 1 \<ge> max_failures
       \<longleftrightarrow> Suc k mod unat max_failures = 0"
    and "Suc k mod unat max_failures \<noteq> 0 \<Longrightarrow>
       (case count_for max_failures k of None \<Rightarrow> 0 | Some c \<Rightarrow> c) + 1 = of_nat (Suc k mod unat max_failures)"
proof -
  let ?n = "unat max_failures" and ?r = "k mod unat max_failures"
  have n: "0 < ?n" using assms by (simp add: unat_gt_0)
  have r: "?r < ?n" using n by simp
  have n32: "?n < 2 ^ 32" using unsigned_less [of max_failures] by simp
  have c: "(case count_for max_failures k of None \<Rightarrow> 0 | Some c \<Rightarrow> c) + 1 = (of_nat (Suc ?r) :: u32)"
    using assms by (simp add: count_for_def)
  have u: "unat (of_nat (Suc ?r) :: u32) = Suc ?r"
    using r n32 by (intro trans [OF unat_of_nat]) (simp add: take_bit_nat_eq_self)
  have m: "Suc k mod ?n = (if Suc ?r = ?n then 0 else Suc ?r)" by (simp add: mod_Suc)
  show "(case count_for max_failures k of None \<Rightarrow> 0 | Some c \<Rightarrow> c) + 1 \<ge> max_failures
       \<longleftrightarrow> Suc k mod ?n = 0"
    unfolding c word_le_nat_alt u m using r by auto
  show "(case count_for max_failures k of None \<Rightarrow> 0 | Some c \<Rightarrow> c) + 1 = of_nat (Suc k mod ?n)"
    if "Suc k mod ?n \<noteq> 0"
    using that unfolding c m by (simp split: if_splits)
qed

lemma tracked_after_spec:
  "pt_failures (tracked_after max_failures me es) p = count_for max_failures (streak p es)
   \<and> pt_rtts (tracked_after max_failures me es) p = last_rtt me p es"
proof (induction es)
  case Nil
  then show ?case by (simp add: tracked_after_def peer_tracker_new_def count_for_def)
next
  case (Cons e es)
  let ?t = "tracked_after max_failures me es"
  have step: "tracked_after max_failures me (e # es) = fst (on_ping e max_failures ?t)"
    by (simp add: tracked_after_def)
  show ?case
  proof (cases "pe_result e")
    case (Ok rtt)
    with Cons show ?thesis by (simp add: step on_ping_def Let_def count_for_def)
  next
    case (Err x)
    show ?thesis
    proof (cases "pe_peer e = p \<and> max_failures \<noteq> 0")
      case True
      with Cons Err count_for_step [of max_failures "streak p es"] show ?thesis
        by (auto simp: step on_ping_def Let_def count_for_def [of _ "Suc (streak p es)"])
    next
      case False
      with Cons Err show ?thesis
        by (auto simp: step on_ping_def Let_def count_for_def)
    qed
  qed
qed

section \<open>Choosing a provider\<close>

lemma min_by_key_None [simp]: "min_by_key key xs = None \<longleftrightarrow> xs = []"
  by (cases xs) (auto split: option.split)

lemma min_by_key_Some:
  "min_by_key key xs = Some x \<Longrightarrow>
     \<exists>ys zs. xs = ys @ x # zs \<and> (\<forall>y \<in> set ys. key x < key y) \<and> (\<forall>z \<in> set zs. key x \<le> key z)"
proof (induction xs arbitrary: x)
  case (Cons w ws)
  show ?case
  proof (cases "min_by_key key ws")
    case None
    with Cons.prems show ?thesis by (intro exI [of _ "[]"] exI [of _ ws]) simp
  next
    case (Some y)
    from Cons.IH [OF this] obtain ys zs where ws: "ws = ys @ y # zs"
      "\<forall>v \<in> set ys. key y < key v" "\<forall>z \<in> set zs. key y \<le> key z" by blast
    show ?thesis
    proof (cases "key y < key w")
      case True
      with Some Cons.prems ws show ?thesis by (intro exI [of _ "w # ys"] exI [of _ zs]) simp
    next
      case False
      with Some Cons.prems have "x = w" by simp
      moreover have "key w \<le> key v" if "v \<in> set ws" for v using False ws that by force
      ultimately show ?thesis by (intro exI [of _ "[]"] exI [of _ ws]) simp
    qed
  qed
qed simp

lemma best_peer_None: "best_peer providers t = None \<longleftrightarrow> (\<forall>p \<in> set providers. pt_rtts t p = None)"
  by (induction providers) (auto simp: best_peer_def List.map_filter_def split: if_splits)

lemma best_peer_Some:
  assumes "best_peer providers t = Some p"
  shows "p \<in> set providers \<and> (\<exists>rtt. pt_rtts t p = Some rtt
     \<and> (\<forall>q \<in> set providers. \<forall>rtt'. pt_rtts t q = Some rtt' \<longrightarrow> rtt \<le> rtt'))"
proof -
  let ?xs = "List.map_filter (\<lambda>p. map_option (\<lambda>rtt. (p, rtt)) (pt_rtts t p)) providers"
  obtain rtt where m: "min_by_key snd ?xs = Some (p, rtt)" using assms by (auto simp: best_peer_def)
  have set: "(q, r) \<in> set ?xs \<longleftrightarrow> q \<in> set providers \<and> pt_rtts t q = Some r" for q r
    by (force simp: List.map_filter_def)
  from min_by_key_Some [OF m] have "(p, rtt) \<in> set ?xs" "\<forall>(q, r) \<in> set ?xs. rtt \<le> r"
    by (force simp: less_imp_le)+
  with set show ?thesis by blast
qed

section \<open>New bootstrap nodes\<close>

lemma pick_addrs_from:
  assumes "set_option v4 \<union> set_option v6 \<union> with_peer p ` set addrs \<subseteq> S"
  shows "set_option (fst (pick_addrs p addrs (v4, v6))) \<union> set_option (snd (pick_addrs p addrs (v4, v6))) \<subseteq> S"
  using assms
proof (induction addrs arbitrary: v4 v6)
  case (Cons addr addrs)
  show ?case
    using Cons.prems Cons.IH [of v4 v6] Cons.IH [of "Some (with_peer p addr)" v6]
      Cons.IH [of v4 "Some (with_peer p addr)"]
    by (simp add: Let_def)
qed simp

lemma bootstrap_addrs_from_props:
  "set (bootstrap_addrs_from addrs p) \<subseteq> with_peer p ` set addrs \<and> length (bootstrap_addrs_from addrs p) \<le> 2"
proof -
  obtain v4 v6 where v: "pick_addrs p addrs (None, None) = (v4, v6)" by fastforce
  have "set_option v4 \<union> set_option v6 \<subseteq> with_peer p ` set addrs"
    using pick_addrs_from [of None None p addrs "with_peer p ` set addrs"] v by simp
  with v show ?thesis
    by (cases v4; cases v6) (simp_all add: bootstrap_addrs_from_def List.map_filter_def)
qed

lemma fold_push_new:
  "\<exists>new. fold push_new addrs nodes = nodes @ new \<and> set new = set addrs - set nodes \<and> distinct new
     \<and> length new \<le> length addrs"
proof (induction addrs arbitrary: nodes)
  case (Cons a addrs)
  show ?case
  proof (cases "a \<in> set nodes")
    case True
    obtain new where new: "fold push_new addrs nodes = nodes @ new" "set new = set addrs - set nodes"
      "distinct new" "length new \<le> length addrs"
      using Cons.IH [of nodes] by (elim exE conjE) rule
    have "fold push_new (a # addrs) nodes = nodes @ new" using True new(1) by (simp add: push_new_def)
    moreover have "set new = set (a # addrs) - set nodes" unfolding new(2) using True by auto
    moreover have "length new \<le> length (a # addrs)" using new(4) by simp
    ultimately show ?thesis using new(3) by blast
  next
    case False
    obtain new where new: "fold push_new addrs (nodes @ [a]) = (nodes @ [a]) @ new"
      "set new = set addrs - set (nodes @ [a])" "distinct new" "length new \<le> length addrs"
      using Cons.IH [of "nodes @ [a]"] by (elim exE conjE) rule
    have "fold push_new (a # addrs) nodes = nodes @ a # new" using False new(1) by (simp add: push_new_def)
    moreover have "set (a # new) = set (a # addrs) - set nodes" unfolding list.set new(2) using False by auto
    moreover have "distinct (a # new)" "length (a # new) \<le> length (a # addrs)"
      using new(2-4) by simp_all
    ultimately show ?thesis by blast
  qed
qed simp

section \<open>Correctness\<close>

text \<open>
  (C22) The tracker implements its specification over the history of pings: its failure count is the
  number of consecutive failures since the last success or disconnection, its round-trip time the
  last one measured, and a failed ping disconnects the peer exactly when the consecutive failures
  reach a multiple of the limit; a limit of zero never disconnects.
\<close>
theorem tracker_refines_history:
  "pt_failures (tracked_after max_failures me es) p = count_for max_failures (streak p es)
   \<and> pt_rtts (tracked_after max_failures me es) p = last_rtt me p es
   \<and> snd (on_ping \<lparr>pe_peer = p, pe_result = Err e\<rparr> max_failures (tracked_after max_failures me es)) =
       (if max_failures \<noteq> 0 \<and> Suc (streak p es) mod unat max_failures = 0 then Some p else None)"
proof -
  note s = tracked_after_spec [of max_failures me es p]
  have "snd (on_ping \<lparr>pe_peer = p, pe_result = Err e\<rparr> max_failures (tracked_after max_failures me es)) =
       (if max_failures \<noteq> 0 \<and> Suc (streak p es) mod unat max_failures = 0 then Some p else None)"
    using s count_for_step(1) [of max_failures "streak p es"] by (simp add: on_ping_def Let_def)
  with s show ?thesis by simp
qed

text \<open>
  The provider chosen for a request is a known one with the lowest last measured round-trip time
  of all providers, and none is chosen only when no provider has been measured.
\<close>
theorem best_peer_lowest_rtt:
  assumes "t = tracked_after max_failures me es"
  shows "case best_peer providers t of
       None \<Rightarrow> \<forall>q \<in> set providers. last_rtt me q es = None
     | Some p \<Rightarrow> p \<in> set providers \<and> (\<exists>rtt. last_rtt me p es = Some rtt
         \<and> (\<forall>q \<in> set providers. \<forall>rtt'. last_rtt me q es = Some rtt' \<longrightarrow> rtt \<le> rtt'))"
  using best_peer_None [of providers t] best_peer_Some [of providers t]
    tracked_after_spec [of max_failures me es]
  by (auto simp: assms split: option.split)

theorem best_peer_lowest_rtt_witness:
  "best_peer [[1], [2]] (tracked_after 3 [9] [\<lparr>pe_peer = [1], pe_result = Ok 5\<rparr>, \<lparr>pe_peer = [2], pe_result = Ok 4\<rparr>])
     = Some [2]
   \<and> [2] \<in> set [[1], [2 :: u8]]"
proof -
  let ?es = "[\<lparr>pe_peer = [1], pe_result = Ok 5\<rparr>, \<lparr>pe_peer = [2], pe_result = Ok 4\<rparr>]"
  have b: "best_peer [[1], [2]] (tracked_after 3 [9] ?es) = Some [2]"
    by (simp add: best_peer_def tracked_after_def on_ping_def peer_tracker_new_def List.map_filter_def)
  from best_peer_lowest_rtt [OF refl, of "[[1], [2]]" "[9]" ?es 3] show ?thesis unfolding b by simp
qed

text \<open>
  Only announced bootstrap providers enter the bootstrap list: when an identified peer changes the
  configuration, the operator accepts discovered providers, the peer listens on both address
  families and is among the cached providers; the list keeps its entries and grows by at most two
  new distinct addresses, each a listen address of the peer; and the file is saved exactly then.
\<close>
theorem on_identify_adds_providers:
  assumes "on_identify addrs p now config cache = (config', cache', saved)"
  shows "\<exists>new. config' = set_bootstrap_nodes (bootstrap_nodes config @ new) config
     \<and> distinct new \<and> length new \<le> 2 \<and> set new \<inter> set (bootstrap_nodes config) = {}
     \<and> set new \<subseteq> with_peer p ` set addrs \<and> (saved \<longleftrightarrow> new \<noteq> [])
     \<and> (new \<noteq> [] \<longrightarrow> accept_bootstrap_providers config \<and> is_dual_stack_addrs addrs
          \<and> (\<exists>e ps. hm_get (dh_entries cache) BOOTSTRAP_PROVIDER_KEY = Some e \<and> en_value e = Some ps
               \<and> p \<in> set ps))"
proof -
  let ?nodes = "bootstrap_nodes config" and ?c = "bootstrap_addrs_from addrs p"
  obtain new where new: "fold push_new ?c ?nodes = ?nodes @ new" "set new = set ?c - set ?nodes"
    "distinct new" "length new \<le> length ?c"
    using fold_push_new by blast
  have same: "config = set_bootstrap_nodes (?nodes @ []) config"
    by (simp add: set_bootstrap_nodes_def bootstrap_nodes_def on_kademlia_def)
  have entries: "dh_entries (refresh key c) = dh_entries c" for key and c :: provider_cache
    by (simp add: refresh_def ensure_refresh_def Let_def split: option.split)
  show ?thesis
  proof (cases saved)
    case False
    then have "config' = config"
      using assms by (auto simp: on_identify_def Let_def split: if_splits option.splits prod.splits)
    with same False show ?thesis by (intro exI [of _ "[]"]) simp
  next
    case True
    then have s: "accept_bootstrap_providers config" "is_dual_stack_addrs addrs"
      "config' = set_bootstrap_nodes (?nodes @ new) config" "new \<noteq> []"
      using assms new(1) by (auto simp: on_identify_def Let_def split: if_splits option.splits prod.splits)
    have "\<exists>e ps. hm_get (dh_entries cache) BOOTSTRAP_PROVIDER_KEY = Some e \<and> en_value e = Some ps
               \<and> p \<in> set ps"
    proof (cases "hm_get (dh_entries cache) BOOTSTRAP_PROVIDER_KEY")
      case None
      with True assms s(1,2) show ?thesis
        by (simp add: on_identify_def Let_def peek_def cache_entry_def entries)
    next
      case (Some e)
      with True assms s(1,2) show ?thesis
        by (cases "en_value e")
           (simp_all add: on_identify_def Let_def peek_def cache_entry_def entries read_from_def split: if_splits)
    qed
    with s new True bootstrap_addrs_from_props [of addrs p] show ?thesis
      by (intro exI [of _ new]) auto
  qed
qed

definition demo_accepting :: node_config where
  "demo_accepting =
     node_config_default\<lparr>cfg_node := node_info_default\<lparr>ni_accept_bootstrap_providers := True\<rparr>\<rparr>"

definition demo_providers :: provider_cache where
  "demo_providers = (dht_cache_new 8 8)\<lparr>dh_entries := [(BOOTSTRAP_PROVIDER_KEY,
     \<lparr>en_value = Some [[7]], en_version = None, en_last_error = None, en_last_access = 0, en_size = 1\<rparr>)]\<rparr>"

lemma demo_identify: "snd (snd (on_identify [[Ip4 1], [Ip6 2]] [7] 0 demo_accepting demo_providers))"
  by (simp add: on_identify_def demo_accepting_def accept_bootstrap_providers_def is_dual_stack_addrs_def
      peek_def cache_entry_def refresh_def ensure_refresh_def dht_cache_new_def demo_providers_def read_from_def
      bootstrap_addrs_from_def with_peer_def push_new_def bootstrap_nodes_def config_default_defs
      List.map_filter_def Let_def)

theorem on_identify_adds_providers_witness:
  "\<exists>new. fst (on_identify [[Ip4 1], [Ip6 2]] [7] 0 demo_accepting demo_providers)
       = set_bootstrap_nodes (bootstrap_nodes demo_accepting @ new) demo_accepting
     \<and> length new \<le> 2 \<and> new \<noteq> []"
proof -
  obtain c' d' where "on_identify [[Ip4 1], [Ip6 2]] [7] 0 demo_accepting demo_providers = (c', d', True)"
    using demo_identify by (metis prod.collapse)
  with on_identify_adds_providers [OF this] show ?thesis by fastforce
qed

end
