(* ===== verification/NN_Relay.thy ===== *)
theory NN_Relay
  imports NN_Config
begin

text \<open>
  The relay reservations of a node that needs them (\<open>src/src/controller/relay_manager.rs\<close>).

  \<open>relay_manager\<close> is \<open>RelayManager\<close>: the relays in use, the reservations that wait for an answer,
  and the failure counts and backoff deadlines. \<open>tick\<close> tops the reservations up; the three event
  handlers follow the swarm. What the swarm answers to \<open>listen_on\<close> is an argument. The lemmas show
  that the sets never overlap, that a relay in use carries no failure, that a tick starts only what
  it may and stops only when nothing more can be done, and the bounds of the backoff.
\<close>

section \<open>Data\<close>

definition RELAY_TARGET :: nat where
  "RELAY_TARGET = 3"

record relay_manager =
  rm_my_peer_id :: peer_id
  rm_active :: "peer_id list"
  rm_pending :: "(peer_id \<times> instant) list"
  rm_failures :: "peer_id \<rightharpoonup> u32"
  rm_backoff :: "peer_id \<rightharpoonup> instant"

definition relay_manager_new :: "peer_id \<Rightarrow> relay_manager" where
  "relay_manager_new my_peer_id =
     \<lparr>rm_my_peer_id = my_peer_id, rm_active = [], rm_pending = [], rm_failures = Map.empty,
      rm_backoff = Map.empty\<rparr>"

definition relay_reset :: "relay_manager \<Rightarrow> relay_manager" where
  "relay_reset m = m\<lparr>rm_active := [], rm_pending := [], rm_failures := Map.empty, rm_backoff := Map.empty\<rparr>"

section \<open>Operations\<close>

fun extract_peer_id_from_multiaddr :: "multiaddr \<Rightarrow> peer_id option" where
  "extract_peer_id_from_multiaddr [] = None"
| "extract_peer_id_from_multiaddr (P2p peer_id # addr) = Some peer_id"
| "extract_peer_id_from_multiaddr (proto # addr) = extract_peer_id_from_multiaddr addr"

definition relay_backoff_secs :: "u32 \<Rightarrow> nat" where
  "relay_backoff_secs count = (let shift = min (unat count - 1) 5 in min (30 * 2 ^ shift) 600)"

text \<open>The count is a plain \<open>u32\<close> increment, which wraps in a release build.\<close>

definition failure_delay :: "node_config \<Rightarrow> u32 \<Rightarrow> duration" where
  "failure_delay config count =
     (let max = relay_max_failures config
      in if max > 0 \<and> count \<ge> max then from_secs 3600 else from_secs (relay_backoff_secs count))"

definition record_failure :: "node_config \<Rightarrow> peer_id \<Rightarrow> instant \<Rightarrow> relay_manager \<Rightarrow> relay_manager" where
  "record_failure config peer_id now m =
     (let count = (case rm_failures m peer_id of None \<Rightarrow> 0 | Some c \<Rightarrow> c) + 1
      in m\<lparr>rm_failures := (rm_failures m)(peer_id \<mapsto> count),
           rm_backoff := (rm_backoff m)(peer_id \<mapsto> now + failure_delay config count)\<rparr>)"

definition confirm :: "peer_id \<Rightarrow> relay_manager \<Rightarrow> relay_manager" where
  "confirm peer_id m =
     m\<lparr>rm_active := List.insert peer_id (rm_active m), rm_pending := hm_del peer_id (rm_pending m),
       rm_failures := (rm_failures m)(peer_id := None), rm_backoff := (rm_backoff m)(peer_id := None)\<rparr>"

definition on_circuit_ready :: "multiaddr \<Rightarrow> relay_manager \<Rightarrow> relay_manager \<times> bool" where
  "on_circuit_ready addr m =
     (case extract_peer_id_from_multiaddr addr of
        None \<Rightarrow> (m, False)
      | Some peer_id \<Rightarrow>
          if peer_id = rm_my_peer_id m then (m, False)
          else (confirm peer_id m, peer_id \<notin> set (rm_active m)))"

text \<open>Of the events of the relay client only an accepted reservation has an effect.\<close>

datatype relay_client_event = ReservationReqAccepted peer_id bool | OtherClientEvent

fun on_relay_client_event :: "relay_client_event \<Rightarrow> relay_manager \<Rightarrow> relay_manager" where
  "on_relay_client_event (ReservationReqAccepted relay_peer_id renewal) m = confirm relay_peer_id m"
| "on_relay_client_event OtherClientEvent m = m"

text \<open>Each address comes with the time at which the loop reads the clock for it.\<close>

fun on_listener_closed ::
    "node_config \<Rightarrow> (multiaddr \<times> instant) list \<Rightarrow> relay_manager \<Rightarrow> relay_manager \<times> bool" where
  "on_listener_closed config [] m = (m, False)"
| "on_listener_closed config ((addr, now) # addresses) m =
     (if P2pCircuit \<notin> set addr then on_listener_closed config addresses m
      else case extract_peer_id_from_multiaddr addr of
        None \<Rightarrow> on_listener_closed config addresses m
      | Some peer_id \<Rightarrow>
          (let was_active = peer_id \<in> set (rm_active m);
               was_pending = hm_get (rm_pending m) peer_id \<noteq> None;
               m = m\<lparr>rm_active := removeAll peer_id (rm_active m),
                     rm_pending := hm_del peer_id (rm_pending m)\<rparr>
           in if \<not> was_active \<and> \<not> was_pending then on_listener_closed config addresses m
              else (fst (on_listener_closed config addresses (record_failure config peer_id now m)), True)))"

definition pending_timeout :: "node_config \<Rightarrow> duration" where
  "pending_timeout config =
     from_secs (max (min (unat (relay_retry_interval config) * 3) (2 ^ 64 - 1)) 180)"

text \<open>\<open>duration_since\<close> saturates at zero, as subtraction on \<open>nat\<close> does.\<close>

definition expire_pending :: "node_config \<Rightarrow> instant \<Rightarrow> relay_manager \<Rightarrow> relay_manager" where
  "expire_pending config now m =
     fold (\<lambda>peer_id m. record_failure config peer_id now (m\<lparr>rm_pending := hm_del peer_id (rm_pending m)\<rparr>))
       (map fst (filter (\<lambda>(_, since). now - since \<ge> pending_timeout config) (rm_pending m))) m"

fun candidates_from :: "peer_id \<Rightarrow> peer_id list \<Rightarrow> multiaddr list \<Rightarrow> (peer_id \<times> multiaddr) list" where
  "candidates_from me seen [] = []"
| "candidates_from me seen (addr # addrs) =
     (case extract_peer_id_from_multiaddr addr of
        None \<Rightarrow> candidates_from me seen addrs
      | Some peer_id \<Rightarrow>
          if peer_id = me \<or> peer_id \<in> set seen then candidates_from me seen addrs
          else (peer_id, addr) # candidates_from me (peer_id # seen) addrs)"

text \<open>The loop over the candidates; the second component lists the addresses passed to \<open>listen_on\<close>.\<close>

fun tick_loop ::
    "node_config \<Rightarrow> (multiaddr \<Rightarrow> (unit, string) result) \<Rightarrow> instant \<Rightarrow> nat \<Rightarrow> (peer_id \<times> multiaddr) list
       \<Rightarrow> relay_manager \<Rightarrow> relay_manager \<times> multiaddr list" where
  "tick_loop config listen_on now desired [] m = (m, [])"
| "tick_loop config listen_on now desired ((peer_id, addr) # candidates) m =
     (if length (rm_active m) + length (rm_pending m) \<ge> desired then (m, [])
      else if peer_id \<in> set (rm_active m) \<or> hm_get (rm_pending m) peer_id \<noteq> None
      then tick_loop config listen_on now desired candidates m
      else if (case rm_backoff m peer_id of None \<Rightarrow> False | Some until \<Rightarrow> until > now)
      then tick_loop config listen_on now desired candidates m
      else
        (let relay_listen_addr = addr @ [P2pCircuit];
             m = (case listen_on relay_listen_addr of
                    Ok _ \<Rightarrow> m\<lparr>rm_pending := hm_put peer_id now (rm_pending m)\<rparr>
                  | Err e \<Rightarrow> record_failure config peer_id now m);
             (m, listened) = tick_loop config listen_on now desired candidates m
         in (m, relay_listen_addr # listened)))"

definition candidates :: "node_config \<Rightarrow> relay_manager \<Rightarrow> (peer_id \<times> multiaddr) list" where
  "candidates config m = candidates_from (rm_my_peer_id m) [] (bootstrap_nodes config)"

definition tick ::
    "node_config \<Rightarrow> (multiaddr \<Rightarrow> (unit, string) result) \<Rightarrow> instant \<Rightarrow> relay_manager
       \<Rightarrow> relay_manager \<times> multiaddr list" where
  "tick config listen_on now m =
     (if \<not> needs_relay config then (m, [])
      else
        (let m = expire_pending config now m; cs = candidates config m
         in tick_loop config listen_on now (min RELAY_TARGET (length cs)) cs m))"

section \<open>Invariant\<close>

text \<open>
  No relay is in use and pending at once, and one in use has neither failures nor a backoff.
\<close>

definition relay_inv :: "relay_manager \<Rightarrow> bool" where
  "relay_inv m \<longleftrightarrow> distinct (rm_active m) \<and> hm_wf (rm_pending m)
     \<and> set (rm_active m) \<inter> hm_keys (rm_pending m) = {}
     \<and> (\<forall>p \<in> set (rm_active m). rm_failures m p = None \<and> rm_backoff m p = None)
     \<and> dom (rm_failures m) = dom (rm_backoff m)"

lemma relay_inv_new [simp]: "relay_inv (relay_manager_new me)"
  by (simp add: relay_inv_def relay_manager_new_def)

lemma relay_inv_reset [simp]: "relay_inv (relay_reset m)"
  by (simp add: relay_inv_def relay_reset_def)

lemma relay_inv_confirm: "relay_inv m \<Longrightarrow> relay_inv (confirm p m)"
  by (auto simp: relay_inv_def confirm_def)

lemma record_failure_fields [simp]:
  "rm_active (record_failure config p now m) = rm_active m"
  "rm_pending (record_failure config p now m) = rm_pending m"
  "rm_my_peer_id (record_failure config p now m) = rm_my_peer_id m"
  by (simp_all add: record_failure_def Let_def)

lemma relay_inv_failure: "relay_inv m \<Longrightarrow> p \<notin> set (rm_active m) \<Longrightarrow> relay_inv (record_failure config p now m)"
  by (auto simp: relay_inv_def record_failure_def Let_def)

lemma relay_inv_drop:
  "relay_inv m \<Longrightarrow> relay_inv (m\<lparr>rm_active := removeAll p (rm_active m), rm_pending := hm_del p (rm_pending m)\<rparr>)"
  by (auto simp: relay_inv_def distinct_removeAll)

lemma relay_inv_forget: "relay_inv m \<Longrightarrow> relay_inv (m\<lparr>rm_pending := hm_del p (rm_pending m)\<rparr>)"
  by (auto simp: relay_inv_def)

lemma relay_inv_closed: "relay_inv m \<Longrightarrow> relay_inv (fst (on_listener_closed config addrs m))"
proof (induction addrs arbitrary: m)
  case (Cons x addrs)
  obtain addr now where x: "x = (addr, now)" by fastforce
  have drop: "relay_inv (m\<lparr>rm_active := removeAll p (rm_active m), rm_pending := hm_del p (rm_pending m)\<rparr>)" for p
    by (rule relay_inv_drop [OF Cons.prems])
  then have "relay_inv (record_failure config p now
      (m\<lparr>rm_active := removeAll p (rm_active m), rm_pending := hm_del p (rm_pending m)\<rparr>))" for p
    by (rule relay_inv_failure) simp
  with drop Cons show ?case unfolding x by (simp add: Let_def del: removeAll_id split: option.split)
qed simp

lemma expire_step_inv:
  assumes "relay_inv m" and "\<forall>p \<in> set ps. p \<notin> set (rm_active m)"
  shows "relay_inv (fold (\<lambda>p m. record_failure config p now (m\<lparr>rm_pending := hm_del p (rm_pending m)\<rparr>)) ps m)
     \<and> rm_active (fold (\<lambda>p m. record_failure config p now (m\<lparr>rm_pending := hm_del p (rm_pending m)\<rparr>)) ps m)
         = rm_active m
     \<and> rm_my_peer_id (fold (\<lambda>p m. record_failure config p now (m\<lparr>rm_pending := hm_del p (rm_pending m)\<rparr>)) ps m)
         = rm_my_peer_id m
     \<and> rm_pending (fold (\<lambda>p m. record_failure config p now (m\<lparr>rm_pending := hm_del p (rm_pending m)\<rparr>)) ps m)
         = fold hm_del ps (rm_pending m)"
  using assms
proof (induction ps arbitrary: m)
  case (Cons p ps)
  let ?m = "record_failure config p now (m\<lparr>rm_pending := hm_del p (rm_pending m)\<rparr>)"
  have "relay_inv ?m" using Cons.prems by (auto intro!: relay_inv_failure relay_inv_forget)
  moreover have "\<forall>q \<in> set ps. q \<notin> set (rm_active ?m)" using Cons.prems by simp
  ultimately show ?case using Cons.IH [of ?m] by simp
qed simp

lemma expire_pending_inv:
  assumes "relay_inv m"
  shows "relay_inv (expire_pending config now m) \<and> rm_active (expire_pending config now m) = rm_active m
     \<and> rm_my_peer_id (expire_pending config now m) = rm_my_peer_id m
     \<and> rm_pending (expire_pending config now m) =
         fold hm_del (map fst (filter (\<lambda>(_, since). now - since \<ge> pending_timeout config) (rm_pending m)))
           (rm_pending m)"
  unfolding expire_pending_def
  by (rule expire_step_inv [OF assms]) (use assms in \<open>force simp: relay_inv_def\<close>)

lemma relay_inv_pending:
  "relay_inv m \<Longrightarrow> p \<notin> set (rm_active m) \<Longrightarrow> relay_inv (m\<lparr>rm_pending := hm_put p now (rm_pending m)\<rparr>)"
  by (auto simp: relay_inv_def)

lemma tick_loop_inv:
  "relay_inv m \<Longrightarrow> relay_inv (fst (tick_loop config listen_on now desired cs m))"
  by (induction config listen_on now desired cs m rule: tick_loop.induct)
     (auto simp: Let_def relay_inv_pending relay_inv_failure split: result.split prod.split option.split
       elim!: meta_mp)

lemma tick_inv: "relay_inv m \<Longrightarrow> relay_inv (fst (tick config listen_on now m))"
  by (simp add: tick_def Let_def tick_loop_inv expire_pending_inv)

section \<open>What a tick does\<close>

lemma failure_delay_pos: "failure_delay config count > 0"
  by (simp add: failure_delay_def relay_backoff_secs_def Let_def from_secs_def)

definition blocked :: "instant \<Rightarrow> relay_manager \<Rightarrow> peer_id \<Rightarrow> bool" where
  "blocked now m p \<longleftrightarrow> (case rm_backoff m p of None \<Rightarrow> False | Some until \<Rightarrow> until > now)"

definition served_by :: "instant \<Rightarrow> relay_manager \<Rightarrow> peer_id \<Rightarrow> bool" where
  "served_by now m p \<longleftrightarrow> p \<in> set (rm_active m) \<or> p \<in> hm_keys (rm_pending m) \<or> blocked now m p"

lemma blocked_pending [simp]: "blocked now (m\<lparr>rm_pending := ps\<rparr>) q = blocked now m q"
  by (simp add: blocked_def)

lemma blocked_failure: "blocked now (record_failure config p now m) q \<longleftrightarrow> q = p \<or> blocked now m q"
  by (simp add: blocked_def record_failure_def Let_def failure_delay_pos)

text \<open>One reservation attempt: the candidate is pending or backs off afterwards.\<close>

definition attempt :: "node_config \<Rightarrow> (multiaddr \<Rightarrow> (unit, string) result) \<Rightarrow> instant \<Rightarrow> peer_id \<Rightarrow> multiaddr
    \<Rightarrow> relay_manager \<Rightarrow> relay_manager" where
  "attempt config listen_on now p addr m =
     (case listen_on (addr @ [P2pCircuit]) of
        Ok _ \<Rightarrow> m\<lparr>rm_pending := hm_put p now (rm_pending m)\<rparr>
      | Err e \<Rightarrow> record_failure config p now m)"

lemma attempt_active [simp]: "rm_active (attempt config listen_on now p addr m) = rm_active m"
  by (simp add: attempt_def split: result.split)

lemma served_attempt: "served_by now (attempt config listen_on now p addr m) q \<longleftrightarrow> q = p \<or> served_by now m q"
  by (auto simp: served_by_def attempt_def blocked_failure split: result.split)

lemma length_put_le: "length (hm_put k v m) \<le> Suc (length m)"
  by (induction m) auto

lemma attempt_length:
  "length (rm_pending (attempt config listen_on now p addr m)) \<le> Suc (length (rm_pending m))"
  by (simp add: attempt_def length_put_le split: result.split)

lemma tick_loop_Cons:
  "tick_loop config listen_on now desired ((p, addr) # cs) m =
     (if length (rm_active m) + length (rm_pending m) \<ge> desired then (m, [])
      else if served_by now m p then tick_loop config listen_on now desired cs m
      else apsnd ((#) (addr @ [P2pCircuit]))
             (tick_loop config listen_on now desired cs (attempt config listen_on now p addr m)))"
  by (auto simp: served_by_def blocked_def attempt_def Let_def hm_get_None_iff split: option.splits prod.split)

lemma tick_loop_spec:
  assumes "tick_loop config listen_on now desired cs m = (m', listened)"
  shows "rm_active m' = rm_active m"
    and "length (rm_active m') + length (rm_pending m') \<le>
           max desired (length (rm_active m) + length (rm_pending m))"
    and "served_by now m q \<Longrightarrow> served_by now m' q"
    and "desired \<le> length (rm_active m') + length (rm_pending m') \<or> (\<forall>(p, addr) \<in> set cs. served_by now m' p)"
    and "\<forall>a \<in> set listened. \<exists>(p, addr) \<in> set cs. a = addr @ [P2pCircuit] \<and> \<not> served_by now m p"
proof -
  have "rm_active m' = rm_active m
      \<and> length (rm_active m') + length (rm_pending m') \<le>
           max desired (length (rm_active m) + length (rm_pending m))
      \<and> (\<forall>q. served_by now m q \<longrightarrow> served_by now m' q)
      \<and> (desired \<le> length (rm_active m') + length (rm_pending m') \<or> (\<forall>(p, addr) \<in> set cs. served_by now m' p))
      \<and> (\<forall>a \<in> set listened. \<exists>(p, addr) \<in> set cs. a = addr @ [P2pCircuit] \<and> \<not> served_by now m p)"
    using assms
  proof (induction cs arbitrary: m listened)
    case (Cons c cs)
    obtain p addr where c: "c = (p, addr)" by fastforce
    let ?m = "attempt config listen_on now p addr m"
    consider (full) "length (rm_active m) + length (rm_pending m) \<ge> desired"
      | (skip) "length (rm_active m) + length (rm_pending m) < desired" "served_by now m p"
      | (reserve) "length (rm_active m) + length (rm_pending m) < desired" "\<not> served_by now m p"
      by linarith
    then show ?case
    proof cases
      case full
      then show ?thesis using Cons.prems by (simp add: c tick_loop_Cons del: tick_loop.simps)
    next
      case skip
      then have "tick_loop config listen_on now desired cs m = (m', listened)"
        using Cons.prems by (simp add: c tick_loop_Cons del: tick_loop.simps)
      from Cons.IH [OF this] skip show ?thesis by (auto simp: c)
    next
      case reserve
      then obtain l where l: "tick_loop config listen_on now desired cs ?m = (m', l)"
        "listened = (addr @ [P2pCircuit]) # l"
        using Cons.prems
        by (cases "tick_loop config listen_on now desired cs ?m")
           (auto simp: c tick_loop_Cons simp del: tick_loop.simps)
      note ih = Cons.IH [OF l(1)]
      have "length (rm_active ?m) + length (rm_pending ?m) \<le> desired"
        using reserve(1) attempt_length [of config listen_on now p addr m] by simp
      then have "length (rm_active m') + length (rm_pending m') \<le> desired" using ih by linarith
      moreover have "served_by now m' p" using ih served_attempt by blast
      ultimately show ?thesis using ih reserve l(2) by (force simp: c served_attempt)
    qed
  qed simp
  then show "rm_active m' = rm_active m"
    and "length (rm_active m') + length (rm_pending m') \<le>
           max desired (length (rm_active m) + length (rm_pending m))"
    and "served_by now m q \<Longrightarrow> served_by now m' q"
    and "desired \<le> length (rm_active m') + length (rm_pending m') \<or> (\<forall>(p, addr) \<in> set cs. served_by now m' p)"
    and "\<forall>a \<in> set listened. \<exists>(p, addr) \<in> set cs. a = addr @ [P2pCircuit] \<and> \<not> served_by now m p"
    by blast+
qed

lemma candidates_from_props:
  "distinct (map fst (candidates_from me seen addrs))
   \<and> (\<forall>(p, addr) \<in> set (candidates_from me seen addrs).
        p \<noteq> me \<and> p \<notin> set seen \<and> addr \<in> set addrs \<and> extract_peer_id_from_multiaddr addr = Some p)"
proof (induction me seen addrs rule: candidates_from.induct)
  case (2 me seen addr addrs)
  then show ?case by (fastforce split: option.splits if_splits)
qed simp

lemma length_fold_hm_del: "length (fold hm_del ks m) \<le> length m"
proof (induction ks arbitrary: m)
  case (Cons k ks)
  have "length (hm_del k m) \<le> length m" by (simp add: AList.delete_eq)
  with Cons.IH [of "hm_del k m"] show ?case by simp
qed simp

section \<open>Every run of the manager\<close>

datatype relay_event =
    CircuitReady multiaddr
  | ClientEvent relay_client_event
  | ListenerClosed "(multiaddr \<times> instant) list"
  | Tick "multiaddr \<Rightarrow> (unit, string) result" instant
  | ResetRelays

fun relay_step :: "node_config \<times> relay_event \<Rightarrow> relay_manager \<Rightarrow> relay_manager" where
  "relay_step (config, CircuitReady addr) m = fst (on_circuit_ready addr m)"
| "relay_step (config, ClientEvent ev) m = on_relay_client_event ev m"
| "relay_step (config, ListenerClosed addrs) m = fst (on_listener_closed config addrs m)"
| "relay_step (config, Tick listen_on now) m = fst (tick config listen_on now m)"
| "relay_step (config, ResetRelays) m = relay_reset m"

lemma relay_inv_step: "relay_inv m \<Longrightarrow> relay_inv (relay_step e m)"
proof (cases "(e, m)" rule: relay_step.cases)
  case (2 config ev m')
  then show "relay_inv m \<Longrightarrow> relay_inv (relay_step e m)" by (cases ev) (auto simp: relay_inv_confirm)
qed (auto simp: on_circuit_ready_def relay_inv_confirm relay_inv_closed tick_inv split: option.split)

interpretation relays: invariant_system "relay_manager_new me" relay_step relay_inv for me
  by unfold_locales (simp_all add: relay_inv_step)

section \<open>The backoff\<close>

lemma relay_backoff_count:
  assumes "n < 2 ^ 32" and "0 < n"
  shows "relay_backoff_secs (of_nat n) = min (30 * 2 ^ (n - 1)) 600"
proof -
  have "unat (of_nat n :: u32) = n" using assms by (simp add: unat_of_nat take_bit_nat_eq_self)
  then have r: "relay_backoff_secs (of_nat n) = min (30 * 2 ^ min (n - 1) 5) 600"
    by (simp add: relay_backoff_secs_def)
  show ?thesis
  proof (cases "n - 1 \<le> 5")
    case False
    then have "(2::nat) ^ 5 \<le> 2 ^ (n - 1)" by (intro power_increasing) auto
    with r False show ?thesis by simp
  qed (use r in simp)
qed

interpretation relay_backoff: backoff_schedule
  "\<lambda>n. relay_backoff_secs (of_nat (min (Suc n) (2 ^ 32 - 1)))" 30 600
proof
  have eq: "relay_backoff_secs (of_nat (min (Suc n) (2 ^ 32 - 1))) = min (30 * 2 ^ (min (Suc n) (2 ^ 32 - 1) - 1)) 600" for n
    by (rule relay_backoff_count) (auto simp: min_def)
  show "relay_backoff_secs (of_nat (min (Suc m) (2 ^ 32 - 1))) \<le> relay_backoff_secs (of_nat (min (Suc n) (2 ^ 32 - 1)))"
    if "m \<le> n" for m n
    unfolding eq using that by (intro min.mono mult_le_mono power_increasing) auto
  show "30 \<le> relay_backoff_secs (of_nat (min (Suc n) (2 ^ 32 - 1)))" for n unfolding eq by simp
  show "relay_backoff_secs (of_nat (min (Suc n) (2 ^ 32 - 1))) \<le> 600" for n unfolding eq by simp
qed

lemma record_failure_run:
  assumes "rm_failures m p = (if k = 0 then None else Some (of_nat k))" and "k + length ts < 2 ^ 32 - 1"
  shows "rm_failures (fold (record_failure config p) (ts @ [now]) m) p = Some (of_nat (Suc (k + length ts)))
     \<and> rm_backoff (fold (record_failure config p) (ts @ [now]) m) p =
         Some (now + failure_delay config (of_nat (Suc (k + length ts))))"
  using assms
proof (induction ts arbitrary: m k)
  case Nil
  then show ?case by (auto simp: record_failure_def Let_def add.commute)
next
  case (Cons t ts)
  have "rm_failures (record_failure config p t m) p = Some (of_nat (Suc k))"
    using Cons.prems by (auto simp: record_failure_def Let_def add.commute)
  with Cons.IH [of "record_failure config p t m" "Suc k"] Cons.prems show ?case by simp
qed

section \<open>Correctness\<close>

text \<open>
  (C38) The relay bookkeeping stays consistent in every run: no relay is both in use and pending, no
  set holds a relay twice, a relay in use has no failures and no backoff, and exactly the relays
  with failures have a backoff deadline.
\<close>
theorem relay_sets_consistent:
  "relay_inv (fold relay_step es (relay_manager_new me))"
  by (rule relays.inv_always)

text \<open>
  A tick tops the reservations up and no further. It asks only for circuits through configured
  bootstrap nodes other than the node itself that are neither in use nor pending nor backing off;
  it never raises the number of reservations above the target; and it stops only when the target is
  reached or every candidate is in use, pending or backing off.
\<close>
theorem relay_tick_tops_up:
  assumes "relay_inv m" and "needs_relay config" and "tick config listen_on now m = (m', listened)"
    and cs: "cs = candidates config m"
  shows "rm_active m' = rm_active m
     \<and> length (rm_active m') + length (rm_pending m') \<le>
         max (min RELAY_TARGET (length cs)) (length (rm_active m) + length (rm_pending m))
     \<and> (min RELAY_TARGET (length cs) \<le> length (rm_active m') + length (rm_pending m')
        \<or> (\<forall>(p, addr) \<in> set cs. served_by now m' p))
     \<and> (\<forall>a \<in> set listened. \<exists>p addr. a = addr @ [P2pCircuit] \<and> addr \<in> set (bootstrap_nodes config)
          \<and> extract_peer_id_from_multiaddr addr = Some p \<and> p \<noteq> rm_my_peer_id m
          \<and> p \<notin> set (rm_active m) \<and> \<not> blocked now (expire_pending config now m) p)"
proof -
  let ?e = "expire_pending config now m"
  note e = expire_pending_inv [OF assms(1), of config now]
  have c: "candidates config ?e = cs" using e cs by (simp add: candidates_def)
  have t: "tick_loop config listen_on now (min RELAY_TARGET (length cs)) cs ?e = (m', listened)"
    using assms(2,3) c by (simp add: tick_def Let_def)
  note l = tick_loop_spec [OF t]
  have shrink: "length (rm_pending ?e) \<le> length (rm_pending m)"
    using e by (simp add: length_fold_hm_del)
  have "\<exists>p addr. a = addr @ [P2pCircuit] \<and> addr \<in> set (bootstrap_nodes config)
      \<and> extract_peer_id_from_multiaddr addr = Some p \<and> p \<noteq> rm_my_peer_id m
      \<and> p \<notin> set (rm_active m) \<and> \<not> blocked now ?e p" if a: "a \<in> set listened" for a
  proof -
    obtain p addr where "(p, addr) \<in> set cs" "a = addr @ [P2pCircuit]" "\<not> served_by now ?e p"
      using l(5) a by blast
    then show ?thesis
      using candidates_from_props [of "rm_my_peer_id m" "[]" "bootstrap_nodes config"] e cs
      by (auto simp: candidates_def served_by_def)
  qed
  moreover have "length (rm_active m') + length (rm_pending m') \<le>
      max (min RELAY_TARGET (length cs)) (length (rm_active m) + length (rm_pending m))"
    using l(2) shrink e by simp
  ultimately show ?thesis using l(1,4) e by simp
qed

text \<open>
  Failing relays are retried with growing pauses: after the \<open>k\<close>th failure in a row a relay backs
  off for \<open>30 * 2 ^ (k - 1)\<close> seconds, at most ten minutes, and for a full hour once the configured
  number of failures is reached.
\<close>
theorem relay_failure_backoff:
  assumes "rm_failures m p = None" and "length ts < 2 ^ 32 - 1" and "k = Suc (length ts)"
    and "m' = fold (record_failure config p) (ts @ [now]) m"
  shows "rm_backoff m' p = Some (now + from_secs
       (if 0 < relay_max_failures config \<and> unat (relay_max_failures config) \<le> k then 3600
        else min (30 * 2 ^ (k - 1)) 600))"
proof -
  have "k < 2 ^ 32" using assms(2,3) by simp
  then have u: "unat (of_nat k :: u32) = k" by (simp add: unat_of_nat take_bit_nat_eq_self)
  then have le: "relay_max_failures config \<le> of_nat k \<longleftrightarrow> unat (relay_max_failures config) \<le> k"
    by (simp add: word_le_nat_alt)
  have "rm_backoff m' p = Some (now + failure_delay config (of_nat k))"
    using record_failure_run [of m p 0 ts config now] assms by simp
  moreover have "relay_backoff_secs (of_nat k) = min (30 * 2 ^ (k - 1)) 600"
    using assms by (intro relay_backoff_count) auto
  ultimately show ?thesis using le by (simp add: failure_delay_def Let_def)
qed

definition demo_relay_config :: node_config where
  "demo_relay_config = set_has_public_address False (set_bootstrap_nodes
     [[Ip4 1, Tcp 80, P2p [1]], [Ip4 2, Tcp 80, P2p [2]]] node_config_default)"

theorem relay_tick_tops_up_witness:
  "length (rm_pending (fst (tick demo_relay_config (\<lambda>_. Ok ()) 7 (relay_manager_new [9])))) \<le> 2"
proof -
  let ?m = "relay_manager_new [9]"
  have n: "needs_relay demo_relay_config"
    by (simp add: needs_relay_def demo_relay_config_def set_has_public_address_def)
  have c: "length (candidates demo_relay_config ?m) = 2"
    by (simp add: candidates_def relay_manager_new_def bootstrap_nodes_def demo_relay_config_def
        set_has_public_address_def set_bootstrap_nodes_def on_kademlia_def)
  obtain m' l where "tick demo_relay_config (\<lambda>_. Ok ()) 7 ?m = (m', l)" by fastforce
  with relay_tick_tops_up [OF relay_inv_new n this refl] c show ?thesis
    by (simp add: relay_manager_new_def RELAY_TARGET_def)
qed

theorem relay_failure_backoff_witness:
  "rm_backoff (fold (record_failure node_config_default [1]) ([10] @ [20]) (relay_manager_new [9])) [1]
     = Some (20 + from_secs 60)"
proof -
  have "rm_failures (relay_manager_new [9]) [1] = None" by (simp add: relay_manager_new_def)
  moreover have "length [10 :: nat] < 2 ^ 32 - 1" by simp
  moreover have "relay_max_failures node_config_default = 3"
    by (simp add: relay_max_failures_def config_default_defs)
  ultimately show ?thesis
    using relay_failure_backoff [OF _ _ refl refl, of "relay_manager_new [9]" "[1]" "[10]" node_config_default 20]
    by simp
qed

end
