(* ===== verification/NN_Sidecar.thy ===== *)
theory NN_Sidecar
  imports NN_Prelude
begin

text \<open>
  The protocol between the node and its sidecars and backends (\<open>src/src/sidecar_protocol.rs\<close>) and the
  messages of the service protocol (\<open>src/src/service_protocol.rs\<close>).

  \<open>message\<close> is \<open>Message\<close>; \<open>encode_frame\<close>, \<open>decode_frame\<close>, \<open>codec_decode\<close> and \<open>codec_encode\<close> are
  the framing. CBOR (the crate \<open>ciborium\<close>) is the record \<open>cbor_lib\<close>. \<open>drain_frames\<close> is what the
  stream of \<open>Framed\<close> yields from a buffer: it calls the decoder until it asks for more bytes or
  fails. The lemmas show that frames survive any division of the byte stream into reads, that the
  buffer is bounded, and that every malformed length is refused before its body is awaited.
\<close>

section \<open>Messages\<close>

definition PROTOCOL_VERSION :: u32 where
  "PROTOCOL_VERSION = 2"

definition MAX_FRAME :: nat where
  "MAX_FRAME = 16 * 2 ^ 20"

definition REQUEST_TIMEOUT :: duration where
  "REQUEST_TIMEOUT = from_secs 30"

type_synonym uuid = "128 word"

record sidecar_error =
  se_code :: string
  se_message :: string

datatype message =
    Hello u32
  | Request uuid string bytes
  | Reply uuid bool "bytes option" "sidecar_error option"
  | ListServices uuid
  | DiscoverProviders uuid string
  | QueryPublicIp uuid
  | Whoami uuid
  | ReconnectBootstrap uuid
  | ReannounceServices uuid
  | ReloadConfig uuid
  | RefreshCache uuid
  | RelayStatus uuid
  | PqStatus uuid
  | AuthStatus uuid
  | QueryKey uuid string
  | AddKey uuid string "bytes option" bool
  | RemoveKey uuid string bool bool
  | ServiceRequest uuid string bytes
  | ServiceRequestTo uuid string string bytes

fun message_id :: "message \<Rightarrow> uuid option" where
  "message_id (Hello version) = None"
| "message_id (Request id' service payload) = Some id'"
| "message_id (Reply id' ok result error) = Some id'"
| "message_id (ListServices id') = Some id'"
| "message_id (DiscoverProviders id' service) = Some id'"
| "message_id (QueryPublicIp id') = Some id'"
| "message_id (Whoami id') = Some id'"
| "message_id (ReconnectBootstrap id') = Some id'"
| "message_id (ReannounceServices id') = Some id'"
| "message_id (ReloadConfig id') = Some id'"
| "message_id (RefreshCache id') = Some id'"
| "message_id (RelayStatus id') = Some id'"
| "message_id (PqStatus id') = Some id'"
| "message_id (AuthStatus id') = Some id'"
| "message_id (QueryKey id' key) = Some id'"
| "message_id (AddKey id' key v providing) = Some id'"
| "message_id (RemoveKey id' key providing record') = Some id'"
| "message_id (ServiceRequest id' service payload) = Some id'"
| "message_id (ServiceRequestTo id' service peer payload) = Some id'"

record service_request =
  sq_service :: string
  sq_payload :: bytes

record service_response =
  sr_success :: bool
  sr_data :: bytes

section \<open>Frames\<close>

datatype frame_error =
    FrameIo string
  | FrameTooLarge nat
  | FrameEncode string
  | FrameDecode string

record cbor_lib =
  cb_into_writer :: "message \<Rightarrow> (bytes, string) result"
  cb_from_reader :: "bytes \<Rightarrow> (message, string) result"

text \<open>The length is cast to \<open>u32\<close>.\<close>

definition frame_body :: "bytes \<Rightarrow> bytes" where
  "frame_body body = to_be_bytes (of_nat (length body)) @ body"

definition encode_frame :: "cbor_lib \<Rightarrow> message \<Rightarrow> (bytes, frame_error) result" where
  "encode_frame cb msg =
     rbind (map_err FrameEncode (cb_into_writer cb msg)) (\<lambda>body.
       if length body > MAX_FRAME then Err (FrameTooLarge (length body)) else Ok (frame_body body))"

definition decode_frame :: "cbor_lib \<Rightarrow> bytes \<Rightarrow> (message, frame_error) result" where
  "decode_frame cb body =
     (if length body > MAX_FRAME then Err (FrameTooLarge (length body))
      else map_err FrameDecode (cb_from_reader cb body))"

text \<open>One call of the decoder: the buffer it leaves, and its result.\<close>

definition codec_decode :: "cbor_lib \<Rightarrow> bytes \<Rightarrow> bytes \<times> (message option, frame_error) result" where
  "codec_decode cb src =
     (if length src < 4 then (src, Ok None)
      else
        (let len = unat (from_be_bytes (take 4 src)) in
         if len > MAX_FRAME then (src, Err (FrameTooLarge len))
         else if length src < 4 + len then (src, Ok None)
         else (drop (4 + len) src, map_ok Some (decode_frame cb (take len (drop 4 src))))))"

definition codec_encode :: "cbor_lib \<Rightarrow> message \<Rightarrow> bytes \<Rightarrow> (bytes, frame_error) result" where
  "codec_encode cb msg dst = map_ok (\<lambda>frame. dst @ frame) (encode_frame cb msg)"

lemma codec_decode_shrinks: "codec_decode cb src = (rest, Ok (Some msg)) \<Longrightarrow> length rest < length src"
  by (auto simp: codec_decode_def Let_def split: if_splits)

text \<open>
  What a \<open>Framed\<close> stream yields from a buffer: the messages, the error that ends it, and the bytes
  that wait for more.
\<close>

function drain_frames :: "cbor_lib \<Rightarrow> bytes \<Rightarrow> message list \<times> frame_error option \<times> bytes" where
  "drain_frames cb src =
     (case codec_decode cb src of
        (rest, Err e) \<Rightarrow> ([], Some e, rest)
      | (rest, Ok None) \<Rightarrow> ([], None, rest)
      | (rest, Ok (Some msg)) \<Rightarrow>
          (case drain_frames cb rest of (msgs, e, rest') \<Rightarrow> (msg # msgs, e, rest')))"
  by pat_completeness auto

termination
  by (relation "measure (\<lambda>(cb, src). length src)") (auto dest: codec_decode_shrinks [OF sym])

declare drain_frames.simps [simp del]

text \<open>Reads arrive in chunks; after an error the stream yields nothing more.\<close>

fun read_chunks :: "cbor_lib \<Rightarrow> bytes \<Rightarrow> bytes list \<Rightarrow> message list \<times> frame_error option \<times> bytes" where
  "read_chunks cb buffer [] = ([], None, buffer)"
| "read_chunks cb buffer (chunk # chunks) =
     (case drain_frames cb (buffer @ chunk) of
        (msgs, Some e, rest) \<Rightarrow> (msgs, Some e, rest)
      | (msgs, None, rest) \<Rightarrow>
          (case read_chunks cb rest chunks of (msgs', e, rest') \<Rightarrow> (msgs @ msgs', e, rest')))"

section \<open>One frame\<close>

text \<open>What the code relies on of CBOR: the decoder reads back what the encoder wrote.\<close>

definition cbor_ok :: "cbor_lib \<Rightarrow> bool" where
  "cbor_ok cb \<longleftrightarrow> (\<forall>msg body. cb_into_writer cb msg = Ok body \<longrightarrow> cb_from_reader cb body = Ok msg)"

definition take_frame :: "bytes \<Rightarrow> (bytes \<times> bytes) option" where
  "take_frame src =
     (let len = unat (from_be_bytes (take 4 src)) in
      if length src < 4 \<or> len > MAX_FRAME \<or> length src < 4 + len then None
      else Some (take len (drop 4 src), drop (4 + len) src))"

lemma unat_length_u32: "n \<le> MAX_FRAME \<Longrightarrow> unat (of_nat n :: u32) = n"
  by (simp add: MAX_FRAME_def unat_of_nat take_bit_nat_eq_self)

lemma take_frame_body: "length body \<le> MAX_FRAME \<Longrightarrow> take_frame (frame_body body @ rest) = Some (body, rest)"
  by (simp add: take_frame_def frame_body_def Let_def unat_length_u32)

interpretation frames: length_prefix frame_body take_frame "\<lambda>body. length body \<le> MAX_FRAME"
  by unfold_locales (rule take_frame_body)

lemma codec_decode_take_frame:
  "take_frame src = Some (body, rest) \<Longrightarrow> codec_decode cb src = (rest, map_ok Some (decode_frame cb body))"
  by (auto simp: take_frame_def codec_decode_def Let_def split: if_splits)

lemma take_frame_append: "take_frame src = Some (body, rest) \<Longrightarrow> take_frame (src @ tail) = Some (body, rest @ tail)"
  by (auto simp: take_frame_def Let_def split: if_splits)

lemma codec_decode_append:
  assumes "codec_decode cb src = (rest, r)" and "r \<noteq> Ok None"
  shows "\<exists>rest'. codec_decode cb (src @ tail) = (rest', r) \<and> (is_ok r \<longrightarrow> rest' = rest @ tail)"
proof (cases "take_frame src")
  case (Some p)
  then obtain body rest' where p: "take_frame src = Some (body, rest')" by (metis surj_pair)
  with assms have "rest = rest'" "r = map_ok Some (decode_frame cb body)"
    by (simp_all add: codec_decode_take_frame)
  with codec_decode_take_frame [OF take_frame_append [OF p], of cb tail] show ?thesis by simp
next
  case None
  with assms show ?thesis
    by (auto simp: take_frame_def codec_decode_def Let_def split: if_splits)
qed

lemma codec_decode_pending:
  "codec_decode cb src = (rest, Ok None) \<Longrightarrow> rest = src \<and> length src < 4 + MAX_FRAME"
  by (auto simp: codec_decode_def Let_def split: if_splits result.splits elim: map_ok.elims)

section \<open>A stream of frames\<close>

lemma drain_unfold:
  "codec_decode cb src = (rest, Ok (Some msg)) \<Longrightarrow>
     drain_frames cb src = (case drain_frames cb rest of (msgs, e, rest') \<Rightarrow> (msg # msgs, e, rest'))"
  "codec_decode cb src = (rest, Ok None) \<Longrightarrow> drain_frames cb src = ([], None, rest)"
  "codec_decode cb src = (rest, Err e) \<Longrightarrow> drain_frames cb src = ([], Some e, rest)"
  by (simp_all add: drain_frames.simps [of cb src])

text \<open>More bytes after a buffer add to what it yields, and change nothing once it has failed.\<close>

definition continue :: "cbor_lib \<Rightarrow> message list \<times> frame_error option \<times> bytes \<Rightarrow> bytes
    \<Rightarrow> message list \<times> frame_error option \<times> bytes" where
  "continue cb = (\<lambda>(msgs, e, rest) tail.
     case e of
       Some e \<Rightarrow> (msgs, Some e, rest)
     | None \<Rightarrow> (case drain_frames cb (rest @ tail) of (msgs', e', rest') \<Rightarrow> (msgs @ msgs', e', rest')))"

definition same_result :: "message list \<times> frame_error option \<times> bytes
    \<Rightarrow> message list \<times> frame_error option \<times> bytes \<Rightarrow> bool" where
  "same_result x y \<longleftrightarrow> fst x = fst y \<and> fst (snd x) = fst (snd y) \<and> (fst (snd x) = None \<longrightarrow> snd (snd x) = snd (snd y))"

lemma drain_append: "same_result (drain_frames cb (src @ tail)) (continue cb (drain_frames cb src) tail)"
proof (induction cb src rule: drain_frames.induct)
  case (1 cb src)
  obtain rest r where d: "codec_decode cb src = (rest, r)" by fastforce
  consider (none) "r = Ok None" | (msg) msg where "r = Ok (Some msg)" | (err) e where "r = Err e"
    by (metis option.exhaust result.exhaust)
  then show ?case
  proof cases
    case none
    then have "rest = src" using d codec_decode_pending by blast
    with none d show ?thesis
      by (simp add: drain_unfold(2) continue_def same_result_def split: prod.split)
  next
    case (msg m)
    have d': "codec_decode cb (src @ tail) = (rest @ tail, Ok (Some m))"
      using codec_decode_append [OF d, of tail] msg by simp
    have "same_result (drain_frames cb (rest @ tail)) (continue cb (drain_frames cb rest) tail)"
      using 1 [OF d [symmetric]] msg by blast
    then show ?thesis
      using drain_unfold(1) [OF d'] drain_unfold(1) [OF d [unfolded msg]]
      by (auto simp: continue_def same_result_def split: prod.splits option.splits)
  next
    case (err e)
    obtain rest' where "codec_decode cb (src @ tail) = (rest', Err e)"
      using codec_decode_append [OF d, of tail] err by auto
    then show ?thesis
      using d err by (simp add: drain_unfold(3) continue_def same_result_def)
  qed
qed

lemma drain_rest:
  "drain_frames cb src = (msgs, None, rest) \<Longrightarrow>
     drain_frames cb rest = ([], None, rest) \<and> length rest < 4 + MAX_FRAME"
proof (induction cb src arbitrary: msgs rule: drain_frames.induct)
  case (1 cb src)
  obtain r rest' where d: "codec_decode cb src = (rest', r)" by fastforce
  consider (none) "r = Ok None" | (msg) msg where "r = Ok (Some msg)" | (err) e where "r = Err e"
    by (metis option.exhaust result.exhaust)
  then show ?case
  proof cases
    case none
    with 1 d codec_decode_pending [of cb src rest'] show ?thesis by (auto simp: drain_unfold(2))
  next
    case (msg m)
    obtain msgs' where "drain_frames cb rest' = (msgs', None, rest)"
      using drain_unfold(1) [OF d [unfolded msg]] "1.prems" by (auto split: prod.splits)
    with "1.IH" [OF d [symmetric]] msg show ?thesis by blast
  next
    case (err e)
    with 1 d show ?thesis by (simp add: drain_unfold(3))
  qed
qed

lemma read_chunks_drain:
  assumes "drain_frames cb buffer = ([], None, buffer)"
  shows "same_result (read_chunks cb buffer chunks) (drain_frames cb (buffer @ concat chunks))"
  using assms
proof (induction chunks arbitrary: buffer)
  case Nil
  then show ?case by (simp add: same_result_def)
next
  case (Cons chunk chunks)
  obtain msgs e rest where d: "drain_frames cb (buffer @ chunk) = (msgs, e, rest)" by (metis surj_pair)
  have whole: "same_result (drain_frames cb (buffer @ concat (chunk # chunks)))
      (continue cb (msgs, e, rest) (concat chunks))"
    using drain_append [of cb "buffer @ chunk" "concat chunks"] d by simp
  show ?case
  proof (cases e)
    case (Some x)
    with whole d show ?thesis by (simp add: continue_def same_result_def)
  next
    case None
    with d have "drain_frames cb rest = ([], None, rest)" using drain_rest by blast
    from Cons.IH [OF this] whole d None show ?thesis
      by (auto simp: continue_def same_result_def split: prod.splits)
  qed
qed

lemma drain_encoded:
  assumes "cbor_ok cb" and "list_all2 (\<lambda>msg frame. encode_frame cb msg = Ok frame) msgs frames"
  shows "drain_frames cb (concat frames) = (msgs, None, [])"
  using assms(2)
proof (induction msgs arbitrary: frames)
  case Nil
  then show ?case by (simp add: drain_unfold(2) codec_decode_def)
next
  case (Cons msg msgs)
  then obtain frame frames' where f: "frames = frame # frames'" "encode_frame cb msg = Ok frame"
    "list_all2 (\<lambda>msg frame. encode_frame cb msg = Ok frame) msgs frames'"
    by (auto simp: list_all2_Cons1)
  then obtain body where body: "cb_into_writer cb msg = Ok body" "length body \<le> MAX_FRAME"
    "frame = frame_body body"
    by (cases "cb_into_writer cb msg") (auto simp: encode_frame_def split: if_splits)
  have "codec_decode cb (frame @ concat frames') = (concat frames', Ok (Some msg))"
    using codec_decode_take_frame [OF frames.get_put [OF body(2), of "concat frames'"], of cb]
      assms(1) body by (simp add: decode_frame_def cbor_ok_def)
  from drain_unfold(1) [OF this] Cons.IH [OF f(3)] show ?case by (simp add: f(1))
qed

section \<open>Correctness\<close>

text \<open>
  (C23) Frames survive the byte stream: whatever messages are encoded, and however the network divides
  their frames into reads, the receiving side yields exactly these messages, in order, and is left
  with an empty buffer.
\<close>
theorem frames_survive_chunking:
  assumes "cbor_ok cb" and "list_all2 (\<lambda>msg frame. encode_frame cb msg = Ok frame) msgs frames"
    and "concat chunks = concat frames"
  shows "read_chunks cb [] chunks = (msgs, None, [])"
proof -
  have "drain_frames cb [] = ([], None, [])" by (simp add: drain_unfold(2) codec_decode_def)
  from read_chunks_drain [OF this, of chunks] drain_encoded [OF assms(1,2)] assms(3) show ?thesis
    by (simp add: same_result_def prod_eq_iff)
qed

text \<open>A CBOR encoder for the handshake message alone.\<close>

definition demo_cbor :: cbor_lib where
  "demo_cbor =
     \<lparr>cb_into_writer = (\<lambda>msg. case msg of Hello version \<Rightarrow> Ok (to_be_bytes version) | _ \<Rightarrow> Err ''unsupported''),
      cb_from_reader = (\<lambda>body. if length body = 4 then Ok (Hello (from_be_bytes body)) else Err ''malformed'')\<rparr>"

lemma demo_cbor_ok: "cbor_ok demo_cbor"
  by (auto simp: cbor_ok_def demo_cbor_def split: message.splits)

theorem frames_survive_chunking_witness:
  "read_chunks demo_cbor [] [[0, 0], [0, 4, 0], [0, 0, 2, 0, 0, 0, 4], [], [0, 0, 0, 7]] = ([Hello 2, Hello 7], None, [])"
proof (rule frames_survive_chunking [OF demo_cbor_ok])
  show "list_all2 (\<lambda>msg frame. encode_frame demo_cbor msg = Ok frame) [Hello 2, Hello 7]
      [[0, 0, 0, 4, 0, 0, 0, 2], [0, 0, 0, 4, 0, 0, 0, 7]]"
    by (simp add: encode_frame_def demo_cbor_def frame_body_def to_be_bytes_def MAX_FRAME_def)
qed simp

text \<open>
  A peer cannot make the reader hoard bytes: what a stream yields depends on its bytes alone and
  not on how they arrive, an unfinished frame never occupies more than \<open>MAX_FRAME + 3\<close> bytes, and a
  header that announces more is refused at once, before its body is read.
\<close>
theorem reader_bounded:
  "same_result (read_chunks cb [] chunks) (drain_frames cb (concat chunks))
   \<and> (fst (snd (read_chunks cb [] chunks)) = None \<longrightarrow>
        length (snd (snd (read_chunks cb [] chunks))) < 4 + MAX_FRAME)
   \<and> (MAX_FRAME < unat n \<longrightarrow> codec_decode cb (to_be_bytes n @ body) =
        (to_be_bytes n @ body, Err (FrameTooLarge (unat n))))"
proof -
  have e: "drain_frames cb [] = ([], None, [])" by (simp add: drain_unfold(2) codec_decode_def)
  have s: "same_result (read_chunks cb [] chunks) (drain_frames cb (concat chunks))"
    using read_chunks_drain [OF e, of chunks] by simp
  moreover have "length (snd (snd (read_chunks cb [] chunks))) < 4 + MAX_FRAME"
    if "fst (snd (read_chunks cb [] chunks)) = None"
    using s that drain_rest [of cb "concat chunks"] by (auto simp: same_result_def prod_eq_iff)
  moreover have "codec_decode cb (to_be_bytes n @ body) = (to_be_bytes n @ body, Err (FrameTooLarge (unat n)))"
    if "MAX_FRAME < unat n"
    using that by (simp add: codec_decode_def)
  ultimately show ?thesis by blast
qed

theorem reader_bounded_witness:
  "fst (snd (read_chunks demo_cbor [] [[0, 0], [0]])) = None
   \<and> length (snd (snd (read_chunks demo_cbor [] [[0, 0], [0]]))) < 4 + MAX_FRAME
   \<and> codec_decode demo_cbor (to_be_bytes 0x01000001 @ [])
       = (to_be_bytes 0x01000001 @ [], Err (FrameTooLarge (unat (0x01000001 :: u32))))"
proof -
  have "fst (snd (read_chunks demo_cbor [] [[0, 0], [0]])) = None"
    by (simp add: drain_unfold(2) codec_decode_def)
  moreover have "MAX_FRAME < unat (0x01000001 :: u32)" by (simp add: MAX_FRAME_def)
  ultimately show ?thesis
    using reader_bounded [where cb = demo_cbor and chunks = "[[0, 0], [0]]" and n = "0x01000001" and body = "[]"] by blast
qed

end
