(* ===== verification/NN_Dispatcher.thy ===== *)
theory NN_Dispatcher
  imports NN_Sidecar NN_AuthGate "HOL-Library.Multiset"
begin

text \<open>
  The service dispatcher (\<open>src/src/service_dispatcher.rs\<close>): the router between the controller and the
  local backends, and the task that owns the connection to one backend.

  \<open>backend_step\<close> is one turn of \<open>backend_task\<close> with its inner loop and \<open>wait_backoff\<close>: the phases are
  the awaits of the code, and the actions what it sends on its channels. \<open>dispatcher\<close> is
  \<open>ServiceDispatcher\<close> with the queues to its backends; \<open>route\<close> is one turn of \<open>run\<close>. A reply
  channel (\<open>oneshot::Sender\<close>) is a number. The lemmas show that every request that reaches a backend
  task is answered exactly once, that each control message gets one well-formed reply, which
  requests stay on the node, and the bounds of queues, timeouts and delays.
\<close>

section \<open>Data\<close>

definition INITIAL_BACKOFF :: nat where "INITIAL_BACKOFF = 1"
definition MAX_BACKOFF :: nat where "MAX_BACKOFF = 60"
definition BACKEND_QUEUE_CAPACITY :: nat where "BACKEND_QUEUE_CAPACITY = 64"

type_synonym reply_channel = nat
type_synonym service_outcome = "(service_response, string) result"

record inbound_request =
  in_service :: string
  in_payload :: bytes
  in_response_tx :: reply_channel

datatype backend_cmd = CmdRequest inbound_request | WriteReply message

datatype backend_event = Status string bool | Control string message

datatype local_route = RouteLocal string | RouteReject string | RouteRemote

section \<open>Routing\<close>

definition command_timeout :: "message \<Rightarrow> duration \<Rightarrow> duration \<Rightarrow> duration" where
  "command_timeout msg base kad =
     (let required =
            (case msg of
               ServiceRequest _ _ _ \<Rightarrow> kad + REQUEST_TIMEOUT * 2
             | ServiceRequestTo _ _ _ _ \<Rightarrow> kad + REQUEST_TIMEOUT * 2
             | QueryKey _ _ \<Rightarrow> kad + kad
             | ListServices _ \<Rightarrow> kad
             | DiscoverProviders _ _ \<Rightarrow> kad
             | ReannounceServices _ \<Rightarrow> kad
             | AddKey _ _ _ _ \<Rightarrow> kad + kad
             | _ \<Rightarrow> 0)
      in max required base + from_secs 5)"

text \<open>\<open>parse_peer\<close> is \<open>str::parse::<PeerId>\<close>.\<close>

fun route_local :: "(string \<Rightarrow> peer_id option) \<Rightarrow> string list \<Rightarrow> peer_id \<Rightarrow> message \<Rightarrow> local_route" where
  "route_local parse_peer ready my_peer_id (ServiceRequest id' service payload) =
     (if service \<in> set ready then RouteLocal service else RouteRemote)"
| "route_local parse_peer ready my_peer_id (ServiceRequestTo id' service peer payload) =
     (if parse_peer peer = Some my_peer_id
      then if service \<in> set ready then RouteLocal service
           else RouteReject (''local service '' @ service @ '' is not ready'')
      else RouteRemote)"
| "route_local parse_peer ready my_peer_id msg = RouteRemote"

definition error_reply :: "uuid \<Rightarrow> string \<Rightarrow> string \<Rightarrow> message" where
  "error_reply id' code message = Reply id' False None (Some \<lparr>se_code = code, se_message = message\<rparr>)"

text \<open>What comes of waiting on a reply channel with a timeout.\<close>

datatype 'a awaited = Answered 'a | ChannelClosed | TimedOut

fun control_reply :: "uuid \<Rightarrow> (bytes, string) result awaited \<Rightarrow> message" where
  "control_reply id' (Answered (Ok result)) = Reply id' True (Some result) None"
| "control_reply id' (Answered (Err e)) = error_reply id' ''command_failed'' e"
| "control_reply id' ChannelClosed = error_reply id' ''node_gone'' ''command channel closed''"
| "control_reply id' TimedOut = error_reply id' ''timeout'' ''command execution timeout''"

fun local_reply :: "uuid \<Rightarrow> service_outcome awaited \<Rightarrow> message" where
  "local_reply id' (Answered (Ok response)) =
     (if sr_success response then Reply id' True (Some (sr_data response)) None
      else
        (let message = from_utf8_lossy (sr_data response)
         in error_reply id' ''service_failed''
              (if message = [] then ''local service failed'' else message)))"
| "local_reply id' (Answered (Err error)) = error_reply id' ''backend_error'' error"
| "local_reply id' ChannelClosed = error_reply id' ''backend_error'' ''backend response channel closed''"
| "local_reply id' TimedOut = error_reply id' ''timeout'' ''local service request timeout''"

section \<open>Queues\<close>

text \<open>A bounded \<open>mpsc\<close> channel; \<open>bq_open\<close> is false once its receiver is gone.\<close>

record backend_queue =
  bq_items :: "backend_cmd list"
  bq_open :: bool

datatype try_send_error = QueueFull | QueueClosed

definition try_send :: "backend_cmd \<Rightarrow> backend_queue \<Rightarrow> backend_queue \<times> (unit, try_send_error) result" where
  "try_send cmd q =
     (if \<not> bq_open q then (q, Err QueueClosed)
      else if length (bq_items q) \<ge> BACKEND_QUEUE_CAPACITY then (q, Err QueueFull)
      else (q\<lparr>bq_items := bq_items q @ [cmd]\<rparr>, Ok ()))"

section \<open>The router\<close>

text \<open>
  The tasks the router spawns, by the point they have reached: about to hand a request to a local
  backend, waiting for its answer, waiting for the controller, or waiting for room in the queue of
  the backend that asked.
\<close>

datatype reply_task =
    StartLocal string string uuid bytes reply_channel
  | AwaitLocal string uuid reply_channel
  | AwaitController string uuid duration
  | SendReply string message

record dispatcher =
  ds_backends :: "string \<rightharpoonup> backend_queue"
  ds_my_peer_id :: peer_id
  ds_backend_ready :: "string list"
  ds_readiness :: "string list"
  ds_query_timeout :: duration
  ds_kad_timeout :: duration
  ds_tasks :: "reply_task list"

text \<open>
  What the router does to the outside: it answers an inbound request, hands a command to the
  controller, or queues a reply to a backend (\<open>False\<close> when the queue refuses it).
\<close>

datatype router_action =
    Respond reply_channel service_outcome
  | ToController message
  | ReplyTo string message bool

definition dispatcher_new :: "node_config \<Rightarrow> peer_id \<Rightarrow> dispatcher" where
  "dispatcher_new config my_peer_id =
     (let local_services = filter (\<lambda>svc. is_valid_service_name (ls_name svc)) (local_services config)
      in \<lparr>ds_backends = (if dispatcher_enabled config
                         then map_of (map (\<lambda>svc. (ls_name svc, \<lparr>bq_items = [], bq_open = True\<rparr>)) local_services)
                         else Map.empty),
          ds_my_peer_id = my_peer_id, ds_backend_ready = [], ds_readiness = [],
          ds_query_timeout = from_secs (unat (dispatcher_query_timeout config)),
          ds_kad_timeout = from_secs (unat (kademlia_query_timeout config)), ds_tasks = []\<rparr>)"

definition queue_cmd :: "string \<Rightarrow> backend_cmd \<Rightarrow> dispatcher \<Rightarrow> dispatcher \<times> (unit, try_send_error) result" where
  "queue_cmd service cmd d =
     (case ds_backends d service of
        None \<Rightarrow> (d, Err QueueClosed)
      | Some q \<Rightarrow>
          (case try_send cmd q of (q', r) \<Rightarrow> (d\<lparr>ds_backends := (ds_backends d)(service \<mapsto> q')\<rparr>, r)))"

definition queue_reply :: "string \<Rightarrow> message \<Rightarrow> dispatcher \<Rightarrow> dispatcher \<times> router_action list" where
  "queue_reply service msg d =
     (case queue_cmd service (WriteReply msg) d of (d', r) \<Rightarrow> (d', [ReplyTo service msg (is_ok r)]))"

definition add_task :: "reply_task \<Rightarrow> dispatcher \<Rightarrow> dispatcher" where
  "add_task t d = d\<lparr>ds_tasks := ds_tasks d @ [t]\<rparr>"

definition on_inbound :: "inbound_request \<Rightarrow> dispatcher \<Rightarrow> dispatcher \<times> router_action list" where
  "on_inbound req d =
     (case ds_backends d (in_service req) of
        None \<Rightarrow> (d, [Respond (in_response_tx req) (Err (''No backend for service '' @ in_service req))])
      | Some q \<Rightarrow>
          (case queue_cmd (in_service req) (CmdRequest req) d of
             (d', Ok _) \<Rightarrow> (d', [])
           | (d', Err e) \<Rightarrow>
               (let reason = (case e of QueueFull \<Rightarrow> ''backend overloaded'' | QueueClosed \<Rightarrow> ''No backend for service'')
                in (d', [Respond (in_response_tx req) (Err (reason @ '' '' @ in_service req))]))))"

definition on_status :: "string \<Rightarrow> bool \<Rightarrow> dispatcher \<Rightarrow> dispatcher" where
  "on_status service ready d =
     (let ready' = (if ready then List.insert service (ds_backend_ready d)
                    else removeAll service (ds_backend_ready d))
      in d\<lparr>ds_backend_ready := ready', ds_readiness := ready'\<rparr>)"

text \<open>\<open>tx\<close> is the fresh reply channel of the forwarded request.\<close>

definition forward_local ::
    "reply_channel \<Rightarrow> string \<Rightarrow> string \<Rightarrow> uuid \<Rightarrow> bytes \<Rightarrow> dispatcher \<Rightarrow> dispatcher \<times> router_action list" where
  "forward_local tx origin target id' payload d =
     (case ds_backends d origin of
        None \<Rightarrow> (d, [])
      | Some origin_tx \<Rightarrow>
          (case ds_backends d target of
             None \<Rightarrow> queue_reply origin (error_reply id' ''no_backend'' (''no backend for service '' @ target)) d
           | Some target_tx \<Rightarrow> (add_task (StartLocal origin target id' payload tx) d, [])))"

text \<open>\<open>controller_alive\<close> tells whether the controller still receives.\<close>

definition forward_control ::
    "(string \<Rightarrow> peer_id option) \<Rightarrow> reply_channel \<Rightarrow> bool \<Rightarrow> string \<Rightarrow> message \<Rightarrow> dispatcher
       \<Rightarrow> dispatcher \<times> router_action list" where
  "forward_control parse_peer tx controller_alive service msg d =
     (case message_id msg of
        None \<Rightarrow> (d, [])
      | Some id' \<Rightarrow>
          (case ds_backends d service of
             None \<Rightarrow> (d, [])
           | Some backend_tx \<Rightarrow>
               (case route_local parse_peer (ds_backend_ready d) (ds_my_peer_id d) msg of
                  RouteLocal target \<Rightarrow>
                    (let payload = (case msg of
                                      ServiceRequest _ _ payload \<Rightarrow> payload
                                    | ServiceRequestTo _ _ _ payload \<Rightarrow> payload
                                    | _ \<Rightarrow> [])
                     in forward_local tx service target id' payload d)
                | RouteReject reason \<Rightarrow> queue_reply service (error_reply id' ''backend_not_ready'' reason) d
                | RouteRemote \<Rightarrow>
                    (let budget = command_timeout msg (ds_query_timeout d) (ds_kad_timeout d)
                     in if \<not> controller_alive
                        then queue_reply service (error_reply id' ''node_gone'' ''node unavailable'') d
                        else (add_task (AwaitController service id' budget) d, [ToController msg])))))"

text \<open>What moves a task on: the scheduler, or the answer it waits for.\<close>

datatype task_input =
    Resume
  | ControllerSays "(bytes, string) result awaited"
  | BackendSays "service_outcome awaited"

fun run_task :: "reply_task \<Rightarrow> task_input \<Rightarrow> dispatcher \<Rightarrow> dispatcher \<times> reply_task option \<times> router_action list" where
  "run_task (StartLocal origin target id' payload tx) Resume d =
     (case queue_cmd target (CmdRequest \<lparr>in_service = target, in_payload = payload, in_response_tx = tx\<rparr>) d of
        (d', Ok _) \<Rightarrow> (d', Some (AwaitLocal origin id' tx), [])
      | (d', Err e) \<Rightarrow>
          (let message = (case e of QueueFull \<Rightarrow> ''backend queue full'' | QueueClosed \<Rightarrow> ''backend unavailable'')
           in (d', Some (SendReply origin (error_reply id' ''backend_busy'' message)), [])))"
| "run_task (AwaitLocal origin id' tx) (BackendSays outcome) d =
     (d, Some (SendReply origin (local_reply id' outcome)), [])"
| "run_task (AwaitController origin id' budget) (ControllerSays outcome) d =
     (d, Some (SendReply origin (control_reply id' outcome)), [])"
| "run_task (SendReply origin msg) Resume d =
     (case queue_cmd origin (WriteReply msg) d of
        (d', Ok _) \<Rightarrow> (d', None, [ReplyTo origin msg True])
      | (d', Err QueueClosed) \<Rightarrow> (d', None, [ReplyTo origin msg False])
      | (d', Err QueueFull) \<Rightarrow> (d, Some (SendReply origin msg), []))"
| "run_task t input d = (d, Some t, [])"

definition task_step :: "nat \<Rightarrow> task_input \<Rightarrow> dispatcher \<Rightarrow> dispatcher \<times> router_action list" where
  "task_step i input d =
     (if i < length (ds_tasks d)
      then case run_task (ds_tasks d ! i) input d of
             (d', t, actions) \<Rightarrow>
               (d'\<lparr>ds_tasks := (case t of
                    Some t' \<Rightarrow> (ds_tasks d')[i := t']
                  | None \<Rightarrow> take i (ds_tasks d') @ drop (Suc i) (ds_tasks d'))\<rparr>, actions)
      else (d, []))"

text \<open>One turn of the router, of one of its tasks, or of a backend at the other end of its queue.\<close>

datatype router_event =
    Inbound inbound_request
  | Backend backend_event reply_channel bool
  | TaskRuns nat task_input
  | Dequeued string
  | BackendGone string

fun route :: "(string \<Rightarrow> peer_id option) \<Rightarrow> router_event \<Rightarrow> dispatcher \<Rightarrow> dispatcher \<times> router_action list" where
  "route parse_peer (Inbound req) d = on_inbound req d"
| "route parse_peer (Backend (Status service ready) tx alive) d = (on_status service ready d, [])"
| "route parse_peer (Backend (Control service msg) tx alive) d = forward_control parse_peer tx alive service msg d"
| "route parse_peer (TaskRuns i input) d = task_step i input d"
| "route parse_peer (Dequeued service) d =
     (d\<lparr>ds_backends := (ds_backends d)(service :=
          map_option (\<lambda>q. q\<lparr>bq_items := tl (bq_items q)\<rparr>) (ds_backends d service))\<rparr>, [])"
| "route parse_peer (BackendGone service) d =
     (d\<lparr>ds_backends := (ds_backends d)(service :=
          map_option (\<lambda>q. q\<lparr>bq_items := [], bq_open := False\<rparr>) (ds_backends d service))\<rparr>, [])"

section \<open>The task of a backend\<close>

datatype backend_phase = Connecting | Handshaking | Serving | Waiting | Stopped

record backend =
  bk_service :: string
  bk_phase :: backend_phase
  bk_backoff :: nat
  bk_pending :: "(uuid \<times> reply_channel) list"

definition backend_new :: "string \<Rightarrow> backend" where
  "backend_new service =
     \<lparr>bk_service = service, bk_phase = Connecting, bk_backoff = INITIAL_BACKOFF, bk_pending = []\<rparr>"

text \<open>What the task sends: answers to requests, events to the router, frames to the backend.\<close>

datatype backend_action =
    Answer reply_channel service_outcome
  | Event backend_event
  | Written message

text \<open>\<open>Framed::send\<close>: the encoder may refuse the message, the socket may fail.\<close>

definition send_frame :: "cbor_lib \<Rightarrow> (unit, frame_error) result \<Rightarrow> message \<Rightarrow> (unit, frame_error) result" where
  "send_frame cb io msg = rbind (codec_encode cb msg []) (\<lambda>_. io)"

fun show_frame_error :: "frame_error \<Rightarrow> string" where
  "show_frame_error (FrameIo e) = ''io error: '' @ e"
| "show_frame_error (FrameTooLarge n) = ''frame too large: '' @ dec n @ '' bytes''"
| "show_frame_error (FrameEncode e) = ''cbor encode error: '' @ e"
| "show_frame_error (FrameDecode e) = ''cbor decode error: '' @ e"

definition version_message :: "u32 \<Rightarrow> string" where
  "version_message version =
     from_bytes [0xE5, 0x8D, 0x8F, 0xE8, 0xAE, 0xAE, 0xE7, 0x89, 0x88, 0xE6, 0x9C, 0xAC, 0xE4, 0xB8,
       0x8D, 0xE5, 0x85, 0xBC, 0xE5, 0xAE, 0xB9, 0x3A, 0x20, 0xE5, 0xAF, 0xB9, 0xE7, 0xAB, 0xAF,
       0x20]
     @ dec (unat version) @ from_bytes [0x2C, 0x20, 0xE6, 0x9C, 0xAC, 0xE7, 0xAB, 0xAF,
       0x20] @ dec (unat PROTOCOL_VERSION)"

definition not_hello_message :: string where
  "not_hello_message = from_bytes [0xE6, 0x9C, 0x9F, 0xE6, 0x9C, 0x9B, 0x20, 0x68, 0x65, 0x6C, 0x6C,
       0x6F, 0x20, 0xE9, 0xA6, 0x96, 0xE5, 0xB8, 0xA7]"

definition closed_message :: string where
  "closed_message = from_bytes [0xE8, 0xBF, 0x9E, 0xE6, 0x8E, 0xA5, 0xE5, 0x9C, 0xA8, 0xE6, 0x8F,
       0xA1, 0xE6, 0x89, 0x8B, 0xE5, 0x89, 0x8D, 0xE5, 0x85, 0xB3, 0xE9, 0x97, 0xAD]"

text \<open>The handshake: its own hello, then the first frame of the backend.\<close>

definition handshake ::
    "cbor_lib \<Rightarrow> (unit, frame_error) result \<Rightarrow> (message, frame_error) result option \<Rightarrow> (unit, string) result" where
  "handshake cb io frame =
     (case send_frame cb io (Hello PROTOCOL_VERSION) of
        Err e \<Rightarrow> Err (show_frame_error e)
      | Ok _ \<Rightarrow>
          (case frame of
             Some (Ok (Hello version)) \<Rightarrow>
               if version = PROTOCOL_VERSION then Ok ()
               else Err (version_message version)
           | Some (Ok _) \<Rightarrow> Err not_hello_message
           | Some (Err e) \<Rightarrow> Err (show_frame_error e)
           | None \<Rightarrow> Err closed_message))"

fun reply_outcome :: "bool \<Rightarrow> bytes option \<Rightarrow> sidecar_error option \<Rightarrow> service_outcome" where
  "reply_outcome True result error =
     Ok \<lparr>sr_success = True, sr_data = (case result of None \<Rightarrow> [] | Some data \<Rightarrow> data)\<rparr>"
| "reply_outcome False result error =
     Err (case error of None \<Rightarrow> ''backend error'' | Some e \<Rightarrow> se_message e)"

definition fail_pending :: "string \<Rightarrow> backend \<Rightarrow> backend_action list" where
  "fail_pending reason b = map (\<lambda>(id', tx). Answer tx (Err reason)) (bk_pending b)"

text \<open>The inner loop has ended without a shutdown.\<close>

definition disconnected :: "backend \<Rightarrow> backend \<times> backend_action list" where
  "disconnected b =
     (b\<lparr>bk_phase := Waiting, bk_pending := []\<rparr>,
      fail_pending ''backend disconnected'' b @ [Event (Status (bk_service b) False)])"

datatype backend_input =
    Connected "(unit, string) result"
  | Shaken "(unit, frame_error) result" "(message, frame_error) result option"
  | Frame "(message, frame_error) result option"
  | Command "backend_cmd option" uuid "(unit, frame_error) result"
  | Slept
  | Shutdown

fun backend_frame :: "(message, frame_error) result option \<Rightarrow> backend \<Rightarrow> backend \<times> backend_action list" where
  "backend_frame (Some (Ok (Reply id' ok result error))) b =
     (case hm_get (bk_pending b) id' of
        Some tx \<Rightarrow> (b\<lparr>bk_pending := hm_del id' (bk_pending b)\<rparr>, [Answer tx (reply_outcome ok result error)])
      | None \<Rightarrow> (b, []))"
| "backend_frame (Some (Ok msg)) b = (b, [Event (Control (bk_service b) msg)])"
| "backend_frame (Some (Err e)) b = disconnected b"
| "backend_frame None b = disconnected b"

text \<open>\<open>id'\<close> is the fresh id of \<open>Uuid::new_v4\<close>, \<open>io\<close> the outcome of the write.\<close>

fun backend_command ::
    "cbor_lib \<Rightarrow> backend_cmd option \<Rightarrow> uuid \<Rightarrow> (unit, frame_error) result \<Rightarrow> backend \<Rightarrow> backend \<times> backend_action list" where
  "backend_command cb None id' io b =
     (b\<lparr>bk_phase := Stopped, bk_pending := []\<rparr>, fail_pending ''dispatcher gone'' b)"
| "backend_command cb (Some (CmdRequest req)) id' io b =
     (let frame = Request id' (bk_service b) (in_payload req) in
      case send_frame cb io frame of
        Err e \<Rightarrow>
          (case disconnected b of
             (b', actions) \<Rightarrow>
               (b', Answer (in_response_tx req) (Err (''write to backend failed: '' @ show_frame_error e)) # actions))
      | Ok _ \<Rightarrow> (b\<lparr>bk_pending := hm_put id' (in_response_tx req) (bk_pending b)\<rparr>, [Written frame]))"
| "backend_command cb (Some (WriteReply msg)) id' io b =
     (case send_frame cb io msg of
        Err e \<Rightarrow> disconnected b
      | Ok _ \<Rightarrow> (b, [Written msg]))"

text \<open>While the task waits to reconnect, requests are refused and replies dropped.\<close>

fun waiting_command :: "backend_cmd option \<Rightarrow> backend \<Rightarrow> backend \<times> backend_action list" where
  "waiting_command None b = (b\<lparr>bk_phase := Stopped\<rparr>, [])"
| "waiting_command (Some (CmdRequest req)) b =
     (b, [Answer (in_response_tx req) (Err (''backend not connected: '' @ bk_service b))])"
| "waiting_command (Some (WriteReply msg)) b = (b, [])"

fun backend_step :: "cbor_lib \<Rightarrow> backend_input \<Rightarrow> backend \<Rightarrow> backend \<times> backend_action list" where
  "backend_step cb (Connected r) b =
     (if bk_phase b \<noteq> Connecting then (b, [])
      else case r of
        Ok _ \<Rightarrow> (b\<lparr>bk_phase := Handshaking\<rparr>, [])
      | Err e \<Rightarrow> (b\<lparr>bk_phase := Waiting\<rparr>, []))"
| "backend_step cb (Shaken io frame) b =
     (if bk_phase b \<noteq> Handshaking then (b, [])
      else case handshake cb io frame of
        Err e \<Rightarrow> (b\<lparr>bk_phase := Waiting\<rparr>, [])
      | Ok _ \<Rightarrow>
          (b\<lparr>bk_phase := Serving, bk_backoff := INITIAL_BACKOFF, bk_pending := []\<rparr>,
           [Event (Status (bk_service b) True)]))"
| "backend_step cb (Frame frame) b = (if bk_phase b = Serving then backend_frame frame b else (b, []))"
| "backend_step cb (Command cmd id' io) b =
     (if bk_phase b = Serving then backend_command cb cmd id' io b
      else if bk_phase b = Waiting then waiting_command cmd b
      else (b, []))"
| "backend_step cb Slept b =
     (if bk_phase b = Waiting
      then (b\<lparr>bk_phase := Connecting, bk_backoff := min (bk_backoff b * 2) MAX_BACKOFF\<rparr>, [])
      else (b, []))"
| "backend_step cb Shutdown b =
     (if bk_phase b = Serving
      then (b\<lparr>bk_phase := Stopped, bk_pending := []\<rparr>, fail_pending ''backend disconnected'' b)
      else if bk_phase b = Waiting then (b\<lparr>bk_phase := Stopped\<rparr>, [])
      else (b, []))"

section \<open>A backend answers every request once\<close>

lemma mset_hm_put: "k \<notin> hm_keys m \<Longrightarrow> mset (map snd (hm_put k v m)) = add_mset v (mset (map snd m))"
  by (induction m) auto

lemma mset_hm_del:
  "hm_wf m \<Longrightarrow> hm_get m k = Some v \<Longrightarrow> mset (map snd m) = add_mset v (mset (map snd (hm_del k m)))"
proof (induction m)
  case (Cons p m)
  show ?case
  proof (cases "fst p = k")
    case True
    then have "hm_del k m = m" using Cons.prems(1) by (intro delete_id) (auto simp: hm_wf_def)
    with True Cons.prems show ?thesis by (cases p) simp
  next
    case False
    with Cons show ?thesis by (cases p) (auto simp: hm_wf_def)
  qed
qed simp

definition backend_ok :: "backend \<Rightarrow> bool" where
  "backend_ok b \<longleftrightarrow> hm_wf (bk_pending b) \<and> (bk_phase b \<noteq> Serving \<longrightarrow> bk_pending b = [])
     \<and> INITIAL_BACKOFF \<le> bk_backoff b \<and> bk_backoff b \<le> MAX_BACKOFF"

text \<open>The reply channels that an input hands over and that actions use up.\<close>

fun taken :: "backend_input \<Rightarrow> backend \<Rightarrow> reply_channel list" where
  "taken (Command (Some (CmdRequest req)) id' io) b =
     (if bk_phase b = Serving \<or> bk_phase b = Waiting then [in_response_tx req] else [])"
| "taken i b = []"

fun answered :: "backend_action \<Rightarrow> reply_channel option" where
  "answered (Answer tx outcome) = Some tx"
| "answered a = None"

abbreviation answers :: "backend_action list \<Rightarrow> reply_channel list" where
  "answers as \<equiv> List.map_filter answered as"

lemma answers_simps [simp]:
  "answers [] = []" "answers (Answer tx r # as) = tx # answers as" "answers (Event e # as) = answers as"
  "answers (Written m # as) = answers as" "answers (as @ bs) = answers as @ answers bs"
  by (simp_all add: List.map_filter_def)

lemma answers_fail_pending [simp]: "answers (fail_pending reason b) = map snd (bk_pending b)"
  by (auto simp: fail_pending_def List.map_filter_def comp_def split_def)

text \<open>A new request gets an id that no pending request has.\<close>

fun fresh_id :: "backend_input \<Rightarrow> backend \<Rightarrow> bool" where
  "fresh_id (Command (Some (CmdRequest req)) id' io) b \<longleftrightarrow> id' \<notin> hm_keys (bk_pending b)"
| "fresh_id i b \<longleftrightarrow> True"

lemma disconnected_step:
  assumes "disconnected b = (b', as)"
  shows "mset (answers as) = mset (map snd (bk_pending b)) \<and> bk_pending b' = [] \<and> bk_phase b' = Waiting
     \<and> bk_backoff b' = bk_backoff b \<and> bk_service b' = bk_service b"
  using assms by (auto simp: disconnected_def)

lemma backend_frame_step:
  assumes "backend_ok b" and "bk_phase b = Serving" and "backend_frame frame b = (b', as)"
  shows "backend_ok b' \<and> mset (map snd (bk_pending b)) = mset (answers as) + mset (map snd (bk_pending b'))"
proof (cases "(frame, b)" rule: backend_frame.cases)
  case (1 id' ok result error b)
  with assms show ?thesis
    using mset_hm_del [of "bk_pending b" id'] by (auto simp: backend_ok_def split: option.splits)
qed (use assms disconnected_step [of b b' as] in \<open>auto simp: backend_ok_def\<close>)

lemma backend_command_step:
  assumes "backend_ok b" and "bk_phase b = Serving" and "fresh_id (Command cmd id' io) b"
    and "backend_command cb cmd id' io b = (b', as)"
  shows "backend_ok b' \<and> mset (taken (Command cmd id' io) b) + mset (map snd (bk_pending b))
     = mset (answers as) + mset (map snd (bk_pending b'))"
proof (cases "(cb, cmd, id', io, b)" rule: backend_command.cases)
  case (2 cb' req id'' io' b'')
  obtain c bs where d: "disconnected b = (c, bs)" by fastforce
  with 2 assms show ?thesis
    using mset_hm_put [of id' "bk_pending b" "in_response_tx req"] disconnected_step [OF d]
    by (auto simp: backend_ok_def Let_def split: result.splits)
next
  case (3 cb' msg id'' io' b'')
  with assms disconnected_step [of b b' as] show ?thesis
    by (auto simp: backend_ok_def split: result.splits)
qed (use assms in \<open>auto simp: backend_ok_def\<close>)

lemma backend_step_ok:
  assumes "backend_ok b" and "fresh_id i b" and "backend_step cb i b = (b', as)"
  shows "backend_ok b' \<and> mset (taken i b) + mset (map snd (bk_pending b))
     = mset (answers as) + mset (map snd (bk_pending b'))"
proof (cases i)
  case (Frame frame)
  with assms backend_frame_step [OF assms(1), of frame b' as] show ?thesis by (auto split: if_splits)
next
  case (Command cmd id' io)
  show ?thesis
  proof (cases "bk_phase b = Serving")
    case True
    with Command assms backend_command_step [OF assms(1) True, of cmd id' io cb b' as] show ?thesis by simp
  next
    case False
    with Command assms show ?thesis
      by (cases "(cmd, b)" rule: waiting_command.cases) (auto simp: backend_ok_def split: if_splits)
  qed
qed (use assms in \<open>auto simp: backend_ok_def INITIAL_BACKOFF_def MAX_BACKOFF_def split: if_splits result.splits\<close>)

text \<open>A run keeps the channels taken and the channels answered so far.\<close>

type_synonym backend_run = "backend \<times> reply_channel list \<times> reply_channel list"

definition run_step :: "cbor_lib \<Rightarrow> backend_input \<Rightarrow> backend_run \<Rightarrow> backend_run" where
  "run_step cb i = (\<lambda>(b, ts, as).
     (case backend_step cb i b of (b', acts) \<Rightarrow> (b', ts @ taken i b, as @ answers acts)))"

definition run_inv :: "backend_run \<Rightarrow> bool" where
  "run_inv = (\<lambda>(b, ts, as). backend_ok b \<and> mset ts = mset as + mset (map snd (bk_pending b)))"

interpretation backends: guarded_system "(backend_new service, [], [])" "\<lambda>i r. fresh_id i (fst r)"
  "run_step cb" run_inv for service cb
proof
  show "run_inv (backend_new service, [], [])"
    by (simp add: run_inv_def backend_ok_def backend_new_def INITIAL_BACKOFF_def MAX_BACKOFF_def)
  show "run_inv (run_step cb i r)" if "run_inv r" "fresh_id i (fst r)" for i r
  proof -
    obtain b ts as where r: "r = (b, ts, as)" by (metis surj_pair)
    obtain b' acts where s: "backend_step cb i b = (b', acts)" by fastforce
    have "backend_ok b'" and "mset (taken i b) + mset (map snd (bk_pending b))
        = mset (answers acts) + mset (map snd (bk_pending b'))"
      using backend_step_ok [OF _ _ s] that by (auto simp: r run_inv_def)
    with that show ?thesis by (simp add: r s run_step_def run_inv_def ac_simps)
  qed
qed

section \<open>Reconnecting\<close>

lemma backoff_pow: "((\<lambda>b. min (b * 2) MAX_BACKOFF) ^^ n) INITIAL_BACKOFF = min (2 ^ n) MAX_BACKOFF"
  by (induction n) (auto simp: INITIAL_BACKOFF_def MAX_BACKOFF_def)

interpretation reconnect: backoff_schedule
  "\<lambda>n. ((\<lambda>b. min (b * 2) MAX_BACKOFF) ^^ n) INITIAL_BACKOFF" INITIAL_BACKOFF MAX_BACKOFF
proof
  show "((\<lambda>b. min (b * 2) MAX_BACKOFF) ^^ m) INITIAL_BACKOFF \<le> ((\<lambda>b. min (b * 2) MAX_BACKOFF) ^^ n) INITIAL_BACKOFF"
    if "m \<le> n" for m n
    unfolding backoff_pow using that by (intro min.mono power_increasing) auto
qed (simp_all add: backoff_pow, simp_all add: INITIAL_BACKOFF_def MAX_BACKOFF_def)

section \<open>The router answers every control message once\<close>

fun reply_ok :: "uuid \<Rightarrow> message \<Rightarrow> bool" where
  "reply_ok id' (Reply i ok result error) \<longleftrightarrow>
     i = id' \<and> (ok \<longleftrightarrow> result \<noteq> None) \<and> (ok \<longleftrightarrow> error = None)"
| "reply_ok id' msg \<longleftrightarrow> False"

lemma reply_ok_error [simp]: "reply_ok id' (error_reply id' code message)"
  by (simp add: error_reply_def)

lemma reply_ok_control [simp]: "reply_ok id' (control_reply id' outcome)"
  by (cases "(id', outcome)" rule: control_reply.cases) simp_all

lemma reply_ok_local [simp]: "reply_ok id' (local_reply id' outcome)"
  by (cases "(id', outcome)" rule: local_reply.cases) (simp_all add: Let_def)

lemma reply_ok_ex [simp]:
  "\<exists>i. reply_ok i (error_reply id' code message)" "\<exists>i. reply_ok i (control_reply id' co)"
  "\<exists>i. reply_ok i (local_reply id' lo)"
  using reply_ok_error reply_ok_control reply_ok_local by blast+

lemma reply_ok_id: "reply_ok id' msg \<Longrightarrow> message_id msg = Some id'"
  by (cases msg) auto

lemma error_reply_id [simp]: "message_id (error_reply id' code message) = Some id'"
  by (simp add: error_reply_def)

lemma control_reply_id [simp]: "message_id (control_reply id' outcome) = Some id'"
  by (rule reply_ok_id) simp

lemma local_reply_id [simp]: "message_id (local_reply id' outcome) = Some id'"
  by (rule reply_ok_id) simp

fun task_owner :: "reply_task \<Rightarrow> string \<times> uuid" where
  "task_owner (StartLocal origin target id' payload tx) = (origin, id')"
| "task_owner (AwaitLocal origin id' tx) = (origin, id')"
| "task_owner (AwaitController origin id' budget) = (origin, id')"
| "task_owner (SendReply origin msg) = (origin, the (message_id msg))"

fun task_ok :: "reply_task \<Rightarrow> bool" where
  "task_ok (SendReply origin msg) \<longleftrightarrow> (\<exists>id'. reply_ok id' msg)"
| "task_ok t \<longleftrightarrow> True"

fun replied :: "router_action \<Rightarrow> (string \<times> uuid) option" where
  "replied (ReplyTo origin msg sent) = Some (origin, the (message_id msg))"
| "replied a = None"

fun action_ok :: "router_action \<Rightarrow> bool" where
  "action_ok (ReplyTo origin msg sent) \<longleftrightarrow> (\<exists>id'. reply_ok id' msg)"
| "action_ok a \<longleftrightarrow> True"

text \<open>The control messages that are due a reply.\<close>

fun asked :: "router_event \<Rightarrow> dispatcher \<Rightarrow> (string \<times> uuid) list" where
  "asked (Backend (Control service msg) tx alive) d =
     (case (message_id msg, ds_backends d service) of
        (Some id', Some q) \<Rightarrow> [(service, id')]
      | _ \<Rightarrow> [])"
| "asked e d = []"

abbreviation replies :: "router_action list \<Rightarrow> (string \<times> uuid) list" where
  "replies as \<equiv> List.map_filter replied as"

definition queues_ok :: "dispatcher \<Rightarrow> bool" where
  "queues_ok d \<longleftrightarrow> (\<forall>service q. ds_backends d service = Some q \<longrightarrow> length (bq_items q) \<le> BACKEND_QUEUE_CAPACITY)"

definition router_ok :: "dispatcher \<Rightarrow> bool" where
  "router_ok d \<longleftrightarrow> queues_ok d \<and> list_all task_ok (ds_tasks d) \<and> ds_readiness d = ds_backend_ready d"

lemma queue_cmd_props:
  assumes "queue_cmd service cmd d = (d', r)"
  shows "ds_tasks d' = ds_tasks d" and "ds_readiness d' = ds_readiness d"
    and "ds_backend_ready d' = ds_backend_ready d" and "queues_ok d \<Longrightarrow> queues_ok d'"
  using assms by (auto simp: queue_cmd_def try_send_def queues_ok_def split: option.splits if_splits)

lemma router_ok_queue: "queue_cmd service cmd d = (d', r) \<Longrightarrow> router_ok d \<Longrightarrow> router_ok d'"
  using queue_cmd_props [of service cmd d d' r] by (simp add: router_ok_def)

lemma replies_simps [simp]:
  "replies [] = []" "replies (ReplyTo o' msg sent # as) = (o', the (message_id msg)) # replies as"
  "replies (Respond tx r # as) = replies as" "replies (ToController m # as) = replies as"
  by (simp_all add: List.map_filter_def)

definition step_ok :: "(string \<times> uuid) list \<Rightarrow> dispatcher \<Rightarrow> dispatcher \<times> router_action list \<Rightarrow> bool" where
  "step_ok due d = (\<lambda>(d', as). router_ok d' \<and> list_all action_ok as
     \<and> mset due + mset (map task_owner (ds_tasks d)) = mset (replies as) + mset (map task_owner (ds_tasks d')))"

lemma queue_reply_ok:
  assumes "router_ok d" and "reply_ok id' msg"
  shows "step_ok [(service, id')] d (queue_reply service msg d)"
proof -
  obtain d' r where q: "queue_cmd service (WriteReply msg) d = (d', r)" by fastforce
  with assms router_ok_queue [OF q] queue_cmd_props [OF q] show ?thesis
    by (auto simp: step_ok_def queue_reply_def reply_ok_id)
qed

lemma add_task_ok:
  assumes "router_ok d" and "task_ok t" and "list_all action_ok as" and "replies as = []"
  shows "step_ok [task_owner t] d (add_task t d, as)"
  using assms by (simp add: step_ok_def add_task_def router_ok_def queues_ok_def)

lemma step_ok_same: "router_ok d \<Longrightarrow> step_ok [] d (d, [])"
  by (simp add: step_ok_def)

lemma forward_control_ok:
  assumes "router_ok d"
  shows "step_ok (asked (Backend (Control service msg) tx alive) d) d
           (forward_control parse_peer tx alive service msg d)"
proof (cases "message_id msg")
  case None
  with assms show ?thesis by (simp add: forward_control_def step_ok_same)
next
  case (Some id')
  show ?thesis
  proof (cases "ds_backends d service")
    case None
    with Some assms show ?thesis by (simp add: forward_control_def step_ok_same)
  next
    case q: (Some q)
    have task: "step_ok [(service, id')] d (add_task t d, as)"
      if "task_owner t = (service, id')" "task_ok t" "as = [] \<or> as = [ToController msg]" for t as
      using add_task_ok [OF assms, of t as] that by auto
    have reply: "step_ok [(service, id')] d (queue_reply service (error_reply id' code reason) d)" for code reason
      by (rule queue_reply_ok [OF assms]) simp
    show ?thesis
      using Some q
      by (auto simp: forward_control_def forward_local_def Let_def reply
          split: local_route.split option.split intro!: task)
  qed
qed

lemma on_inbound_ok: "router_ok d \<Longrightarrow> step_ok [] d (on_inbound req d)"
  using router_ok_queue [of "in_service req" "CmdRequest req" d] queue_cmd_props(1) [of "in_service req" "CmdRequest req" d]
  by (auto simp: step_ok_def on_inbound_def Let_def split: option.splits prod.splits result.splits)

lemma run_task_ok:
  assumes "router_ok d" and "task_ok t" and "run_task t input d = (d', t', as)"
  shows "router_ok d' \<and> ds_tasks d' = ds_tasks d \<and> list_all action_ok as
     \<and> (case t' of None \<Rightarrow> replies as = [task_owner t]
        | Some t'' \<Rightarrow> task_ok t'' \<and> task_owner t'' = task_owner t \<and> replies as = [])"
proof (cases "(t, input, d)" rule: run_task.cases)
  case (1 origin target id' payload tx d0)
  let ?cmd = "CmdRequest \<lparr>in_service = target, in_payload = payload, in_response_tx = tx\<rparr>"
  obtain d1 r where q: "queue_cmd target ?cmd d = (d1, r)" by fastforce
  with 1 assms router_ok_queue [OF q] queue_cmd_props(1) [OF q] show ?thesis
    by (cases r) (auto simp: Let_def)
next
  case (4 origin msg d0)
  obtain d1 r where q: "queue_cmd origin (WriteReply msg) d = (d1, r)" by fastforce
  with 4 assms router_ok_queue [OF q] queue_cmd_props(1) [OF q] show ?thesis
    by (auto split: result.splits try_send_error.splits)
qed (use assms in auto)

lemma mset_update_owner:
  "i < length ts \<Longrightarrow> task_owner t' = task_owner (ts ! i) \<Longrightarrow>
     map task_owner (ts[i := t']) = map task_owner ts"
  by (metis list_update_id map_update)

lemma mset_remove_owner:
  assumes "i < length ts"
  shows "mset (map task_owner ts) = add_mset (task_owner (ts ! i)) (mset (map task_owner (take i ts @ drop (Suc i) ts)))"
proof -
  have "ts = take i ts @ ts ! i # drop (Suc i) ts" using assms by (rule id_take_nth_drop)
  then have "mset (map task_owner ts) = mset (map task_owner (take i ts @ ts ! i # drop (Suc i) ts))" by simp
  then show ?thesis by (simp del: append_take_drop_id)
qed

lemma task_step_ok:
  assumes "router_ok d"
  shows "step_ok [] d (task_step i input d)"
proof (cases "i < length (ds_tasks d)")
  case False
  with assms show ?thesis by (simp add: task_step_def step_ok_same)
next
  case True
  obtain d' t' as where r: "run_task (ds_tasks d ! i) input d = (d', t', as)" by (metis prod_cases3)
  have t: "task_ok (ds_tasks d ! i)" using assms True by (simp add: router_ok_def list_all_length)
  note p = run_task_ok [OF assms t r]
  have all: "list_all task_ok (ds_tasks d)" using assms by (simp add: router_ok_def)
  show ?thesis
  proof (cases t')
    case None
    have "list_all task_ok (take i (ds_tasks d) @ drop (Suc i) (ds_tasks d))"
      using all by (auto simp: list_all_iff dest: in_set_takeD in_set_dropD)
    with None p r True mset_remove_owner [OF True] show ?thesis
      by (auto simp: task_step_def step_ok_def router_ok_def queues_ok_def)
  next
    case (Some t'')
    have "list_all task_ok ((ds_tasks d)[i := t''])"
      using all Some p by (auto simp: list_all_iff dest!: set_update_subset_insert [THEN subsetD])
    moreover have "map task_owner ((ds_tasks d)[i := t'']) = map task_owner (ds_tasks d)"
      using Some p True by (intro mset_update_owner) auto
    then have "image_mset task_owner (mset ((ds_tasks d)[i := t''])) = image_mset task_owner (mset (ds_tasks d))"
      by (metis mset_map)
    ultimately show ?thesis
      using Some p r True by (simp add: task_step_def step_ok_def router_ok_def queues_ok_def del: map_update)
  qed
qed

lemma queues_ok_queue:
  assumes "queues_ok d" and "\<And>q. ds_backends d service = Some q \<Longrightarrow> length (bq_items (f q)) \<le> length (bq_items q)"
  shows "queues_ok (d\<lparr>ds_backends := (ds_backends d)(service := map_option f (ds_backends d service))\<rparr>)"
  using assms by (fastforce simp: queues_ok_def)

lemma route_ok:
  assumes "router_ok d"
  shows "step_ok (asked e d) d (route parse_peer e d)"
proof (cases "(parse_peer, e, d)" rule: route.cases)
  case (1 _ req _)
  with on_inbound_ok [OF assms] show ?thesis by simp
next
  case (2 _ service ready tx alive _)
  with assms show ?thesis by (auto simp: step_ok_def on_status_def Let_def router_ok_def queues_ok_def)
next
  case (3 _ service msg tx alive _)
  with forward_control_ok [OF assms] show ?thesis by (simp del: asked.simps)
next
  case (4 _ i input _)
  with task_step_ok [OF assms] show ?thesis by simp
next
  case (5 _ service _)
  with assms queues_ok_queue [of d service "\<lambda>q. q\<lparr>bq_items := tl (bq_items q)\<rparr>"] show ?thesis
    by (auto simp: step_ok_def router_ok_def)
next
  case (6 _ service _)
  with assms queues_ok_queue [of d service "\<lambda>q. q\<lparr>bq_items := [], bq_open := False\<rparr>"] show ?thesis
    by (auto simp: step_ok_def router_ok_def)
qed

type_synonym router_run = "dispatcher \<times> (string \<times> uuid) list \<times> router_action list"

definition router_step :: "(string \<Rightarrow> peer_id option) \<Rightarrow> router_event \<Rightarrow> router_run \<Rightarrow> router_run" where
  "router_step parse_peer e = (\<lambda>(d, qs, acts).
     (case route parse_peer e d of (d', as) \<Rightarrow> (d', qs @ asked e d, acts @ as)))"

definition router_inv :: "router_run \<Rightarrow> bool" where
  "router_inv = (\<lambda>(d, qs, acts). router_ok d \<and> list_all action_ok acts
     \<and> mset qs = mset (replies acts) + mset (map task_owner (ds_tasks d)))"

lemma replies_append [simp]: "replies (as @ bs) = replies as @ replies bs"
  by (simp add: List.map_filter_def)

lemma router_ok_new: "router_ok (dispatcher_new config me)"
  by (auto simp: router_ok_def dispatcher_new_def queues_ok_def Let_def BACKEND_QUEUE_CAPACITY_def
      dest!: map_of_SomeD split: if_splits)

lemma router_inv_step:
  assumes "router_inv r"
  shows "router_inv (router_step parse_peer e r)"
proof -
  obtain d qs acts where r: "r = (d, qs, acts)" by (metis surj_pair)
  obtain d' as where s: "route parse_peer e d = (d', as)" by fastforce
  have "step_ok (asked e d) d (d', as)" using route_ok [of d e parse_peer] assms s by (simp add: r router_inv_def)
  with assms show ?thesis
    by (simp add: r s router_inv_def router_step_def step_ok_def ac_simps)
qed

interpretation router: invariant_system "(dispatcher_new config me, [], [])" "router_step parse_peer" router_inv
  for config me parse_peer
proof
  show "router_inv (dispatcher_new config me, [], [])"
    using router_ok_new [of config me] by (simp add: router_inv_def, simp add: dispatcher_new_def Let_def)
qed (rule router_inv_step)

section \<open>Readiness\<close>

fun status_after :: "string \<Rightarrow> router_event \<Rightarrow> bool \<Rightarrow> bool" where
  "status_after service (Backend (Status s ready) tx alive) r = (if s = service then ready else r)"
| "status_after service e r = r"

definition last_status :: "string \<Rightarrow> router_event list \<Rightarrow> bool" where
  "last_status service es = fold (status_after service) es False"

lemma run_task_ready: "ds_backend_ready (fst (run_task t input d)) = ds_backend_ready d"
  using queue_cmd_props(3)
  by (cases "(t, input, d)" rule: run_task.cases)
     (auto simp: Let_def split: prod.splits result.splits try_send_error.splits)

lemma route_ready:
  "ds_backend_ready (fst (route parse_peer e d)) =
     (case e of Backend (Status s ready) tx alive \<Rightarrow>
        (if ready then List.insert s (ds_backend_ready d) else removeAll s (ds_backend_ready d))
      | _ \<Rightarrow> ds_backend_ready d)"
proof (cases "(parse_peer, e, d)" rule: route.cases)
  case (1 _ req _)
  then show ?thesis
    using queue_cmd_props(3) by (auto simp: on_inbound_def Let_def split: option.splits prod.splits result.splits)
next
  case (3 _ service msg tx alive _)
  then show ?thesis
    using queue_cmd_props(3)
    by (auto simp: forward_control_def forward_local_def queue_reply_def add_task_def Let_def
        split: option.splits prod.splits local_route.splits)
next
  case (4 _ i input _)
  then show ?thesis
    using run_task_ready [of "ds_tasks d ! i" input d] by (auto simp: task_step_def split: prod.splits)
qed (auto simp: on_status_def Let_def)

lemma router_run_ready:
  "x \<in> set (ds_backend_ready (fst (fold (router_step parse_peer) es (d, qs, acts)))) \<longleftrightarrow>
     fold (status_after x) es (x \<in> set (ds_backend_ready d))"
proof (induction es arbitrary: d qs acts)
  case (Cons e es)
  obtain d' as where s: "route parse_peer e d = (d', as)" by fastforce
  have "x \<in> set (ds_backend_ready d') \<longleftrightarrow> status_after x e (x \<in> set (ds_backend_ready d))"
    using route_ready [of parse_peer e d] s
    by (cases "(x, e, x \<in> set (ds_backend_ready d))" rule: status_after.cases) auto
  moreover have "router_step parse_peer e (d, qs, acts) = (d', qs @ asked e d, acts @ as)"
    by (simp add: router_step_def s)
  ultimately show ?case using Cons.IH [of d' "qs @ asked e d" "acts @ as"] by simp
qed simp

section \<open>Correctness\<close>

text \<open>
  (C20) Every request that reaches the task of a backend is answered exactly once. In every run in which
  new request ids are fresh, the reply channels handed to the task are those it has answered and
  those of its pending requests, each counted once; outside a connection nothing is pending, so a
  lost connection, a shutdown or a closed dispatcher leaves no request without an answer; and the
  pause before a reconnection stays between one and sixty seconds.
\<close>
theorem backend_answers_once:
  assumes "valid_run (\<lambda>i r. fresh_id i (fst r)) (run_step cb) inputs (backend_new service, [], [])"
    and "fold (run_step cb) inputs (backend_new service, [], []) = (b, received, sent)"
  shows "mset received = mset sent + mset (map snd (bk_pending b))
     \<and> (bk_phase b = Serving \<or> mset received = mset sent) \<and> 1 \<le> bk_backoff b \<and> bk_backoff b \<le> 60"
  using backends.inv_reachable [OF assms(1)] assms(2)
  by (auto simp: run_inv_def backend_ok_def INITIAL_BACKOFF_def MAX_BACKOFF_def)


text \<open>
  The readiness the dispatcher publishes is that of the last status of each backend: a service is
  in the published set exactly when the last event about its connection said that it is up.
\<close>
theorem readiness_follows_status:
  assumes "d = fst (fold (router_step parse_peer) es (dispatcher_new config me, [], []))"
  shows "x \<in> set (ds_readiness d) \<longleftrightarrow> last_status x es"
proof -
  have "ds_readiness d = ds_backend_ready d"
    using router.inv_always [of parse_peer es config me] assms
    by (auto simp: router_inv_def router_ok_def split: prod.splits)
  then show ?thesis
    using router_run_ready [of x parse_peer es "dispatcher_new config me" "[]" "[]"] assms
    by (simp add: last_status_def) (simp add: dispatcher_new_def Let_def)
qed

text \<open>
  A request for a service of the node itself never leaves it: the router hands a service request to
  the controller only when no ready backend serves it, and a request addressed to a peer only when
  that peer is another node; and the controller has at least the Kademlia timeout and two request
  timeouts to answer it.
\<close>
theorem own_requests_stay_local:
  assumes "ToController msg \<in> set (snd (forward_control parse_peer tx alive service msg' d))"
  shows "msg = msg' \<and> alive
     \<and> (case msg of
          ServiceRequest id' target payload \<Rightarrow> target \<notin> set (ds_backend_ready d)
        | ServiceRequestTo id' target peer payload \<Rightarrow> parse_peer peer \<noteq> Some (ds_my_peer_id d)
        | _ \<Rightarrow> True)
     \<and> (\<exists>id' budget. ds_tasks (fst (forward_control parse_peer tx alive service msg' d)) =
            ds_tasks d @ [AwaitController service id' budget]
          \<and> (case msg of
               ServiceRequest _ _ _ \<Rightarrow> ds_kad_timeout d + from_secs 65 \<le> budget
             | ServiceRequestTo _ _ _ _ \<Rightarrow> ds_kad_timeout d + from_secs 65 \<le> budget
             | _ \<Rightarrow> ds_query_timeout d + from_secs 5 \<le> budget))"
proof -
  obtain id' where i: "message_id msg' = Some id'"
    using assms by (cases "message_id msg'") (auto simp: forward_control_def)
  obtain q where q: "ds_backends d service = Some q"
    using assms i by (cases "ds_backends d service") (auto simp: forward_control_def)
  have no: "ToController msg \<notin> set (snd (queue_reply s m d))" for s m
    by (simp add: queue_reply_def split: prod.split)
  have r: "route_local parse_peer (ds_backend_ready d) (ds_my_peer_id d) msg' = RouteRemote"
    using assms i q no
    by (cases "route_local parse_peer (ds_backend_ready d) (ds_my_peer_id d) msg'")
       (auto simp: forward_control_def forward_local_def Let_def split: option.splits)
  then have f: "forward_control parse_peer tx alive service msg' d =
      (add_task (AwaitController service id' (command_timeout msg' (ds_query_timeout d) (ds_kad_timeout d))) d,
       [ToController msg'])" and alive
    using assms i q no by (auto simp: forward_control_def Let_def split: if_splits)
  with assms have "msg = msg'" by simp
  with r f \<open>alive\<close> show ?thesis
    by (cases msg') (auto simp: add_task_def command_timeout_def REQUEST_TIMEOUT_def from_secs_def split: if_splits)
qed

text \<open>
  (C35) One request too large for a frame costs the backend its connection: when the encoding of a
  forwarded request exceeds \<open>MAX_FRAME\<close>, the task does not just refuse this request; it leaves the
  loop, fails every other pending request and reports the backend as down.
\<close>
theorem oversized_request_drops_backend:
  assumes "bk_phase b = Serving"
    and "cb_into_writer cb (Request id' (bk_service b) (in_payload req)) = Ok body"
    and "MAX_FRAME < length body"
  shows "backend_step cb (Command (Some (CmdRequest req)) id' io) b =
     (b\<lparr>bk_phase := Waiting, bk_pending := []\<rparr>,
      Answer (in_response_tx req) (Err (''write to backend failed: '' @ show_frame_error (FrameTooLarge (length body))))
      # fail_pending ''backend disconnected'' b @ [Event (Status (bk_service b) False)])"
  using assms by (simp add: send_frame_def codec_encode_def encode_frame_def disconnected_def Let_def)

text \<open>An encoder with one-byte frames, and a node with one backend.\<close>

definition demo_wire :: cbor_lib where
  "demo_wire = \<lparr>cb_into_writer = (\<lambda>msg. Ok [1]), cb_from_reader = (\<lambda>body. Err ''demo'')\<rparr>"

definition demo_request :: inbound_request where
  "demo_request = \<lparr>in_service = ''web'', in_payload = [], in_response_tx = 5\<rparr>"

definition demo_inputs :: "backend_input list" where
  "demo_inputs = [Connected (Ok ()), Shaken (Ok ()) (Some (Ok (Hello 2))),
     Command (Some (CmdRequest demo_request)) 7 (Ok ()), Frame (Some (Ok (Reply 7 True None None)))]"

theorem backend_answers_once_witness:
  "\<exists>b. fold (run_step demo_wire) demo_inputs (backend_new ''web'', [], []) = (b, [5], [5])
     \<and> bk_phase b = Serving \<and> mset [5] = mset [5] + mset (map snd (bk_pending b))"
proof -
  have "valid_run (\<lambda>i r. fresh_id i (fst r)) (run_step demo_wire) demo_inputs (backend_new ''web'', [], [])"
    by (simp add: demo_inputs_def run_step_def backend_new_def handshake_def send_frame_def codec_encode_def
        encode_frame_def demo_wire_def MAX_FRAME_def PROTOCOL_VERSION_def)
  moreover have "\<exists>b. fold (run_step demo_wire) demo_inputs (backend_new ''web'', [], []) = (b, [5], [5])
      \<and> bk_phase b = Serving"
    by (simp add: demo_inputs_def run_step_def backend_new_def handshake_def send_frame_def codec_encode_def
        encode_frame_def demo_wire_def MAX_FRAME_def PROTOCOL_VERSION_def demo_request_def)
  ultimately show ?thesis using backend_answers_once by blast
qed

definition demo_dispatcher :: dispatcher where
  "demo_dispatcher = (dispatcher_new node_config_default [9])
     \<lparr>ds_backends := [''web'' \<mapsto> \<lparr>bq_items = [], bq_open = True\<rparr>]\<rparr>"


theorem readiness_follows_status_witness:
  "''web'' \<in> set (ds_readiness (fst (fold (router_step (\<lambda>_. None))
     [Backend (Status ''db'' True) 0 True, Backend (Status ''web'' True) 0 True, Backend (Status ''db'' False) 0 True]
     (dispatcher_new node_config_default [9], [], []))))"
  using readiness_follows_status [OF refl, of "''web''" "\<lambda>_. None"
      "[Backend (Status ''db'' True) 0 True, Backend (Status ''web'' True) 0 True, Backend (Status ''db'' False) 0 True]"]
  by (simp add: last_status_def)

theorem own_requests_stay_local_witness:
  "ToController (ServiceRequest 3 ''db'' []) \<in>
     set (snd (forward_control (\<lambda>_. None) 0 True ''web'' (ServiceRequest 3 ''db'' []) demo_dispatcher))
   \<and> ''db'' \<notin> set (ds_backend_ready demo_dispatcher)"
proof -
  have "ToController (ServiceRequest 3 ''db'' []) \<in>
     set (snd (forward_control (\<lambda>_. None) 0 True ''web'' (ServiceRequest 3 ''db'' []) demo_dispatcher))"
    by (simp add: forward_control_def demo_dispatcher_def dispatcher_new_def Let_def)
  with own_requests_stay_local [OF this] show ?thesis by simp
qed

theorem oversized_request_drops_backend_witness:
  "bk_phase (fst (backend_step \<lparr>cb_into_writer = (\<lambda>msg. Ok (replicate (Suc MAX_FRAME) 0)), cb_from_reader = (\<lambda>body. Err [])\<rparr>
     (Command (Some (CmdRequest demo_request)) 7 (Ok ())) ((backend_new ''web'')\<lparr>bk_phase := Serving\<rparr>))) = Waiting"
  by (subst oversized_request_drops_backend [where body = "replicate (Suc MAX_FRAME) 0"]) simp_all

end
