(* ===== verification/NN_Actor.thy ===== *)
theory NN_Actor
  imports NN_Pq NN_Peers NN_Relay NN_Dispatcher
begin

text \<open>
  The swarm actor (\<open>src/src/network/actor.rs\<close>), the only owner of the libp2p swarm.

  \<open>swarm_actor\<close> is \<open>SwarmActor\<close> without its channels; \<open>handle_command\<close> and \<open>handle_event\<close> are its two
  handlers. A handler returns the new state and the list of its effects in order: replies on oneshot
  channels (a sender is a number), calls of libp2p, and events for the controller. libp2p is not
  modelled: what its calls return in one step (a query id, a request id, the outcome of a dial) is
  in the record \<open>actor_env\<close>, with the configuration at that time, the clock and the random numbers.
  Log entries are not modelled.

  The lemmas show that every command is answered exactly once, that no plaintext leaves or enters a
  node that requires encryption, that envelopes are sealed only to verified identities, that a
  response channel is used once, what a query returns, and what a reload does.
\<close>

section \<open>Errors, commands and events\<close>

datatype network_error =
    NetActorGone
  | NetDisabled
  | NetBuild string
  | NetKad string
  | NetRequest string
  | NetTransport string
  | NetReloaded

fun show_network_error :: "network_error \<Rightarrow> string" where
  "show_network_error NetActorGone = ''network actor is gone''"
| "show_network_error NetDisabled = ''protocol disabled by config''"
| "show_network_error (NetBuild e) = ''swarm build failed: '' @ e"
| "show_network_error (NetKad e) = ''kademlia error: '' @ e"
| "show_network_error (NetRequest e) = ''request failed: '' @ e"
| "show_network_error (NetTransport e) = ''transport error: '' @ e"
| "show_network_error NetReloaded = ''cancelled by network reload''"

type_synonym query_id = nat
type_synonym out_id = nat
type_synonym connection_id = nat
type_synonym response_channel = nat

definition AGENT_NAME :: string where
  "AGENT_NAME = ''/nexusnet''"

definition SERVICE_REQ_PROTOCOL :: string where
  "SERVICE_REQ_PROTOCOL = ''/oahd/service_req/1.0.0''"

record peer_info =
  pf_peer_id :: peer_id
  pf_addrs :: "multiaddr list"

datatype quorum = QuorumOne | QuorumMajority | QuorumAll | QuorumN nat

datatype swarm_command =
    KadGetRecordAll string reply_channel
  | KadGetProviders string reply_channel
  | KadGetClosestPeers peer_id reply_channel
  | KadPutRecord string bytes quorum reply_channel
  | KadStartProviding string reply_channel
  | KadStopProviding string reply_channel
  | KadRemoveRecord string reply_channel
  | KadCacheRefresh reply_channel
  | ServiceSendRequest peer_id service_request "multiaddr list" reply_channel
  | ServiceSendResponse string service_response
  | ListenOn multiaddr reply_channel
  | Dial multiaddr reply_channel
  | DisconnectPeer peer_id
  | Reload reply_channel
  | Shutdown

text \<open>The events of \<open>identify\<close> and what they carry of the peer.\<close>

record identify_info =
  if_agent_version :: string
  if_protocols :: "string list"
  if_listen_addrs :: "multiaddr list"

datatype identify_event =
    IdentifyReceived peer_id identify_info
  | IdentifyError peer_id string
  | IdentifyOther

datatype network_event =
    NePing ping_event
  | NeIdentify identify_event
  | NeBootstrapCompleted
  | NeInboundServiceRequest peer_id string string bytes reply_channel
  | NeRelay
  | NeRelayClient relay_client_event
  | NeListenerClosed "multiaddr list"
  | NeRelayCircuitReady multiaddr

text \<open>The results of Kademlia queries, and the events of a request-response protocol.\<close>

datatype get_record_progress =
    FoundRecord peer_record
  | RecordsFinished
  | RecordNotFound
  | RecordFailed string

datatype get_providers_progress =
    FoundProviders "peer_id list"
  | ProvidersFinished
  | ProvidersFailed string

datatype kad_result =
    BootstrapResult "(unit, string) result"
  | GetRecordResult get_record_progress
  | GetProvidersResult get_providers_progress
  | GetClosestPeersResult "(peer_info list, string) result"
  | PutRecordResult "(unit, string) result"
  | StartProvidingResult "(unit, string) result"
  | OtherResult

datatype kad_event =
    RoutingUpdated peer_id
  | QueryProgressed query_id kad_result
  | OtherKadEvent

datatype io_error_kind = UnexpectedEof | InvalidData | InvalidInput | Unsupported | OtherIo

datatype outbound_failure =
    OutIo io_error_kind string
  | OutTimeout
  | OutConnectionClosed
  | OutUnsupportedProtocols
  | OutDialFailure

datatype ('q, 's) rr_event =
    RrRequest peer_id connection_id 'q response_channel
  | RrResponse out_id 's
  | RrOutboundFailure peer_id out_id outbound_failure
  | RrInboundFailure
  | RrResponseSent

datatype swarm_event =
    SwKad kad_event
  | SwServiceReq "(service_request, service_response) rr_event"
  | SwServiceReqPq "(pq_request, pq_response) rr_event"
  | SwPqIdentity "(unit, pq_identity) rr_event"
  | SwPing ping_event
  | SwIdentify identify_event
  | SwRelay
  | SwRelayClient relay_client_event
  | SwConnectionClosed peer_id connection_id nat
  | SwNewListenAddr multiaddr
  | SwListenerClosed "multiaddr list"
  | SwOther

section \<open>State, environment and effects\<close>

datatype kad_pending =
    PendGetRecord reply_channel "peer_record list"
  | PendGetProviders reply_channel "peer_id list"
  | PendGetClosestPeers reply_channel
  | PendPutRecord string reply_channel
  | PendStartProviding reply_channel

datatype pending_inbound =
    InPlain response_channel
  | InPq response_channel pq_inbound

record pending_inbound_entry =
  ie_connection_id :: connection_id
  ie_peer :: peer_id
  ie_pending :: pending_inbound

record pending_outbound =
  ob_resp :: reply_channel
  ob_wire_len :: nat

record pq_outbound_pending =
  oq_resp :: reply_channel
  oq_out :: pq_outbound
  oq_wire_len :: nat

text \<open>Of the swarm the actor reads which optional behaviours it has and its own peer id.\<close>

record swarm =
  sw_kademlia :: bool
  sw_service_req_pq :: bool
  sw_pq_identity :: bool
  sw_local_peer_id :: peer_id

record swarm_actor =
  sa_swarm :: swarm
  sa_keypair :: keypair
  sa_pq_keys :: "pq_keys option"
  sa_last_bootstrap_notice :: "instant option"
  sa_identified_peers :: "peer_id list"
  sa_peer_protocols :: "(peer_id \<times> string list) list"
  sa_pq_identities :: "(peer_id \<times> pq_identity) list"
  sa_pending_kad :: "(query_id \<times> kad_pending) list"
  sa_pending_outbound :: "(out_id \<times> pending_outbound) list"
  sa_pending_outbound_pq :: "(out_id \<times> pq_outbound_pending) list"
  sa_pending_pq_identity :: "(out_id \<times> peer_id) list"
  sa_pending_inbound :: "(string \<times> pending_inbound_entry) list"

datatype kad_call =
    CallGetRecord string
  | CallGetProviders string
  | CallGetClosestPeers peer_id
  | CallPutRecord string bytes quorum
  | CallStartProviding string
  | CallStopProviding string
  | CallRemoveRecord string
  | CallRetain "(string \<times> peer_id option) list"
  | CallAddAddress peer_id multiaddr
  | CallRemovePeer peer_id

datatype effect =
    ReplyRecords reply_channel "(peer_record list, network_error) result"
  | ReplyProviders reply_channel "(peer_id list, network_error) result"
  | ReplyPeers reply_channel "(peer_info list, network_error) result"
  | ReplyUnit reply_channel "(unit, network_error) result"
  | ReplyCount reply_channel "(nat, network_error) result"
  | ReplyResponse reply_channel "(service_response, network_error) result"
  | KadCall kad_call
  | SendPlain out_id peer_id service_request "multiaddr list"
  | SendPq out_id peer_id pq_request "multiaddr list"
  | SendIdentityRequest out_id peer_id
  | RespondPlain response_channel service_response
  | RespondPq response_channel pq_response
  | RespondIdentity response_channel pq_identity
  | Notify network_event
  | AwaitHandler string reply_channel
  | SwarmListen multiaddr
  | SwarmDial multiaddr
  | SwarmDisconnect peer_id

record actor_env =
  en_lib :: pq_lib
  en_config :: node_config
  en_now :: instant
  en_query :: query_id
  en_put :: "(query_id, string) result"
  en_provide :: "(query_id, string) result"
  en_store :: "(string \<times> peer_id option) list"
  en_peer_id :: "keypair \<Rightarrow> peer_id"
  en_out :: out_id
  en_uuid :: string
  en_tx :: reply_channel
  en_rng :: pq_rng
  en_nonces :: "nat \<Rightarrow> bytes"
  en_request_len :: "service_request \<Rightarrow> (nat, string) result"
  en_pq_len :: "pq_request \<Rightarrow> (nat, string) result"
  en_show_peer :: "peer_id \<Rightarrow> string"
  en_listen :: "(unit, string) result"
  en_dial :: "(unit, string) result"
  en_build :: "(swarm, network_error) result"
  en_old_events :: "swarm_event list"

section \<open>Construction\<close>

fun peer_id_from_multiaddr :: "multiaddr \<Rightarrow> peer_id option" where
  "peer_id_from_multiaddr [] = None"
| "peer_id_from_multiaddr (P2p peer # addr) = Some peer"
| "peer_id_from_multiaddr (proto # addr) = peer_id_from_multiaddr addr"

definition actor_new :: "node_config \<Rightarrow> swarm \<Rightarrow> keypair \<Rightarrow> pq_keys option \<Rightarrow> swarm_actor" where
  "actor_new config swarm keypair pq_keys =
     \<lparr>sa_swarm = swarm, sa_keypair = keypair, sa_pq_keys = pq_keys, sa_last_bootstrap_notice = None,
      sa_identified_peers = remdups (List.map_filter peer_id_from_multiaddr (bootstrap_nodes config)),
      sa_peer_protocols = [], sa_pq_identities = [], sa_pending_kad = [], sa_pending_outbound = [],
      sa_pending_outbound_pq = [], sa_pending_pq_identity = [], sa_pending_inbound = []\<rparr>"

section \<open>Requests inside the envelope\<close>

definition encode_request :: "service_request \<Rightarrow> bytes" where
  "encode_request req =
     to_be_bytes (of_nat (length (sq_service req))) @ as_bytes (sq_service req) @ sq_payload req"

definition decode_request :: "bytes \<Rightarrow> service_request option" where
  "decode_request bs =
     (case slice_get bs 0 4 of
        None \<Rightarrow> None
      | Some len_bytes \<Rightarrow>
          (let l = unat (from_be_bytes len_bytes); end' = 4 + l in
           case slice_get bs 4 end' of
             None \<Rightarrow> None
           | Some service_bytes \<Rightarrow>
               (case from_utf8 service_bytes of
                  None \<Rightarrow> None
                | Some service \<Rightarrow>
                    (case slice_get bs end' (length bs) of
                       None \<Rightarrow> None
                     | Some payload \<Rightarrow> Some \<lparr>sq_service = service, sq_payload = payload\<rparr>))))"

definition encode_response :: "service_response \<Rightarrow> bytes" where
  "encode_response resp = (if sr_success resp then 1 else 0) # sr_data resp"

definition decode_response :: "bytes \<Rightarrow> service_response option" where
  "decode_response bs =
     (case bs of [] \<Rightarrow> None | success # data \<Rightarrow> Some \<lparr>sr_success = (success \<noteq> 0), sr_data = data\<rparr>)"

definition RELOAD_REJECTION :: bytes where
  "RELOAD_REJECTION = as_bytes ''node is reloading; retry shortly''"

definition reload_rejection_response :: service_response where
  "reload_rejection_response = \<lparr>sr_success = False, sr_data = RELOAD_REJECTION\<rparr>"

definition refusal :: "string \<Rightarrow> service_response" where
  "refusal reason = \<lparr>sr_success = False, sr_data = as_bytes reason\<rparr>"

section \<open>Messages of failures\<close>

definition request_too_large_error :: "nat \<Rightarrow> nat \<Rightarrow> bool \<Rightarrow> network_error" where
  "request_too_large_error wire_len limit pq =
     NetRequest (''request too large: '' @ dec wire_len
       @ '' bytes > services.dispatcher.max_request_bytes ('' @ dec limit @ '' bytes)''
       @ (if pq then ''; PQ encrypted envelope overhead is included'' else ''''))"

definition encode_failed :: "string \<Rightarrow> network_error" where
  "encode_failed e = NetRequest (''encode request failed: '' @ e)"

text \<open>The messages are Chinese; these are their UTF-8 bytes.\<close>

definition peer_text :: "string \<Rightarrow> string" where
  "peer_text peer = from_bytes [0xE5, 0xAF, 0xB9, 0xE7, 0xAB, 0xAF, 0x20] @ peer"

definition describe_outbound_failure ::
    "bool \<Rightarrow> string \<Rightarrow> string \<Rightarrow> nat option \<Rightarrow> outbound_failure \<Rightarrow> string" where
  "describe_outbound_failure pq peer protocol wire_len error =
     (let size_hint = (case wire_len of
            None \<Rightarrow> ''''
          | Some n \<Rightarrow> from_bytes [0xEF, 0xBC, 0x9B, 0xE6, 0x9C, 0xAC, 0xE7, 0xAB, 0xAF, 0xE8,
              0xAF, 0xB7, 0xE6, 0xB1, 0x82, 0x20] @ dec n
              @ from_bytes [0x20, 0xE5, 0xAD, 0x97, 0xE8, 0x8A, 0x82]) in
      case error of
         OutIo kind e \<Rightarrow>
           (if kind = UnexpectedEof \<and> pq then
              peer_text peer @ from_bytes [0x20, 0xE6, 0x9C, 0xAA, 0xE8, 0xBF, 0x94, 0xE5, 0x9B, 0x9E,
              0xE5, 0x93, 0x8D, 0xE5, 0xBA, 0x94, 0xE5, 0xB0, 0xB1, 0xE5, 0x85, 0xB3, 0xE9, 0x97, 0xAD,
              0xE4, 0xBA, 0x86, 0x20, 0x50, 0x51, 0x20, 0xE8, 0xAF, 0xB7, 0xE6, 0xB1, 0x82, 0xE6, 0xB5,
              0x81, 0xEF, 0xBC, 0x88, 0xE5, 0x8F, 0xAF, 0xE8, 0x83, 0xBD, 0xE5, 0x8E, 0x9F, 0xE5, 0x9B,
              0xA0, 0xEF, 0xBC, 0x9A, 0xE5, 0xAF, 0xB9, 0xE7, 0xAB, 0xAF, 0xE7, 0xBC, 0xBA, 0xE5, 0xB0,
              0x91, 0x20, 0x50, 0x51, 0x20, 0xE5, 0xAF, 0x86, 0xE9, 0x92, 0xA5, 0xE3, 0x80, 0x81, 0x50,
              0x51, 0x20, 0xE5, 0xAF, 0x86, 0xE9, 0x92, 0xA5, 0x2F, 0xE8, 0xBA, 0xAB, 0xE4, 0xBB, 0xBD,
              0xE4, 0xB8, 0x8D, 0xE5, 0x8C, 0xB9, 0xE9, 0x85, 0x8D, 0xE3, 0x80, 0x81, 0xE8, 0xAF, 0xB7,
              0xE6, 0xB1, 0x82, 0xE8, 0xB6, 0x85, 0xE8, 0xBF, 0x87, 0xE5, 0xAF, 0xB9, 0xE7, 0xAB, 0xAF,
              0x20, 0x6D, 0x61, 0x78, 0x5F, 0x72, 0x65, 0x71, 0x75, 0x65, 0x73, 0x74, 0x5F, 0x62, 0x79,
              0x74, 0x65, 0x73, 0x20, 0xE6, 0x88, 0x96, 0xE5, 0xAF, 0xB9, 0xE7, 0xAB, 0xAF, 0xE5, 0x86,
              0x85, 0xE9, 0x83, 0xA8, 0xE9, 0x94, 0x99, 0xE8, 0xAF, 0xAF]
              @ size_hint @ from_bytes [0xEF, 0xBC, 0x89]
            else if kind = UnexpectedEof then
              peer_text peer @ from_bytes [0x20, 0xE6, 0x9C, 0xAA, 0xE8, 0xBF, 0x94, 0xE5, 0x9B, 0x9E,
              0xE5, 0x93, 0x8D, 0xE5, 0xBA, 0x94, 0xE5, 0xB0, 0xB1, 0xE5, 0x85, 0xB3, 0xE9, 0x97, 0xAD,
              0xE4, 0xBA, 0x86, 0xE8, 0xAF, 0xB7, 0xE6, 0xB1, 0x82, 0xE6, 0xB5, 0x81, 0xEF, 0xBC, 0x88,
              0xE5, 0x8F, 0xAF, 0xE8, 0x83, 0xBD, 0xE5, 0x8E, 0x9F, 0xE5, 0x9B, 0xA0, 0xEF, 0xBC, 0x9A,
              0xE8, 0xAF, 0xB7, 0xE6, 0xB1, 0x82, 0xE8, 0xB6, 0x85, 0xE8, 0xBF, 0x87, 0xE5, 0xAF, 0xB9,
              0xE7, 0xAB, 0xAF, 0x20, 0x6D, 0x61, 0x78, 0x5F, 0x72, 0x65, 0x71, 0x75, 0x65, 0x73, 0x74,
              0x5F, 0x62, 0x79, 0x74, 0x65, 0x73, 0xE3, 0x80, 0x81, 0xE8, 0xA2, 0xAB, 0xE5, 0xAF, 0xB9,
              0xE7, 0xAB, 0xAF, 0xE6, 0x8B, 0x92, 0xE7, 0xBB, 0x9D, 0xE6, 0x88, 0x96, 0xE5, 0xAF, 0xB9,
              0xE7, 0xAB, 0xAF, 0xE5, 0x86, 0x85, 0xE9, 0x83, 0xA8, 0xE9, 0x94, 0x99, 0xE8, 0xAF, 0xAF]
              @ size_hint @ from_bytes [0xEF, 0xBC, 0x89]
            else if kind = InvalidData \<or> kind = Unsupported then
              peer_text peer @ from_bytes [0x20, 0xE5, 0x93, 0x8D, 0xE5, 0xBA, 0x94, 0xE8, 0xA7, 0xA3,
              0xE6, 0x9E, 0x90, 0xE5, 0xA4, 0xB1, 0xE8, 0xB4, 0xA5, 0xEF, 0xBC, 0x88, 0xE5, 0x93, 0x8D,
              0xE5, 0xBA, 0x94, 0xE5, 0x8F, 0xAF, 0xE8, 0x83, 0xBD, 0xE8, 0xA2, 0xAB, 0xE6, 0x88, 0xAA,
              0xE6, 0x96, 0xAD, 0xE3, 0x80, 0x81, 0xE8, 0xB6, 0x85, 0xE8, 0xBF, 0x87, 0x20, 0x6D, 0x61,
              0x78, 0x5F, 0x72, 0x65, 0x73, 0x70, 0x6F, 0x6E, 0x73, 0x65, 0x5F, 0x62, 0x79, 0x74, 0x65,
              0x73, 0x20, 0xE6, 0x88, 0x96, 0xE5, 0x8D, 0x8F, 0xE8, 0xAE, 0xAE, 0xE7, 0x89, 0x88, 0xE6,
              0x9C, 0xAC, 0xE4, 0xB8, 0x8D, 0xE5, 0x85, 0xBC, 0xE5, 0xAE, 0xB9, 0xEF, 0xBC, 0x89, 0x3A,
              0x20]
              @ e
            else
              peer_text peer @ from_bytes [0x20, 0xE8, 0xAF, 0xB7, 0xE6, 0xB1, 0x82, 0xE6, 0xB5, 0x81,
              0x20, 0x49, 0x2F, 0x4F, 0x20, 0xE9, 0x94, 0x99, 0xE8, 0xAF, 0xAF, 0x3A, 0x20] @ e)
       | OutTimeout \<Rightarrow>
           peer_text peer @ from_bytes [0x20, 0xE5, 0x93, 0x8D, 0xE5, 0xBA, 0x94, 0xE8, 0xB6, 0x85,
              0xE6, 0x97, 0xB6, 0xEF, 0xBC, 0x88]
           @ dec (REQUEST_TIMEOUT div 1000000000) @ from_bytes [0x73, 0xEF, 0xBC, 0x89]
       | OutConnectionClosed \<Rightarrow>
           peer_text peer @ from_bytes [0x20, 0xE5, 0x9C, 0xA8, 0xE8, 0xBF, 0x94, 0xE5, 0x9B, 0x9E,
              0xE5, 0x93, 0x8D, 0xE5, 0xBA, 0x94, 0xE5, 0x89, 0x8D, 0xE5, 0x85, 0xB3, 0xE9, 0x97, 0xAD,
              0xE4, 0xBA, 0x86, 0xE8, 0xBF, 0x9E, 0xE6, 0x8E, 0xA5]
       | OutUnsupportedProtocols \<Rightarrow>
           peer_text peer @ from_bytes [0x20, 0xE4, 0xB8, 0x8D, 0xE6, 0x94, 0xAF, 0xE6, 0x8C, 0x81,
              0xE5, 0x8D, 0x8F, 0xE8, 0xAE, 0xAE, 0x20] @ protocol
       | OutDialFailure \<Rightarrow> from_bytes [0xE6, 0x97, 0xA0, 0xE6, 0xB3, 0x95, 0xE4, 0xB8, 0x8E] @ peer_text peer
           @ from_bytes [0x20, 0xE5, 0xBB, 0xBA, 0xE7, 0xAB, 0x8B, 0xE8, 0xBF, 0x9E, 0xE6, 0x8E, 0xA5])"

definition response_undecodable :: network_error where
  "response_undecodable = NetRequest (
     from_bytes [0x50, 0x51, 0x20, 0xE5, 0x93, 0x8D, 0xE5, 0xBA, 0x94, 0xE8, 0xA7, 0xA3, 0xE7, 0xA0,
         0x81, 0xE5, 0xA4, 0xB1, 0xE8, 0xB4, 0xA5, 0xEF, 0xBC, 0x88, 0xE5, 0x93, 0x8D, 0xE5, 0xBA, 0x94,
         0xE5, 0x8F, 0xAF, 0xE8, 0x83, 0xBD, 0xE8, 0xA2, 0xAB, 0xE6, 0x88, 0xAA, 0xE6, 0x96, 0xAD, 0xE6,
         0x88, 0x96, 0xE8, 0xB6, 0x85, 0xE8, 0xBF, 0x87, 0x20, 0x6D, 0x61, 0x78, 0x5F, 0x72, 0x65, 0x73,
         0x70, 0x6F, 0x6E, 0x73, 0x65, 0x5F, 0x62, 0x79, 0x74, 0x65, 0x73, 0xEF, 0xBC, 0x89])"

definition response_unopened :: "pq_error \<Rightarrow> network_error" where
  "response_unopened e = NetRequest (
     from_bytes [0x50, 0x51, 0x20, 0xE5, 0x93, 0x8D, 0xE5, 0xBA, 0x94, 0xE8, 0xA7, 0xA3, 0xE5, 0xAF,
         0x86, 0xE5, 0xA4, 0xB1, 0xE8, 0xB4, 0xA5, 0x3A, 0x20] @ pq_error_display e)"

section \<open>Kademlia queries\<close>

definition fail_kad :: "kad_pending \<Rightarrow> network_error \<Rightarrow> effect" where
  "fail_kad pending err =
     (case pending of
        PendGetRecord resp records \<Rightarrow> ReplyRecords resp (Err err)
      | PendGetProviders resp providers \<Rightarrow> ReplyProviders resp (Err err)
      | PendGetClosestPeers resp \<Rightarrow> ReplyPeers resp (Err err)
      | PendPutRecord key resp \<Rightarrow> ReplyUnit resp (Err err)
      | PendStartProviding resp \<Rightarrow> ReplyUnit resp (Err err))"

fun apply_get_providers ::
    "kad_pending \<Rightarrow> get_providers_progress \<Rightarrow> kad_pending option \<times> effect list" where
  "apply_get_providers (PendGetProviders resp providers) (FoundProviders batch) =
     (Some (PendGetProviders resp (fold List.insert batch providers)), [])"
| "apply_get_providers (PendGetProviders resp providers) ProvidersFinished =
     (None, [ReplyProviders resp (Ok providers)])"
| "apply_get_providers (PendGetProviders resp providers) (ProvidersFailed e) =
     (None, [ReplyProviders resp (Err (NetKad e))])"
| "apply_get_providers other result = (Some other, [])"

definition is_allowed_peer :: "peer_id \<Rightarrow> swarm_actor \<Rightarrow> bool" where
  "is_allowed_peer peer a \<longleftrightarrow> peer = sw_local_peer_id (sa_swarm a) \<or> peer \<in> set (sa_identified_peers a)"

definition BOOTSTRAP_NOTICE_INTERVAL :: duration where
  "BOOTSTRAP_NOTICE_INTERVAL = from_secs 30"

definition on_bootstrap :: "actor_env \<Rightarrow> (unit, string) result \<Rightarrow> swarm_actor \<Rightarrow> swarm_actor \<times> effect list" where
  "on_bootstrap env result a =
     (if is_ok result then
        (let now = en_now env;
             due = (case sa_last_bootstrap_notice a of
                      None \<Rightarrow> True
                    | Some last' \<Rightarrow> now - last' \<ge> BOOTSTRAP_NOTICE_INTERVAL)
         in if due then (a\<lparr>sa_last_bootstrap_notice := Some now\<rparr>, [Notify NeBootstrapCompleted]) else (a, []))
      else (a, []))"

definition on_get_record ::
    "query_id \<Rightarrow> get_record_progress \<Rightarrow> swarm_actor \<Rightarrow> swarm_actor \<times> effect list" where
  "on_get_record id' result a =
     (let rest = a\<lparr>sa_pending_kad := hm_del id' (sa_pending_kad a)\<rparr> in
      case hm_get (sa_pending_kad a) id' of
        Some (PendGetRecord resp records) \<Rightarrow>
          (case result of
             FoundRecord peer_record \<Rightarrow>
               (rest\<lparr>sa_pending_kad :=
                  hm_put id' (PendGetRecord resp (records @ [peer_record])) (sa_pending_kad rest)\<rparr>, [])
           | RecordsFinished \<Rightarrow> (rest, [ReplyRecords resp (Ok records)])
           | RecordNotFound \<Rightarrow> (rest, [ReplyRecords resp (Ok records)])
           | RecordFailed error \<Rightarrow>
               (rest, [ReplyRecords resp (if records = [] then Err (NetKad error) else Ok records)]))
      | _ \<Rightarrow> (rest, []))"

definition on_get_providers ::
    "query_id \<Rightarrow> get_providers_progress \<Rightarrow> swarm_actor \<Rightarrow> swarm_actor \<times> effect list" where
  "on_get_providers id' result a =
     (let rest = a\<lparr>sa_pending_kad := hm_del id' (sa_pending_kad a)\<rparr> in
      case hm_get (sa_pending_kad a) id' of
        None \<Rightarrow> (rest, [])
      | Some pending \<Rightarrow>
          (case apply_get_providers pending result of
             (Some pending, effs) \<Rightarrow>
               (rest\<lparr>sa_pending_kad := hm_put id' pending (sa_pending_kad rest)\<rparr>, effs)
           | (None, effs) \<Rightarrow> (rest, effs)))"

definition on_get_closest_peers ::
    "query_id \<Rightarrow> (peer_info list, string) result \<Rightarrow> swarm_actor \<Rightarrow> swarm_actor \<times> effect list" where
  "on_get_closest_peers id' result a =
     (a\<lparr>sa_pending_kad := hm_del id' (sa_pending_kad a)\<rparr>,
      case hm_get (sa_pending_kad a) id' of
        Some (PendGetClosestPeers resp) \<Rightarrow> [ReplyPeers resp (map_err NetKad result)]
      | _ \<Rightarrow> [])"

definition on_put_record ::
    "query_id \<Rightarrow> (unit, string) result \<Rightarrow> swarm_actor \<Rightarrow> swarm_actor \<times> effect list" where
  "on_put_record id' result a =
     (a\<lparr>sa_pending_kad := hm_del id' (sa_pending_kad a)\<rparr>,
      case hm_get (sa_pending_kad a) id' of
        Some (PendPutRecord key resp) \<Rightarrow>
          (if \<not> is_ok result \<and> sw_kademlia (sa_swarm a) then [KadCall (CallRemoveRecord key)] else [])
          @ [ReplyUnit resp (map_err NetKad result)]
      | _ \<Rightarrow> [])"

definition on_start_providing ::
    "query_id \<Rightarrow> (unit, string) result \<Rightarrow> swarm_actor \<Rightarrow> swarm_actor \<times> effect list" where
  "on_start_providing id' result a =
     (a\<lparr>sa_pending_kad := hm_del id' (sa_pending_kad a)\<rparr>,
      case hm_get (sa_pending_kad a) id' of
        Some (PendStartProviding resp) \<Rightarrow> [ReplyUnit resp (map_err NetKad result)]
      | _ \<Rightarrow> [])"

fun handle_kad_event :: "actor_env \<Rightarrow> kad_event \<Rightarrow> swarm_actor \<Rightarrow> swarm_actor \<times> effect list" where
  "handle_kad_event env (RoutingUpdated peer) a =
     (a, if \<not> is_allowed_peer peer a \<and> sw_kademlia (sa_swarm a) then [KadCall (CallRemovePeer peer)] else [])"
| "handle_kad_event env (QueryProgressed id' (BootstrapResult result)) a = on_bootstrap env result a"
| "handle_kad_event env (QueryProgressed id' (GetRecordResult result)) a = on_get_record id' result a"
| "handle_kad_event env (QueryProgressed id' (GetProvidersResult result)) a = on_get_providers id' result a"
| "handle_kad_event env (QueryProgressed id' (GetClosestPeersResult result)) a =
     on_get_closest_peers id' result a"
| "handle_kad_event env (QueryProgressed id' (PutRecordResult result)) a = on_put_record id' result a"
| "handle_kad_event env (QueryProgressed id' (StartProvidingResult result)) a = on_start_providing id' result a"
| "handle_kad_event env (QueryProgressed id' OtherResult) a = (a, [])"
| "handle_kad_event env OtherKadEvent a = (a, [])"

section \<open>Identify\<close>

definition maybe_fetch_pq_identity ::
    "actor_env \<Rightarrow> peer_id \<Rightarrow> swarm_actor \<Rightarrow> swarm_actor \<times> effect list" where
  "maybe_fetch_pq_identity env peer a =
     (if sa_pq_keys a = None \<or> \<not> pq_enabled (en_config env) then (a, [])
      else if peer \<in> hm_keys (sa_pq_identities a) then (a, [])
      else
        (let supports = (case hm_get (sa_peer_protocols a) peer of
               None \<Rightarrow> False
             | Some p \<Rightarrow> SERVICE_REQ_PQ_PROTOCOL \<in> set p)
         in if \<not> supports then (a, [])
            else if sw_pq_identity (sa_swarm a)
            then (a\<lparr>sa_pending_pq_identity := hm_put (en_out env) peer (sa_pending_pq_identity a)\<rparr>,
                  [SendIdentityRequest (en_out env) peer])
            else (a, [])))"

definition on_identify_peer ::
    "actor_env \<Rightarrow> peer_id \<Rightarrow> identify_info \<Rightarrow> swarm_actor \<Rightarrow> swarm_actor \<times> effect list" where
  "on_identify_peer env peer info a =
     (let a = a\<lparr>sa_peer_protocols := hm_put peer (if_protocols info) (sa_peer_protocols a)\<rparr> in
      if \<not> prefix AGENT_NAME (if_agent_version info) then (a, [])
      else
        (let a = a\<lparr>sa_identified_peers := List.insert peer (sa_identified_peers a)\<rparr>;
             adds = (if sw_kademlia (sa_swarm a)
                     then map (\<lambda>addr. KadCall (CallAddAddress peer addr)) (if_listen_addrs info) else []);
             (a, effs) = maybe_fetch_pq_identity env peer a
         in (a, adds @ effs)))"

section \<open>Service requests\<close>

text \<open>The answer of the task that waits for the handler of an inbound request: \<open>None\<close> when the
  handler dropped its sender.\<close>

definition handler_response :: "(service_response, string) result option \<Rightarrow> service_response" where
  "handler_response outcome =
     (case outcome of
        Some (Ok response) \<Rightarrow> response
      | Some (Err e) \<Rightarrow> \<lparr>sr_success = False, sr_data = as_bytes e\<rparr>
      | None \<Rightarrow> \<lparr>sr_success = False, sr_data = as_bytes ''request handler dropped''\<rparr>)"

definition accept_inbound ::
    "actor_env \<Rightarrow> peer_id \<Rightarrow> connection_id \<Rightarrow> pending_inbound \<Rightarrow> service_request \<Rightarrow> swarm_actor
       \<Rightarrow> swarm_actor \<times> effect list" where
  "accept_inbound env peer connection pending request a =
     (a\<lparr>sa_pending_inbound := hm_put (en_uuid env)
          \<lparr>ie_connection_id = connection, ie_peer = peer, ie_pending = pending\<rparr> (sa_pending_inbound a)\<rparr>,
      [Notify (NeInboundServiceRequest peer (en_uuid env) (sq_service request) (sq_payload request) (en_tx env)),
       AwaitHandler (en_uuid env) (en_tx env)])"

fun handle_service_req ::
    "actor_env \<Rightarrow> (service_request, service_response) rr_event \<Rightarrow> swarm_actor \<Rightarrow> swarm_actor \<times> effect list" where
  "handle_service_req env (RrRequest peer connection request channel) a =
     (if pq_required (en_config env) then (a, [RespondPlain channel (refusal ''PQ required'')])
      else accept_inbound env peer connection (InPlain channel) request a)"
| "handle_service_req env (RrResponse id' response) a =
     (case hm_get (sa_pending_outbound a) id' of
        None \<Rightarrow> (a, [])
      | Some pending \<Rightarrow> (a\<lparr>sa_pending_outbound := hm_del id' (sa_pending_outbound a)\<rparr>,
          [ReplyResponse (ob_resp pending) (Ok response)]))"
| "handle_service_req env (RrOutboundFailure peer id' error) a =
     (case hm_get (sa_pending_outbound a) id' of
        None \<Rightarrow> (a, [])
      | Some pending \<Rightarrow> (a\<lparr>sa_pending_outbound := hm_del id' (sa_pending_outbound a)\<rparr>,
          [ReplyResponse (ob_resp pending) (Err (NetRequest (describe_outbound_failure False
             (en_show_peer env peer) SERVICE_REQ_PROTOCOL (Some (ob_wire_len pending)) error)))]))"
| "handle_service_req env RrInboundFailure a = (a, [])"
| "handle_service_req env RrResponseSent a = (a, [])"

text \<open>A sealed answer is sent if it can be sealed and the swarm has the behaviour.\<close>

definition respond_sealed ::
    "actor_env \<Rightarrow> nat \<Rightarrow> swarm_actor \<Rightarrow> response_channel \<Rightarrow> pq_inbound \<Rightarrow> service_response \<Rightarrow> effect list" where
  "respond_sealed env n a channel inbound response =
     (case seal_response (en_lib env) (en_nonces env n) inbound (encode_response response) of
        Ok sealed \<Rightarrow> if sw_service_req_pq (sa_swarm a) then [RespondPq channel sealed] else []
      | Err e \<Rightarrow> [])"

fun handle_service_req_pq ::
    "actor_env \<Rightarrow> (pq_request, pq_response) rr_event \<Rightarrow> swarm_actor \<Rightarrow> swarm_actor \<times> effect list" where
  "handle_service_req_pq env (RrRequest peer connection request channel) a =
     (case sa_pq_keys a of
        None \<Rightarrow> (a, [])
      | Some keys \<Rightarrow>
          (case open_request (en_lib env) keys peer request of
             Err e \<Rightarrow> (a, [])
           | Ok inbound \<Rightarrow>
               if pq_identity_enabled (en_config env) \<and> pr_identity request = None
               then (a, respond_sealed env 0 a channel inbound (refusal ''PQ signature required''))
               else
                 (case decode_request (pn_plaintext inbound) of
                    None \<Rightarrow> (a, respond_sealed env 0 a channel inbound (refusal ''invalid PQ request payload''))
                  | Some req \<Rightarrow> accept_inbound env peer connection (InPq channel inbound) req a)))"
| "handle_service_req_pq env (RrResponse id' response) a =
     (case hm_get (sa_pending_outbound_pq a) id' of
        None \<Rightarrow> (a, [])
      | Some pending \<Rightarrow> (a\<lparr>sa_pending_outbound_pq := hm_del id' (sa_pending_outbound_pq a)\<rparr>,
          [ReplyResponse (oq_resp pending)
             (case open_response (en_lib env) (oq_out pending) response of
                Ok bs \<Rightarrow> ok_or response_undecodable (decode_response bs)
              | Err e \<Rightarrow> Err (response_unopened e))]))"
| "handle_service_req_pq env (RrOutboundFailure peer id' error) a =
     (case hm_get (sa_pending_outbound_pq a) id' of
        None \<Rightarrow> (a, [])
      | Some pending \<Rightarrow> (a\<lparr>sa_pending_outbound_pq := hm_del id' (sa_pending_outbound_pq a)\<rparr>,
          [ReplyResponse (oq_resp pending) (Err (NetRequest (describe_outbound_failure True
             (en_show_peer env peer) SERVICE_REQ_PQ_PROTOCOL (Some (oq_wire_len pending)) error)))]))"
| "handle_service_req_pq env RrInboundFailure a = (a, [])"
| "handle_service_req_pq env RrResponseSent a = (a, [])"

text \<open>This node's own identity, sent when the swarm has the behaviour.\<close>

definition respond_identity :: "actor_env \<Rightarrow> swarm_actor \<Rightarrow> response_channel \<Rightarrow> effect list" where
  "respond_identity env a channel =
     (case sa_pq_keys a of
        None \<Rightarrow> []
      | Some keys \<Rightarrow>
          (case pq_identity_of (en_lib env) keys (sa_keypair a) of
             Ok identity \<Rightarrow> if sw_pq_identity (sa_swarm a) then [RespondIdentity channel identity] else []
           | Err e \<Rightarrow> []))"

fun handle_pq_identity ::
    "actor_env \<Rightarrow> (unit, pq_identity) rr_event \<Rightarrow> swarm_actor \<Rightarrow> swarm_actor \<times> effect list" where
  "handle_pq_identity env (RrRequest peer connection request channel) a = (a, respond_identity env a channel)"
| "handle_pq_identity env (RrResponse id' response) a =
     (case hm_get (sa_pending_pq_identity a) id' of
        None \<Rightarrow> (a, [])
      | Some expected \<Rightarrow>
          (let a = a\<lparr>sa_pending_pq_identity := hm_del id' (sa_pending_pq_identity a)\<rparr> in
           if is_ok (pq_verify (en_lib env) response expected)
           then (a\<lparr>sa_pq_identities := hm_put expected response (sa_pq_identities a)\<rparr>, [])
           else (a, [])))"
| "handle_pq_identity env (RrOutboundFailure peer id' error) a =
     (a\<lparr>sa_pending_pq_identity := hm_del id' (sa_pending_pq_identity a)\<rparr>, [])"
| "handle_pq_identity env RrInboundFailure a = (a, [])"
| "handle_pq_identity env RrResponseSent a = (a, [])"

section \<open>Events of the swarm\<close>

definition on_connection_closed :: "peer_id \<Rightarrow> connection_id \<Rightarrow> nat \<Rightarrow> swarm_actor \<Rightarrow> swarm_actor" where
  "on_connection_closed peer connection num_established a =
     (let a = a\<lparr>sa_pending_inbound :=
            filter (\<lambda>(_, entry). ie_connection_id entry \<noteq> connection) (sa_pending_inbound a)\<rparr> in
      if num_established = 0
      then a\<lparr>sa_peer_protocols := hm_del peer (sa_peer_protocols a),
             sa_pq_identities := hm_del peer (sa_pq_identities a),
             sa_pending_pq_identity := filter (\<lambda>(_, p). p \<noteq> peer) (sa_pending_pq_identity a)\<rparr>
      else a)"

fun handle_event :: "actor_env \<Rightarrow> swarm_event \<Rightarrow> swarm_actor \<Rightarrow> swarm_actor \<times> effect list" where
  "handle_event env (SwKad ev) a = handle_kad_event env ev a"
| "handle_event env (SwServiceReq ev) a = handle_service_req env ev a"
| "handle_event env (SwServiceReqPq ev) a = handle_service_req_pq env ev a"
| "handle_event env (SwPqIdentity ev) a = handle_pq_identity env ev a"
| "handle_event env (SwPing ev) a = (a, [Notify (NePing ev)])"
| "handle_event env (SwIdentify ev) a =
     (let (a, effs) = (case ev of
            IdentifyReceived peer info \<Rightarrow> on_identify_peer env peer info a
          | _ \<Rightarrow> (a, []))
      in (a, effs @ [Notify (NeIdentify ev)]))"
| "handle_event env SwRelay a = (a, [Notify NeRelay])"
| "handle_event env (SwRelayClient ev) a = (a, [Notify (NeRelayClient ev)])"
| "handle_event env (SwConnectionClosed peer connection n) a = (on_connection_closed peer connection n a, [])"
| "handle_event env (SwNewListenAddr addr) a =
     (a, if P2pCircuit \<in> set addr then [Notify (NeRelayCircuitReady addr)] else [])"
| "handle_event env (SwListenerClosed addrs) a = (a, [Notify (NeListenerClosed addrs)])"
| "handle_event env SwOther a = (a, [])"

section \<open>The security of a request\<close>

datatype send_security =
    SecPq | SecPlaintext | SecWaitIdentity | SecMissingKeys | SecMissingTransport | SecUnsupported

definition send_security_for :: "bool \<Rightarrow> bool \<Rightarrow> bool \<Rightarrow> bool \<Rightarrow> bool option \<Rightarrow> send_security" where
  "send_security_for transport required keys_available identity_available supports_pq =
     (if required \<and> \<not> transport then SecMissingTransport
      else if required \<and> \<not> identity_available then
        (case supports_pq of Some False \<Rightarrow> SecUnsupported | _ \<Rightarrow> SecWaitIdentity)
      else if \<not> transport then SecPlaintext
      else if \<not> keys_available then SecMissingKeys
      else if identity_available then SecPq
      else (case supports_pq of Some False \<Rightarrow> SecPlaintext | _ \<Rightarrow> SecWaitIdentity))"

definition request_security :: "actor_env \<Rightarrow> peer_id \<Rightarrow> swarm_actor \<Rightarrow> send_security" where
  "request_security env peer a =
     send_security_for (pq_transport_enabled (en_config env)) (pq_required (en_config env))
       (sa_pq_keys a \<noteq> None) (peer \<in> hm_keys (sa_pq_identities a))
       (map_option (\<lambda>protocols. SERVICE_REQ_PQ_PROTOCOL \<in> set protocols) (hm_get (sa_peer_protocols a) peer))"

section \<open>Commands\<close>

text \<open>A command on a Kademlia that the configuration switched off is answered at once.\<close>

definition with_kad ::
    "effect \<Rightarrow> (swarm_actor \<Rightarrow> swarm_actor \<times> effect list) \<Rightarrow> swarm_actor \<Rightarrow> swarm_actor \<times> effect list" where
  "with_kad disabled run a = (if sw_kademlia (sa_swarm a) then run a else (a, [disabled]))"

definition add_query :: "query_id \<Rightarrow> kad_pending \<Rightarrow> swarm_actor \<Rightarrow> swarm_actor" where
  "add_query id' pending a = a\<lparr>sa_pending_kad := hm_put id' pending (sa_pending_kad a)\<rparr>"

definition cmd_get_record_all ::
    "actor_env \<Rightarrow> string \<Rightarrow> reply_channel \<Rightarrow> swarm_actor \<Rightarrow> swarm_actor \<times> effect list" where
  "cmd_get_record_all env key resp =
     with_kad (ReplyRecords resp (Err NetDisabled)) (\<lambda>a.
       (add_query (en_query env) (PendGetRecord resp []) a, [KadCall (CallGetRecord key)]))"

definition cmd_get_providers ::
    "actor_env \<Rightarrow> string \<Rightarrow> reply_channel \<Rightarrow> swarm_actor \<Rightarrow> swarm_actor \<times> effect list" where
  "cmd_get_providers env key resp =
     with_kad (ReplyProviders resp (Err NetDisabled)) (\<lambda>a.
       (add_query (en_query env) (PendGetProviders resp []) a, [KadCall (CallGetProviders key)]))"

definition cmd_get_closest_peers ::
    "actor_env \<Rightarrow> peer_id \<Rightarrow> reply_channel \<Rightarrow> swarm_actor \<Rightarrow> swarm_actor \<times> effect list" where
  "cmd_get_closest_peers env peer resp =
     with_kad (ReplyPeers resp (Err NetDisabled)) (\<lambda>a.
       (add_query (en_query env) (PendGetClosestPeers resp) a, [KadCall (CallGetClosestPeers peer)]))"

definition cmd_put_record ::
    "actor_env \<Rightarrow> string \<Rightarrow> bytes \<Rightarrow> quorum \<Rightarrow> reply_channel \<Rightarrow> swarm_actor \<Rightarrow> swarm_actor \<times> effect list" where
  "cmd_put_record env key val quorum resp =
     with_kad (ReplyUnit resp (Err NetDisabled)) (\<lambda>a.
       case en_put env of
         Ok query \<Rightarrow> (add_query query (PendPutRecord key resp) a, [KadCall (CallPutRecord key val quorum)])
       | Err e \<Rightarrow> (a, [KadCall (CallPutRecord key val quorum), ReplyUnit resp (Err (NetKad e))]))"

definition cmd_start_providing ::
    "actor_env \<Rightarrow> string \<Rightarrow> reply_channel \<Rightarrow> swarm_actor \<Rightarrow> swarm_actor \<times> effect list" where
  "cmd_start_providing env key resp =
     with_kad (ReplyUnit resp (Err NetDisabled)) (\<lambda>a.
       case en_provide env of
         Ok query \<Rightarrow> (add_query query (PendStartProviding resp) a, [KadCall (CallStartProviding key)])
       | Err e \<Rightarrow> (a, [KadCall (CallStartProviding key), ReplyUnit resp (Err (NetKad e))]))"

definition cmd_stop_providing ::
    "string \<Rightarrow> reply_channel \<Rightarrow> swarm_actor \<Rightarrow> swarm_actor \<times> effect list" where
  "cmd_stop_providing key resp =
     with_kad (ReplyUnit resp (Err NetDisabled)) (\<lambda>a.
       (a, [KadCall (CallStopProviding key), ReplyUnit resp (Ok ())]))"

definition cmd_remove_record ::
    "string \<Rightarrow> reply_channel \<Rightarrow> swarm_actor \<Rightarrow> swarm_actor \<times> effect list" where
  "cmd_remove_record key resp =
     with_kad (ReplyUnit resp (Err NetDisabled)) (\<lambda>a.
       (a, [KadCall (CallRemoveRecord key), ReplyUnit resp (Ok ())]))"

definition cmd_cache_refresh ::
    "actor_env \<Rightarrow> reply_channel \<Rightarrow> swarm_actor \<Rightarrow> swarm_actor \<times> effect list" where
  "cmd_cache_refresh env resp a =
     (let local_peer = en_peer_id env (sa_keypair a) in
      with_kad (ReplyCount resp (Err NetDisabled)) (\<lambda>a.
        (let before = length (en_store env);
             kept = filter (\<lambda>(key, publisher). publisher = Some local_peer) (en_store env);
             after = length kept
         in (a, [KadCall (CallRetain kept), ReplyCount resp (Ok (before - after))]))) a)"

definition send_plain ::
    "actor_env \<Rightarrow> peer_id \<Rightarrow> service_request \<Rightarrow> multiaddr list \<Rightarrow> reply_channel \<Rightarrow> nat \<Rightarrow> swarm_actor
       \<Rightarrow> swarm_actor \<times> effect list" where
  "send_plain env peer request addresses resp wire_len a =
     (a\<lparr>sa_pending_outbound := hm_put (en_out env) \<lparr>ob_resp = resp, ob_wire_len = wire_len\<rparr>
          (sa_pending_outbound a)\<rparr>,
      [SendPlain (en_out env) peer request addresses])"

definition send_pq ::
    "actor_env \<Rightarrow> peer_id \<Rightarrow> service_request \<Rightarrow> multiaddr list \<Rightarrow> reply_channel \<Rightarrow> pq_keys \<Rightarrow> pq_identity
       \<Rightarrow> swarm_actor \<Rightarrow> swarm_actor \<times> effect list" where
  "send_pq env peer request addresses resp keys recipient a =
     (let max_request_bytes = unat (dispatcher_max_request_bytes (en_config env)) in
      case seal_request (en_lib env) (en_rng env) keys recipient (encode_request request)
             (pq_identity_enabled (en_config env)) (sa_keypair a) of
        Err e \<Rightarrow> (a, [ReplyResponse resp (Err (NetRequest (pq_error_display e)))])
      | Ok out \<Rightarrow>
          (case en_pq_len env (po_request out) of
             Err e \<Rightarrow> (a, [ReplyResponse resp (Err (encode_failed e))])
           | Ok wire_len \<Rightarrow>
               if wire_len > max_request_bytes
               then (a, [ReplyResponse resp (Err (request_too_large_error wire_len max_request_bytes True))])
               else if sw_service_req_pq (sa_swarm a)
               then (a\<lparr>sa_pending_outbound_pq := hm_put (en_out env)
                         \<lparr>oq_resp = resp, oq_out = out, oq_wire_len = wire_len\<rparr> (sa_pending_outbound_pq a)\<rparr>,
                     [SendPq (en_out env) peer (po_request out) addresses])
               else (a, [ReplyResponse resp (Err (NetRequest ''pq behaviour disabled''))])))"

definition cmd_send_request ::
    "actor_env \<Rightarrow> peer_id \<Rightarrow> service_request \<Rightarrow> multiaddr list \<Rightarrow> reply_channel \<Rightarrow> swarm_actor
       \<Rightarrow> swarm_actor \<times> effect list" where
  "cmd_send_request env peer request addresses resp a =
     (let security = request_security env peer a;
          fail = (\<lambda>reason. ReplyResponse resp (Err (NetRequest reason)));
          max_request_bytes = unat (dispatcher_max_request_bytes (en_config env))
      in
      if security = SecWaitIdentity then
        (let (a, effs) = maybe_fetch_pq_identity env peer a
         in (a, effs @ [fail ''PQ identity not ready; retry after Identify'']))
      else if security = SecMissingKeys then
        (a, [fail ''PQ transport enabled but local PQ keys are unavailable''])
      else if security = SecMissingTransport then
        (a, [fail ''PQ required but transport is disabled''])
      else if security = SecUnsupported then
        (a, [fail ''PQ required but peer is not PQ-capable''])
      else
        (case en_request_len env request of
           Err e \<Rightarrow> (a, [ReplyResponse resp (Err (encode_failed e))])
         | Ok plain_wire_len \<Rightarrow>
             if plain_wire_len > max_request_bytes
             then (a, [ReplyResponse resp (Err (request_too_large_error plain_wire_len max_request_bytes False))])
             else if security = SecPq
             then send_pq env peer request addresses resp (the (sa_pq_keys a))
                    (the (hm_get (sa_pq_identities a) peer)) a
             else send_plain env peer request addresses resp plain_wire_len a))"

definition respond_pending ::
    "actor_env \<Rightarrow> nat \<Rightarrow> service_response \<Rightarrow> swarm_actor \<Rightarrow> pending_inbound \<Rightarrow> effect list" where
  "respond_pending env n response a pending =
     (case pending of
        InPlain channel \<Rightarrow> [RespondPlain channel response]
      | InPq channel inbound \<Rightarrow> respond_sealed env n a channel inbound response)"

definition cmd_send_response ::
    "actor_env \<Rightarrow> string \<Rightarrow> service_response \<Rightarrow> swarm_actor \<Rightarrow> swarm_actor \<times> effect list" where
  "cmd_send_response env request_id response a =
     (case hm_get (sa_pending_inbound a) request_id of
        None \<Rightarrow> (a, [])
      | Some entry \<Rightarrow> (a\<lparr>sa_pending_inbound := hm_del request_id (sa_pending_inbound a)\<rparr>,
          respond_pending env 0 response a (ie_pending entry)))"

section \<open>Reload\<close>

definition reject_inbound :: "actor_env \<Rightarrow> nat \<Rightarrow> swarm_actor \<Rightarrow> pending_inbound \<Rightarrow> effect list" where
  "reject_inbound env n a pending = respond_pending env n reload_rejection_response a pending"

fun reject_old_swarm_event :: "actor_env \<Rightarrow> nat \<Rightarrow> swarm_actor \<Rightarrow> swarm_event \<Rightarrow> effect list" where
  "reject_old_swarm_event env n a (SwServiceReq (RrRequest peer connection request channel)) =
     [RespondPlain channel reload_rejection_response]"
| "reject_old_swarm_event env n a (SwServiceReqPq (RrRequest peer connection request channel)) =
     (case sa_pq_keys a of
        None \<Rightarrow> []
      | Some keys \<Rightarrow>
          (case open_request (en_lib env) keys peer request of
             Ok inbound \<Rightarrow> respond_sealed env n a channel inbound reload_rejection_response
           | Err e \<Rightarrow> []))"
| "reject_old_swarm_event env n a (SwPqIdentity (RrRequest peer connection request channel)) =
     respond_identity env a channel"
| "reject_old_swarm_event env n a event = []"

text \<open>\<open>numbered f n xs\<close> runs \<open>f\<close> over a list, counting the draws of a nonce from \<open>n\<close> on.\<close>

fun numbered :: "(nat \<Rightarrow> 'a \<Rightarrow> effect list) \<Rightarrow> nat \<Rightarrow> 'a list \<Rightarrow> effect list" where
  "numbered f n [] = []"
| "numbered f n (x # xs) = f n x @ numbered f (Suc n) xs"

definition actor_reload :: "actor_env \<Rightarrow> swarm_actor \<Rightarrow> swarm_actor \<times> effect list \<times> (unit, network_error) result" where
  "actor_reload env a =
     (case en_build env of
        Err e \<Rightarrow> (a, [], Err e)
      | Ok new_swarm \<Rightarrow>
          (let inbound = map (ie_pending \<circ> snd) (sa_pending_inbound a);
               rejected = numbered (\<lambda>n. reject_inbound env n a) 0 inbound;
               old = numbered (\<lambda>n. reject_old_swarm_event env n a) (length inbound) (en_old_events env);
               failed = map (\<lambda>(_, pending). fail_kad pending NetReloaded) (sa_pending_kad a)
                 @ map (\<lambda>(_, pending). ReplyResponse (ob_resp pending) (Err NetReloaded)) (sa_pending_outbound a)
                 @ map (\<lambda>(_, pending). ReplyResponse (oq_resp pending) (Err NetReloaded)) (sa_pending_outbound_pq a)
           in (a\<lparr>sa_pending_inbound := [], sa_pending_kad := [], sa_pending_outbound := [],
                 sa_pending_outbound_pq := [], sa_pending_pq_identity := [], sa_pq_identities := [],
                 sa_peer_protocols := [],
                 sa_identified_peers :=
                   remdups (List.map_filter peer_id_from_multiaddr (bootstrap_nodes (en_config env))),
                 sa_swarm := new_swarm, sa_last_bootstrap_notice := None\<rparr>,
               rejected @ old @ failed @ map SwarmDial (bootstrap_nodes (en_config env)), Ok ())))"

section \<open>The loop\<close>

fun handle_command :: "actor_env \<Rightarrow> swarm_command \<Rightarrow> swarm_actor \<Rightarrow> (swarm_actor \<times> effect list) \<times> bool" where
  "handle_command env (KadGetRecordAll key resp) a = (cmd_get_record_all env key resp a, True)"
| "handle_command env (KadGetProviders key resp) a = (cmd_get_providers env key resp a, True)"
| "handle_command env (KadGetClosestPeers peer resp) a = (cmd_get_closest_peers env peer resp a, True)"
| "handle_command env (KadPutRecord key val quorum resp) a = (cmd_put_record env key val quorum resp a, True)"
| "handle_command env (KadStartProviding key resp) a = (cmd_start_providing env key resp a, True)"
| "handle_command env (KadStopProviding key resp) a = (cmd_stop_providing key resp a, True)"
| "handle_command env (KadRemoveRecord key resp) a = (cmd_remove_record key resp a, True)"
| "handle_command env (KadCacheRefresh resp) a = (cmd_cache_refresh env resp a, True)"
| "handle_command env (ServiceSendRequest peer request addresses resp) a =
     (cmd_send_request env peer request addresses resp a, True)"
| "handle_command env (ServiceSendResponse request_id response) a =
     (cmd_send_response env request_id response a, True)"
| "handle_command env (ListenOn addr resp) a =
     ((a, [SwarmListen addr, ReplyUnit resp (map_err NetTransport (en_listen env))]), True)"
| "handle_command env (Dial addr resp) a =
     ((a, [SwarmDial addr, ReplyUnit resp (map_err NetTransport (en_dial env))]), True)"
| "handle_command env (DisconnectPeer peer) a = ((a, [SwarmDisconnect peer]), True)"
| "handle_command env (Reload resp) a =
     (case actor_reload env a of (a, effs, result) \<Rightarrow> ((a, effs @ [ReplyUnit resp result]), True))"
| "handle_command env Shutdown a = ((a, []), False)"

datatype actor_input = SwarmInput swarm_event | CommandInput swarm_command

fun swarm_step :: "actor_env \<Rightarrow> actor_input \<Rightarrow> swarm_actor \<Rightarrow> swarm_actor \<times> effect list" where
  "swarm_step env (SwarmInput ev) a = handle_event env ev a"
| "swarm_step env (CommandInput cmd) a = fst (handle_command env cmd a)"

section \<open>Replies and channels are accounted for\<close>

text \<open>
  \<open>waiting\<close> is the multiset of senders the actor holds for its commands, \<open>held\<close> that of the response
  channels of inbound requests it has not answered.
\<close>

fun reply_of :: "effect \<Rightarrow> reply_channel option" where
  "reply_of (ReplyRecords resp r) = Some resp"
| "reply_of (ReplyProviders resp r) = Some resp"
| "reply_of (ReplyPeers resp r) = Some resp"
| "reply_of (ReplyUnit resp r) = Some resp"
| "reply_of (ReplyCount resp r) = Some resp"
| "reply_of (ReplyResponse resp r) = Some resp"
| "reply_of e = None"

fun command_reply :: "swarm_command \<Rightarrow> reply_channel option" where
  "command_reply (KadGetRecordAll key resp) = Some resp"
| "command_reply (KadGetProviders key resp) = Some resp"
| "command_reply (KadGetClosestPeers peer resp) = Some resp"
| "command_reply (KadPutRecord key val quorum resp) = Some resp"
| "command_reply (KadStartProviding key resp) = Some resp"
| "command_reply (KadStopProviding key resp) = Some resp"
| "command_reply (KadRemoveRecord key resp) = Some resp"
| "command_reply (KadCacheRefresh resp) = Some resp"
| "command_reply (ServiceSendRequest peer request addresses resp) = Some resp"
| "command_reply (ListenOn addr resp) = Some resp"
| "command_reply (Dial addr resp) = Some resp"
| "command_reply (Reload resp) = Some resp"
| "command_reply cmd = None"

fun kad_resp :: "kad_pending \<Rightarrow> reply_channel" where
  "kad_resp (PendGetRecord resp records) = resp"
| "kad_resp (PendGetProviders resp providers) = resp"
| "kad_resp (PendGetClosestPeers resp) = resp"
| "kad_resp (PendPutRecord key resp) = resp"
| "kad_resp (PendStartProviding resp) = resp"

fun channel_of :: "effect \<Rightarrow> response_channel option" where
  "channel_of (RespondPlain channel r) = Some channel"
| "channel_of (RespondPq channel r) = Some channel"
| "channel_of (RespondIdentity channel i) = Some channel"
| "channel_of e = None"

fun event_channel :: "swarm_event \<Rightarrow> response_channel option" where
  "event_channel (SwServiceReq (RrRequest peer connection request channel)) = Some channel"
| "event_channel (SwServiceReqPq (RrRequest peer connection request channel)) = Some channel"
| "event_channel (SwPqIdentity (RrRequest peer connection request channel)) = Some channel"
| "event_channel ev = None"

fun inbound_channel :: "pending_inbound \<Rightarrow> response_channel" where
  "inbound_channel (InPlain channel) = channel"
| "inbound_channel (InPq channel inbound) = channel"

fun option_mset :: "'a option \<Rightarrow> 'a multiset" where
  "option_mset None = {#}"
| "option_mset (Some x) = {#x#}"

fun asked_by :: "actor_input \<Rightarrow> reply_channel multiset" where
  "asked_by (SwarmInput ev) = {#}"
| "asked_by (CommandInput cmd) = option_mset (command_reply cmd)"

text \<open>The channels that reach the actor in one step; during a reload these are the ones of the
  requests still queued on the old swarm.\<close>

fun opened_by :: "actor_env \<Rightarrow> actor_input \<Rightarrow> response_channel multiset" where
  "opened_by env (SwarmInput ev) = option_mset (event_channel ev)"
| "opened_by env (CommandInput (Reload resp)) =
     (if is_ok (en_build env) then mset (List.map_filter event_channel (en_old_events env)) else {#})"
| "opened_by env (CommandInput cmd) = {#}"

definition replies_in :: "effect list \<Rightarrow> reply_channel multiset" where
  "replies_in effs = mset (List.map_filter reply_of effs)"

definition responded_in :: "effect list \<Rightarrow> response_channel multiset" where
  "responded_in effs = mset (List.map_filter channel_of effs)"

definition entries :: "('v \<Rightarrow> 'b) \<Rightarrow> ('k \<times> 'v) list \<Rightarrow> 'b multiset" where
  "entries f m = mset (map (\<lambda>(k, v). f v) m)"

definition waiting :: "swarm_actor \<Rightarrow> reply_channel multiset" where
  "waiting a = entries kad_resp (sa_pending_kad a) + entries ob_resp (sa_pending_outbound a)
     + entries oq_resp (sa_pending_outbound_pq a)"

definition held :: "swarm_actor \<Rightarrow> response_channel multiset" where
  "held a = entries (\<lambda>entry. inbound_channel (ie_pending entry)) (sa_pending_inbound a)"

definition tables_wf :: "swarm_actor \<Rightarrow> bool" where
  "tables_wf a \<longleftrightarrow> hm_wf (sa_pending_kad a) \<and> hm_wf (sa_pending_outbound a) \<and> hm_wf (sa_pending_outbound_pq a)
     \<and> hm_wf (sa_pending_inbound a)"

text \<open>libp2p never reuses the id of a query or a request that is still pending, and reports the
  progress of a query with the result of its own kind.\<close>

fun result_matches :: "kad_result \<Rightarrow> kad_pending \<Rightarrow> bool" where
  "result_matches (GetRecordResult r) (PendGetRecord resp records) = True"
| "result_matches (GetProvidersResult r) (PendGetProviders resp providers) = True"
| "result_matches (GetClosestPeersResult r) (PendGetClosestPeers resp) = True"
| "result_matches (PutRecordResult r) (PendPutRecord key resp) = True"
| "result_matches (StartProvidingResult r) (PendStartProviding resp) = True"
| "result_matches (BootstrapResult r) p = False"
| "result_matches OtherResult p = False"
| "result_matches r p = False"

fun progress_ok :: "actor_input \<Rightarrow> swarm_actor \<Rightarrow> bool" where
  "progress_ok (SwarmInput (SwKad (QueryProgressed id' result))) a =
     (case hm_get (sa_pending_kad a) id' of None \<Rightarrow> True | Some p \<Rightarrow> result_matches result p)"
| "progress_ok i a = True"

definition ids_fresh :: "actor_env \<Rightarrow> swarm_actor \<Rightarrow> bool" where
  "ids_fresh env a \<longleftrightarrow> en_query env \<notin> hm_keys (sa_pending_kad a)
     \<and> (\<forall>q. en_put env = Ok q \<longrightarrow> q \<notin> hm_keys (sa_pending_kad a))
     \<and> (\<forall>q. en_provide env = Ok q \<longrightarrow> q \<notin> hm_keys (sa_pending_kad a))
     \<and> en_out env \<notin> hm_keys (sa_pending_outbound a) \<and> en_out env \<notin> hm_keys (sa_pending_outbound_pq a)
     \<and> en_uuid env \<notin> hm_keys (sa_pending_inbound a)"

definition balanced ::
    "reply_channel multiset \<Rightarrow> response_channel multiset \<Rightarrow> swarm_actor \<Rightarrow> swarm_actor \<times> effect list \<Rightarrow> bool" where
  "balanced ts cs a r \<longleftrightarrow>
     (case r of (a', effs) \<Rightarrow> tables_wf a' \<and> ts + waiting a = replies_in effs + waiting a'
        \<and> responded_in effs + held a' \<subseteq># cs + held a)"

lemma replies_in_simps [simp]:
  "replies_in [] = {#}" "replies_in (e # effs) = option_mset (reply_of e) + replies_in effs"
  "replies_in (xs @ ys) = replies_in xs + replies_in ys"
  by (auto simp: replies_in_def List.map_filter_def split: option.split)

lemma responded_in_simps [simp]:
  "responded_in [] = {#}" "responded_in (e # effs) = option_mset (channel_of e) + responded_in effs"
  "responded_in (xs @ ys) = responded_in xs + responded_in ys"
  by (auto simp: responded_in_def List.map_filter_def split: option.split)

lemma reply_of_fail_kad [simp]: "reply_of (fail_kad p e) = Some (kad_resp p)" "channel_of (fail_kad p e) = None"
  by (cases p; simp add: fail_kad_def)+

lemma replies_in_map: "(\<And>x. x \<in> set xs \<Longrightarrow> reply_of (f x) = Some (g x)) \<Longrightarrow> replies_in (map f xs) = mset (map g xs)"
  by (induction xs) auto

lemma no_replies_in: "(\<And>e. e \<in> set effs \<Longrightarrow> reply_of e = None) \<Longrightarrow> replies_in effs = {#}"
  by (induction effs) auto

lemma none_responded_in: "(\<And>e. e \<in> set effs \<Longrightarrow> channel_of e = None) \<Longrightarrow> responded_in effs = {#}"
  by (induction effs) auto

lemma respond_sealed_cases:
  "respond_sealed env n a channel inbound response = []
     \<or> (\<exists>sealed. respond_sealed env n a channel inbound response = [RespondPq channel sealed])"
  by (auto simp: respond_sealed_def split: result.split)

lemma respond_identity_cases:
  "respond_identity env a channel = [] \<or> (\<exists>i. respond_identity env a channel = [RespondIdentity channel i])"
  by (auto simp: respond_identity_def split: result.split option.split)

lemma responds_at_most [simp]:
  "replies_in (respond_sealed env n a channel inbound response) = {#}"
  "replies_in (respond_identity env a channel) = {#}"
  "responded_in (respond_sealed env n a channel inbound response) \<subseteq># {#channel#}"
  "responded_in (respond_identity env a channel) \<subseteq># {#channel#}"
  using respond_sealed_cases [of env n a channel inbound response] respond_identity_cases [of env a channel]
  by auto

lemma respond_pending_at_most [simp]:
  "replies_in (respond_pending env n response a p) = {#}"
  "responded_in (respond_pending env n response a p) \<subseteq># {#inbound_channel p#}"
  by (cases p; simp add: respond_pending_def)+

lemma reject_old_at_most [simp]:
  "replies_in (reject_old_swarm_event env n a ev) = {#}"
  "responded_in (reject_old_swarm_event env n a ev) \<subseteq># option_mset (event_channel ev)"
  by (cases "(env, n, a, ev)" rule: reject_old_swarm_event.cases; auto split: option.split result.split)+

lemma numbered_replies: "(\<And>n x. replies_in (f n x) = {#}) \<Longrightarrow> replies_in (numbered f n xs) = {#}"
  by (induction xs arbitrary: n) auto

lemma numbered_responds:
  "(\<And>n x. responded_in (f n x) \<subseteq># option_mset (g x)) \<Longrightarrow>
   responded_in (numbered f n xs) \<subseteq># mset (List.map_filter g xs)"
proof (induction xs arbitrary: n)
  case (Cons x xs)
  have "responded_in (f n x) \<subseteq># option_mset (g x)" by (rule Cons.prems)
  moreover have "responded_in (numbered f (Suc n) xs) \<subseteq># mset (List.map_filter g xs)"
    by (rule Cons.IH) (rule Cons.prems)
  ultimately have "responded_in (f n x) + responded_in (numbered f (Suc n) xs)
      \<subseteq># option_mset (g x) + mset (List.map_filter g xs)" by (rule subset_mset.add_mono)
  then show ?case by (cases "g x") (simp_all add: List.map_filter_def)
qed (simp add: List.map_filter_def)

lemma entries_Nil [simp]: "entries f [] = {#}"
  by (simp add: entries_def)

lemma entries_filter: "entries f (filter P m) \<subseteq># entries f m"
  by (auto simp: entries_def intro!: image_mset_subseteq_mono)

lemma entries_snd: "entries f m = image_mset f (mset (map snd m))"
  by (simp add: entries_def case_prod_unfold multiset.map_comp comp_def)

lemma entries_del:
  "hm_wf m \<Longrightarrow> hm_get m k = Some v \<Longrightarrow> entries f m = add_mset (f v) (entries f (hm_del k m))"
  unfolding entries_snd using mset_hm_del [of m k v] by (metis image_mset_add_mset)

lemma entries_put: "k \<notin> hm_keys m \<Longrightarrow> entries f (hm_put k v m) = add_mset (f v) (entries f m)"
  unfolding entries_snd mset_hm_put by simp

lemma del_missing: "hm_get m k = None \<Longrightarrow> hm_del k m = m"
  by (induction m) (auto split: if_splits)

lemma balanced_same [simp]: "tables_wf a \<Longrightarrow> balanced {#} cs a (a, [])"
  by (simp add: balanced_def)

lemma balanced_effects:
  assumes "tables_wf a" and "replies_in effs = ts" and "responded_in effs \<subseteq># cs"
  shows "balanced ts cs a (a, effs)"
  using assms by (simp add: balanced_def)

lemma balanced_add_query:
  assumes "tables_wf a" and "q \<notin> hm_keys (sa_pending_kad a)" and "replies_in effs = {#}" and "responded_in effs = {#}"
  shows "balanced {#kad_resp p#} cs a (add_query q p a, effs)"
  using assms by (simp add: balanced_def add_query_def tables_wf_def waiting_def held_def entries_put)

lemma with_kad_balanced:
  assumes "tables_wf a" and "reply_of disabled = Some t" and "channel_of disabled = None"
    and "balanced {#t#} cs a (run a)"
  shows "balanced {#t#} cs a (with_kad disabled run a)"
  using assms by (simp add: with_kad_def balanced_effects)

lemma kad_commands_balanced:
  assumes "tables_wf a" and "ids_fresh env a"
  shows "balanced {#resp#} {#} a (cmd_get_record_all env key resp a)"
    and "balanced {#resp#} {#} a (cmd_get_providers env key resp a)"
    and "balanced {#resp#} {#} a (cmd_get_closest_peers env peer resp a)"
    and "balanced {#resp#} {#} a (cmd_put_record env key val quorum resp a)"
    and "balanced {#resp#} {#} a (cmd_start_providing env key resp a)"
    and "balanced {#resp#} {#} a (cmd_stop_providing key resp a)"
    and "balanced {#resp#} {#} a (cmd_remove_record key resp a)"
    and "balanced {#resp#} {#} a (cmd_cache_refresh env resp a)"
proof -
  note fresh = assms(2) [unfolded ids_fresh_def]
  have add: "balanced {#kad_resp p#} {#} a (add_query q p a, [KadCall c])"
    if "q \<notin> hm_keys (sa_pending_kad a)" for q p c
    using balanced_add_query [OF assms(1) that, of "[KadCall c]"] by simp
  show "balanced {#resp#} {#} a (cmd_get_record_all env key resp a)"
    and "balanced {#resp#} {#} a (cmd_get_providers env key resp a)"
    and "balanced {#resp#} {#} a (cmd_get_closest_peers env peer resp a)"
    and "balanced {#resp#} {#} a (cmd_put_record env key val quorum resp a)"
    and "balanced {#resp#} {#} a (cmd_start_providing env key resp a)"
    using add [of "en_query env" "PendGetRecord resp []"] add [of "en_query env" "PendGetProviders resp []"]
      add [of "en_query env" "PendGetClosestPeers resp"] add [of _ "PendPutRecord key resp"]
      add [of _ "PendStartProviding resp"] fresh assms(1)
    by (auto simp: cmd_get_record_all_def cmd_get_providers_def cmd_get_closest_peers_def cmd_put_record_def
        cmd_start_providing_def intro!: with_kad_balanced balanced_effects split: result.split)
  show "balanced {#resp#} {#} a (cmd_stop_providing key resp a)"
    and "balanced {#resp#} {#} a (cmd_remove_record key resp a)"
    and "balanced {#resp#} {#} a (cmd_cache_refresh env resp a)"
    using assms(1) by (auto simp: cmd_stop_providing_def cmd_remove_record_def cmd_cache_refresh_def Let_def
        intro!: with_kad_balanced balanced_effects)
qed

lemma tables_wfD:
  "tables_wf a \<Longrightarrow> hm_wf (sa_pending_kad a)" "tables_wf a \<Longrightarrow> hm_wf (sa_pending_outbound a)"
  "tables_wf a \<Longrightarrow> hm_wf (sa_pending_outbound_pq a)" "tables_wf a \<Longrightarrow> hm_wf (sa_pending_inbound a)"
  by (simp_all add: tables_wf_def)

text \<open>A query that ends: its entry leaves the table and its sender is used.\<close>

lemma balanced_query_done:
  assumes "tables_wf a" and "hm_get (sa_pending_kad a) q = Some p" and "replies_in effs = {#kad_resp p#}"
    and "responded_in effs = {#}"
  shows "balanced {#} cs a (a\<lparr>sa_pending_kad := hm_del q (sa_pending_kad a)\<rparr>, effs)"
  using assms entries_del [OF tables_wfD(1) [OF assms(1)] assms(2), of kad_resp]
  by (simp add: balanced_def tables_wf_def waiting_def held_def)

lemma balanced_query_kept:
  assumes "tables_wf a" and "hm_get (sa_pending_kad a) q = Some p" and "kad_resp p' = kad_resp p"
  shows "balanced {#} cs a (a\<lparr>sa_pending_kad := hm_put q p' (hm_del q (sa_pending_kad a))\<rparr>, [])"
  using assms entries_del [OF tables_wfD(1) [OF assms(1)] assms(2), of kad_resp]
  by (simp add: balanced_def tables_wf_def waiting_def held_def entries_put)

lemma balanced_query_missing:
  assumes "tables_wf a" and "hm_get (sa_pending_kad a) q = None"
  shows "balanced {#} cs a (a\<lparr>sa_pending_kad := hm_del q (sa_pending_kad a)\<rparr>, [])"
  using assms by (simp add: balanced_def tables_wf_def waiting_def held_def del_missing)

lemma kad_event_balanced:
  assumes "tables_wf a" and "progress_ok (SwarmInput (SwKad ev)) a"
  shows "balanced {#} {#} a (handle_kad_event env ev a)"
proof (cases ev)
  case (QueryProgressed q result)
  show ?thesis
  proof (cases "hm_get (sa_pending_kad a) q")
    case None
    then show ?thesis
      using assms(1) balanced_query_missing [OF assms(1) None] QueryProgressed
      by (cases result) (auto simp: on_bootstrap_def on_get_record_def on_get_providers_def
          on_get_closest_peers_def on_put_record_def on_start_providing_def Let_def balanced_def tables_wf_def
          waiting_def held_def split: option.split)
  next
    case (Some p)
    with assms(2) QueryProgressed have "result_matches result p" by simp
    note finished = balanced_query_done [OF assms(1) Some] and kept = balanced_query_kept [OF assms(1) Some]
    show ?thesis
    proof (cases "(result, p)" rule: result_matches.cases)
      case (1 r resp records)
      with QueryProgressed Some finished kept show ?thesis by (cases r) (simp_all add: on_get_record_def Let_def)
    next
      case (2 r resp providers)
      with QueryProgressed Some finished kept show ?thesis by (cases r) (simp_all add: on_get_providers_def Let_def)
    qed (use QueryProgressed Some finished \<open>result_matches result p\<close> in
        \<open>simp_all add: on_get_closest_peers_def on_put_record_def on_start_providing_def\<close>)
  qed
qed (use assms in \<open>auto intro!: balanced_effects\<close>)

lemma balanced_ignores:
  "balanced ts cs a (a\<lparr>sa_pq_identities := x\<rparr>, effs) = balanced ts cs a (a, effs)"
  "balanced ts cs a (a\<lparr>sa_pending_pq_identity := y\<rparr>, effs) = balanced ts cs a (a, effs)"
  "balanced ts cs a (a\<lparr>sa_pending_pq_identity := y, sa_pq_identities := x\<rparr>, effs) = balanced ts cs a (a, effs)"
  by (simp_all add: balanced_def tables_wf_def waiting_def held_def)

lemma accept_inbound_balanced:
  assumes "tables_wf a" and "ids_fresh env a"
  shows "balanced {#} {#inbound_channel pending#} a (accept_inbound env peer connection pending request a)"
  using assms by (simp add: accept_inbound_def balanced_def tables_wf_def waiting_def held_def ids_fresh_def
      entries_put)

lemma balanced_outbound_done:
  assumes "tables_wf a" and "hm_get (sa_pending_outbound a) q = Some p"
  shows "balanced {#} {#} a (a\<lparr>sa_pending_outbound := hm_del q (sa_pending_outbound a)\<rparr>, [ReplyResponse (ob_resp p) r])"
  using assms entries_del [OF tables_wfD(2) [OF assms(1)] assms(2), of ob_resp]
  by (simp add: balanced_def tables_wf_def waiting_def held_def)

lemma balanced_outbound_pq_done:
  assumes "tables_wf a" and "hm_get (sa_pending_outbound_pq a) q = Some p"
  shows "balanced {#} {#} a (a\<lparr>sa_pending_outbound_pq := hm_del q (sa_pending_outbound_pq a)\<rparr>,
     [ReplyResponse (oq_resp p) r])"
  using assms entries_del [OF tables_wfD(3) [OF assms(1)] assms(2), of oq_resp]
  by (simp add: balanced_def tables_wf_def waiting_def held_def)

lemma service_req_balanced:
  assumes "tables_wf a" and "ids_fresh env a"
  shows "balanced {#} (option_mset (event_channel (SwServiceReq ev))) a (handle_service_req env ev a)"
  using assms accept_inbound_balanced [OF assms, of "InPlain ch" for ch] balanced_outbound_done [OF assms(1)]
  by (cases ev) (auto intro!: balanced_effects split: option.split)

lemma service_req_pq_balanced:
  assumes "tables_wf a" and "ids_fresh env a"
  shows "balanced {#} (option_mset (event_channel (SwServiceReqPq ev))) a (handle_service_req_pq env ev a)"
proof (cases ev)
  case (RrRequest peer connection request channel)
  then show ?thesis
    using assms accept_inbound_balanced [OF assms, of "InPq channel inb" for inb]
    by (auto intro!: balanced_effects split: option.split result.split)
qed (use assms balanced_outbound_pq_done [OF assms(1)] in \<open>auto split: option.split\<close>)

lemma pq_identity_balanced:
  assumes "tables_wf a"
  shows "balanced {#} (option_mset (event_channel (SwPqIdentity ev))) a (handle_pq_identity env ev a)"
  using assms
  by (cases ev) (auto simp: Let_def balanced_ignores intro!: balanced_effects split: option.split)

lemma connection_closed_balanced:
  assumes "tables_wf a"
  shows "balanced {#} {#} a (on_connection_closed peer connection n a, [])"
  using assms entries_filter
  by (auto simp: on_connection_closed_def balanced_def tables_wf_def waiting_def held_def Let_def)

lemma maybe_fetch_balanced:
  assumes "tables_wf a"
  shows "balanced {#} {#} a (maybe_fetch_pq_identity env peer a)"
  using assms by (auto simp: maybe_fetch_pq_identity_def Let_def balanced_ignores intro!: balanced_effects)

lemma identify_balanced:
  assumes "tables_wf a"
  shows "balanced {#} {#} a (on_identify_peer env peer info a)"
proof -
  define b where "b = a\<lparr>sa_peer_protocols := hm_put peer (if_protocols info) (sa_peer_protocols a),
    sa_identified_peers := List.insert peer (sa_identified_peers a)\<rparr>"
  obtain c effs where c: "maybe_fetch_pq_identity env peer b = (c, effs)" by fastforce
  have "tables_wf b" "waiting b = waiting a" "held b = held a"
    using assms by (simp_all add: b_def tables_wf_def waiting_def held_def)
  moreover have "replies_in adds = {#}" "responded_in adds = {#}"
    if "adds = map (\<lambda>addr. KadCall (CallAddAddress peer addr)) addrs" for adds addrs
    using that by (auto intro!: no_replies_in none_responded_in)
  ultimately show ?thesis
    using maybe_fetch_balanced [of b env peer] assms c
    by (auto simp: on_identify_peer_def Let_def b_def balanced_def tables_wf_def waiting_def held_def)
qed

lemma event_balanced:
  assumes "tables_wf a" and "ids_fresh env a" and "progress_ok (SwarmInput ev) a"
  shows "balanced {#} (option_mset (event_channel ev)) a (handle_event env ev a)"
proof (cases ev)
  case (SwIdentify i)
  show ?thesis
  proof (cases i)
    case (IdentifyReceived peer info)
    then show ?thesis
      using SwIdentify identify_balanced [OF assms(1), of env peer info] by (auto simp: balanced_def split: prod.splits)
  qed (use SwIdentify assms(1) in \<open>auto intro!: balanced_effects\<close>)
qed (use assms kad_event_balanced service_req_balanced service_req_pq_balanced pq_identity_balanced
      connection_closed_balanced in \<open>auto intro!: balanced_effects\<close>)

lemma send_request_balanced:
  assumes "tables_wf a" and "ids_fresh env a"
  shows "balanced {#resp#} {#} a (cmd_send_request env peer request addresses resp a)"
proof -
  have plain: "balanced {#resp#} {#} a (send_plain env peer request addresses resp n a)" for n
    using assms by (simp add: send_plain_def balanced_def tables_wf_def waiting_def held_def ids_fresh_def entries_put)
  have pq: "balanced {#resp#} {#} a (send_pq env peer request addresses resp keys i a)" for keys i
    using assms by (auto simp: send_pq_def Let_def balanced_def tables_wf_def waiting_def held_def ids_fresh_def
        entries_put split: result.split)
  obtain b effs where b: "maybe_fetch_pq_identity env peer a = (b, effs)" by fastforce
  with maybe_fetch_balanced [OF assms(1), of env peer]
  have "balanced {#resp#} {#} a (b, effs @ [ReplyResponse resp r])" for r by (simp add: balanced_def)
  with plain pq b assms(1) show ?thesis
    by (auto simp: cmd_send_request_def Let_def intro!: balanced_effects split: result.split)
qed

lemma send_response_balanced:
  assumes "tables_wf a"
  shows "balanced {#} {#} a (cmd_send_response env request_id response a)"
proof (cases "hm_get (sa_pending_inbound a) request_id")
  case (Some entry)
  have "held a = add_mset (inbound_channel (ie_pending entry))
      (held (a\<lparr>sa_pending_inbound := hm_del request_id (sa_pending_inbound a)\<rparr>))"
    unfolding held_def using entries_del [OF tables_wfD(4) [OF assms] Some] by simp
  moreover have "responded_in (respond_pending env 0 response a (ie_pending entry))
      \<subseteq># {#inbound_channel (ie_pending entry)#}" by simp
  ultimately show ?thesis
    using Some assms subset_mset.add_mono
    by (fastforce simp: cmd_send_response_def balanced_def tables_wf_def waiting_def)
qed (simp add: cmd_send_response_def assms)

lemma reload_balanced:
  assumes "tables_wf a"
  shows "case actor_reload env a of (a', effs, r) \<Rightarrow>
     balanced {#} (opened_by env (CommandInput (Reload resp))) a (a', effs)"
proof (cases "en_build env")
  case (Ok s)
  have inb: "responded_in (numbered (\<lambda>n. reject_inbound env n a) 0 (map (ie_pending \<circ> snd) (sa_pending_inbound a)))
      \<subseteq># held a"
  proof -
    have "responded_in (reject_inbound env n a p) \<subseteq># option_mset (Some (inbound_channel p))" for n p
      by (simp add: reject_inbound_def)
    from numbered_responds [of "\<lambda>n. reject_inbound env n a" "\<lambda>p. Some (inbound_channel p)", OF this,
        of 0 "map (ie_pending \<circ> snd) (sa_pending_inbound a)"]
    show ?thesis by (auto simp: held_def entries_def List.map_filter_def case_prod_unfold comp_def multiset.map_comp)
  qed
  have old: "responded_in (numbered (\<lambda>n. reject_old_swarm_event env n a) k (en_old_events env))
      \<subseteq># mset (List.map_filter event_channel (en_old_events env))" for k
    by (rule numbered_responds) (rule reject_old_at_most)
  have quiet: "replies_in (numbered (\<lambda>n. reject_inbound env n a) 0 xs) = {#}"
    "replies_in (numbered (\<lambda>n. reject_old_swarm_event env n a) k ys) = {#}" for xs ys k
    by (rule numbered_replies; simp add: reject_inbound_def)+
  have failed: "replies_in (map (\<lambda>(q, p). fail_kad p NetReloaded) m) = entries kad_resp m"
    "replies_in (map (\<lambda>(q, p). ReplyResponse (ob_resp p) (Err NetReloaded)) m') = entries ob_resp m'"
    "replies_in (map (\<lambda>(q, p). ReplyResponse (oq_resp p) (Err NetReloaded)) m'') = entries oq_resp m''" for m m' m''
    unfolding entries_def by (rule replies_in_map; auto)+
  have silent: "responded_in (map (\<lambda>(q, p). fail_kad p NetReloaded) m) = {#}"
    "responded_in (map (\<lambda>(q, p). ReplyResponse (ob_resp p) (Err NetReloaded)) m') = {#}"
    "responded_in (map (\<lambda>(q, p). ReplyResponse (oq_resp p) (Err NetReloaded)) m'') = {#}"
    "responded_in (map SwarmDial ds) = {#}" "replies_in (map SwarmDial ds) = {#}" for m m' m'' ds
    by (auto intro!: none_responded_in no_replies_in)
  show ?thesis
    using Ok assms subset_mset.add_mono [OF inb old]
    by (simp add: actor_reload_def Let_def balanced_def tables_wf_def waiting_def failed silent quiet
        add.commute) (simp add: held_def)
qed (simp add: actor_reload_def assms)

lemma command_balanced:
  assumes "tables_wf a" and "ids_fresh env a"
  shows "balanced (asked_by (CommandInput cmd)) (opened_by env (CommandInput cmd)) a (fst (handle_command env cmd a))"
proof (cases cmd)
  case (Reload resp)
  then show ?thesis using reload_balanced [OF assms(1), of env resp] by (auto simp: balanced_def split: prod.splits)
qed (use assms kad_commands_balanced [OF assms] send_request_balanced [OF assms] send_response_balanced [OF assms(1)]
      in \<open>auto intro!: balanced_effects\<close>)

lemma swarm_step_balanced:
  assumes "tables_wf a" and "ids_fresh env a" and "progress_ok i a"
  shows "balanced (asked_by i) (opened_by env i) a (swarm_step env i a)"
proof (cases i)
  case (SwarmInput ev)
  with assms event_balanced [of a env ev] show ?thesis by simp
next
  case (CommandInput cmd)
  with command_balanced [OF assms(1,2), of cmd] show ?thesis by simp
qed

section \<open>What leaves and what enters the node\<close>

text \<open>The effects that carry a service request to a peer or from a peer.\<close>

fun quiet :: "effect \<Rightarrow> bool" where
  "quiet (SendPlain id' peer request addresses) = False"
| "quiet (SendPq id' peer request addresses) = False"
| "quiet (Notify (NeInboundServiceRequest peer id' service payload tx)) = False"
| "quiet e = True"

definition identities_verified :: "pq_lib \<Rightarrow> swarm_actor \<Rightarrow> bool" where
  "identities_verified lib a \<longleftrightarrow>
     (\<forall>peer i. hm_get (sa_pq_identities a) peer = Some i \<longrightarrow> pq_verify lib i peer = Ok ())"

text \<open>\<open>calm a r\<close>: a step keeps the cached identities and carries no service request.\<close>

definition calm :: "swarm_actor \<Rightarrow> swarm_actor \<times> effect list \<Rightarrow> bool" where
  "calm a r \<longleftrightarrow> sa_pq_identities (fst r) = sa_pq_identities a \<and> list_all quiet (snd r)"

lemma quiet_fail_kad [simp]: "quiet (fail_kad p e)"
  by (cases p) (simp_all add: fail_kad_def)

lemma quiet_responds [simp]:
  "list_all quiet (respond_sealed env n a channel inbound response)"
  "list_all quiet (respond_identity env a channel)"
  using respond_sealed_cases [of env n a channel inbound response] respond_identity_cases [of env a channel]
  by auto

lemma quiet_respond_pending [simp]: "list_all quiet (respond_pending env n response a p)"
  by (cases p) (simp_all add: respond_pending_def)

lemma quiet_reject_old [simp]: "list_all quiet (reject_old_swarm_event env n a ev)"
  by (cases "(env, n, a, ev)" rule: reject_old_swarm_event.cases) (auto split: option.split result.split)

lemma quiet_numbered: "(\<And>n x. list_all quiet (f n x)) \<Longrightarrow> list_all quiet (numbered f n xs)"
  by (induction xs arbitrary: n) auto

lemma kad_event_calm: "calm a (handle_kad_event env ev a)"
proof (cases "(env, ev, a)" rule: handle_kad_event.cases)
  case (4 env' id' result a')
  show ?thesis
  proof (cases "hm_get (sa_pending_kad a) id'")
    case (Some p)
    with 4 show ?thesis
      by (cases "(p, result)" rule: apply_get_providers.cases) (simp_all add: calm_def on_get_providers_def Let_def)
  qed (use 4 in \<open>simp add: calm_def on_get_providers_def Let_def\<close>)
qed (auto simp: calm_def on_bootstrap_def on_get_record_def on_get_closest_peers_def on_put_record_def
      on_start_providing_def Let_def split: option.split kad_pending.split get_record_progress.split)

lemma maybe_fetch_calm: "calm a (maybe_fetch_pq_identity env peer a)"
  by (simp add: calm_def maybe_fetch_pq_identity_def Let_def)

lemma identify_calm: "calm a (on_identify_peer env peer info a)"
  using maybe_fetch_calm [of "a\<lparr>sa_peer_protocols := hm_put peer (if_protocols info) (sa_peer_protocols a),
    sa_identified_peers := List.insert peer (sa_identified_peers a)\<rparr>" env peer]
  by (auto simp: calm_def on_identify_peer_def Let_def list_all_iff split: prod.splits)

lemma kad_commands_calm:
  "calm a (cmd_get_record_all env key resp a)" "calm a (cmd_get_providers env key resp a)"
  "calm a (cmd_get_closest_peers env peer resp a)" "calm a (cmd_put_record env key val quorum resp a)"
  "calm a (cmd_start_providing env key resp a)" "calm a (cmd_stop_providing key resp a)"
  "calm a (cmd_remove_record key resp a)" "calm a (cmd_cache_refresh env resp a)"
  by (simp_all add: calm_def with_kad_def add_query_def cmd_get_record_all_def cmd_get_providers_def
      cmd_get_closest_peers_def cmd_put_record_def cmd_start_providing_def cmd_stop_providing_def
      cmd_remove_record_def cmd_cache_refresh_def Let_def split: result.split)

lemma send_response_calm: "calm a (cmd_send_response env request_id response a)"
  by (simp add: calm_def cmd_send_response_def split: option.split)

lemma reload_quiet:
  "actor_reload env a = (a', effs, r) \<Longrightarrow> list_all quiet effs \<and> (sa_pq_identities a' = sa_pq_identities a \<or> sa_pq_identities a' = [])"
  by (auto simp: actor_reload_def Let_def list_all_iff [of _ "map _ _"] reject_inbound_def case_prod_unfold
      intro!: quiet_numbered split: result.splits)

text \<open>A step is calm unless it is one of five: an inbound request in plaintext or sealed, the answer to
  an identity request, the end of a connection, and the two commands that send or rebuild.\<close>

fun carries :: "actor_input \<Rightarrow> bool" where
  "carries (SwarmInput (SwServiceReq (RrRequest peer connection request channel))) = True"
| "carries (SwarmInput (SwServiceReqPq (RrRequest peer connection request channel))) = True"
| "carries (SwarmInput (SwPqIdentity (RrResponse id' response))) = True"
| "carries (SwarmInput (SwConnectionClosed peer connection n)) = True"
| "carries (CommandInput (ServiceSendRequest peer request addresses resp)) = True"
| "carries (CommandInput (Reload resp)) = True"
| "carries i = False"

lemma other_steps_calm: "\<not> carries i \<Longrightarrow> calm a (swarm_step env i a)"
proof (cases i)
  case (SwarmInput ev)
  assume "\<not> carries i"
  with SwarmInput show ?thesis
  proof (cases ev)
    case (SwServiceReq r)
    with SwarmInput \<open>\<not> carries i\<close> show ?thesis by (cases r) (auto simp: calm_def split: option.split)
  next
    case (SwServiceReqPq r)
    with SwarmInput \<open>\<not> carries i\<close> show ?thesis by (cases r) (auto simp: calm_def split: option.split)
  next
    case (SwPqIdentity r)
    with SwarmInput \<open>\<not> carries i\<close> show ?thesis by (cases r) (auto simp: calm_def)
  next
    case (SwIdentify i')
    with SwarmInput identify_calm [of a env] show ?thesis
      by (cases i') (auto simp: calm_def case_prod_unfold Let_def)
  qed (auto simp: calm_def kad_event_calm [unfolded calm_def])
next
  case (CommandInput cmd)
  assume "\<not> carries i"
  with CommandInput show ?thesis
    by (cases cmd) (auto simp: kad_commands_calm send_response_calm, auto simp: calm_def)
qed

lemma identities_step:
  assumes "identities_verified (en_lib env) a"
  shows "identities_verified (en_lib env) (fst (swarm_step env i a))"
proof (cases "carries i")
  case False
  with other_steps_calm [OF False, of a env] assms show ?thesis by (simp add: calm_def identities_verified_def)
next
  case True
  then show ?thesis
  proof (cases i rule: carries.cases)
    case (3 id' response)
    with assms show ?thesis
      by (auto simp: identities_verified_def Let_def split: option.split)
        (metis is_ok.simps(1) is_ok.elims(2) unit.exhaust)
  next
    case (4 peer connection n)
    with assms show ?thesis by (auto simp: identities_verified_def on_connection_closed_def Let_def)
  next
    case (5 peer request addresses resp)
    have "sa_pq_identities (fst (cmd_send_request env peer request addresses resp a)) = sa_pq_identities a"
      using maybe_fetch_calm [of a env peer]
      by (auto simp: cmd_send_request_def send_pq_def send_plain_def calm_def Let_def split: result.split prod.split)
    with 5 assms show ?thesis by (simp add: identities_verified_def)
  next
    case (6 resp)
    obtain a' effs r where "actor_reload env a = (a', effs, r)" by (metis surj_pair)
    with 6 assms reload_quiet [OF this] show ?thesis by (auto simp: identities_verified_def)
  qed (use assms True in \<open>auto simp: identities_verified_def accept_inbound_def split: option.split result.split\<close>)
qed

text \<open>An envelope is sealed to an identity that was verified for the peer it is sent to.\<close>

definition sealed_for :: "pq_lib \<Rightarrow> peer_id \<Rightarrow> pq_request \<Rightarrow> bool" where
  "sealed_for lib peer request \<longleftrightarrow>
     (\<exists>i rng keys pt sign kp out. pq_verify lib i peer = Ok ()
        \<and> seal_request lib rng keys i pt sign kp = Ok out \<and> request = po_request out)"

lemma sealed_forI:
  "pq_verify lib i peer = Ok () \<Longrightarrow> seal_request lib rng keys i pt sign kp = Ok out
     \<Longrightarrow> sealed_for lib peer (po_request out)"
  unfolding sealed_for_def by blast

fun sealed_send :: "pq_lib \<Rightarrow> effect \<Rightarrow> bool" where
  "sealed_send lib (SendPq id' peer request addresses) = sealed_for lib peer request"
| "sealed_send lib e = True"

lemma quiet_sealed_send: "quiet e \<Longrightarrow> sealed_send lib e"
  by (cases e) auto

lemma calm_sealed: "calm a r \<Longrightarrow> e \<in> set (snd r) \<Longrightarrow> sealed_send lib e"
  by (auto simp: calm_def list_all_iff intro: quiet_sealed_send)

lemma request_security_pq:
  "request_security env peer a = SecPq \<Longrightarrow> sa_pq_keys a \<noteq> None \<and> peer \<in> hm_keys (sa_pq_identities a)
     \<and> pq_transport_enabled (en_config env)"
  by (auto simp: request_security_def send_security_for_def split: if_splits option.splits bool.splits)

lemma request_security_plaintext:
  "request_security env peer a = SecPlaintext \<Longrightarrow> \<not> pq_required (en_config env)"
  by (auto simp: request_security_def send_security_for_def split: if_splits option.splits bool.splits)

lemma send_pq_effects:
  assumes "e \<in> set (snd (send_pq env peer request addresses resp keys i a))"
  shows "quiet e \<or> (\<exists>out. seal_request (en_lib env) (en_rng env) keys i (encode_request request)
      (pq_identity_enabled (en_config env)) (sa_keypair a) = Ok out
      \<and> e = SendPq (en_out env) peer (po_request out) addresses)"
  using assms by (auto simp: send_pq_def Let_def split: result.splits if_splits)

lemma send_request_effects:
  assumes "e \<in> set (snd (cmd_send_request env peer request addresses resp a))"
  shows "quiet e \<or> (request_security env peer a = SecPlaintext \<and> e = SendPlain (en_out env) peer request addresses)
     \<or> (\<exists>keys i out. request_security env peer a = SecPq \<and> sa_pq_keys a = Some keys
          \<and> hm_get (sa_pq_identities a) peer = Some i
          \<and> seal_request (en_lib env) (en_rng env) keys i (encode_request request)
              (pq_identity_enabled (en_config env)) (sa_keypair a) = Ok out
          \<and> e = SendPq (en_out env) peer (po_request out) addresses)"
proof (cases "request_security env peer a")
  case SecPq
  from request_security_pq [OF SecPq] obtain keys i where "sa_pq_keys a = Some keys"
    "hm_get (sa_pq_identities a) peer = Some i" by (metis hm_get_None_iff not_None_eq)
  with SecPq assms show ?thesis
    by (auto simp: cmd_send_request_def Let_def split: result.splits if_splits dest: send_pq_effects)
next
  case SecWaitIdentity
  with assms maybe_fetch_calm [of a env peer] show ?thesis
    by (auto simp: cmd_send_request_def Let_def calm_def list_all_iff case_prod_unfold)
qed (use assms in \<open>auto simp: cmd_send_request_def send_plain_def Let_def split: result.splits if_splits\<close>)

lemma accept_inbound_sealed: "e \<in> set (snd (accept_inbound env peer connection pending request a)) \<Longrightarrow> sealed_send lib e"
  by (auto simp: accept_inbound_def)

lemma pq_request_effects:
  assumes "e \<in> set (snd (handle_service_req_pq env (RrRequest peer connection request channel) a))"
  shows "quiet e \<or> (\<exists>keys inb req. sa_pq_keys a = Some keys
     \<and> open_request (en_lib env) keys peer request = Ok inb \<and> decode_request (pn_plaintext inb) = Some req
     \<and> (pq_identity_enabled (en_config env) \<longrightarrow> pr_identity request \<noteq> None)
     \<and> e = Notify (NeInboundServiceRequest peer (en_uuid env) (sq_service req) (sq_payload req) (en_tx env)))"
proof -
  have "quiet e" if "e \<in> set (respond_sealed env 0 a channel inb r)" for inb r
    using that quiet_responds(1) [of env 0 a channel inb r] by (simp add: list_all_iff)
  with assms show ?thesis
    by (auto simp: accept_inbound_def split: option.splits result.splits if_splits)
qed

lemma sealed_step:
  assumes "identities_verified (en_lib env) a" and "e \<in> set (snd (swarm_step env i a))"
  shows "sealed_send (en_lib env) e"
proof (cases "carries i")
  case False
  with other_steps_calm [OF False, of a env] assms(2) show ?thesis by (blast intro: calm_sealed)
next
  case True
  have quiet_list: "sealed_send (en_lib env) e" if "list_all quiet effs" "e \<in> set effs" for effs
    using that by (auto simp: list_all_iff intro: quiet_sealed_send)
  from True show ?thesis
  proof (cases i rule: carries.cases)
    case (2 peer connection request channel)
    with assms(2) pq_request_effects [of e env peer connection request channel a] show ?thesis
      by (auto intro: quiet_sealed_send)
  next
    case (5 peer request addresses resp)
    with send_request_effects [of e env peer request addresses resp a] assms show ?thesis
      by (auto intro: quiet_sealed_send) (metis identities_verified_def sealed_forI)
  next
    case (6 resp)
    obtain a' effs r where r: "actor_reload env a = (a', effs, r)" by (metis surj_pair)
    with 6 assms(2) reload_quiet [OF r] show ?thesis by (auto intro: quiet_list)
  qed (use assms(2) True in \<open>auto simp: Let_def intro: accept_inbound_sealed split: option.splits if_splits\<close>)
qed

section \<open>Every run of the actor\<close>

text \<open>A run keeps the state, the senders of the commands so far, the response channels that reached
  the actor, and all effects.\<close>

type_synonym actor_run =
  "swarm_actor \<times> reply_channel multiset \<times> response_channel multiset \<times> effect list"

definition run_swarm :: "actor_env \<times> actor_input \<Rightarrow> actor_run \<Rightarrow> actor_run" where
  "run_swarm = (\<lambda>(env, i) (a, ts, cs, effs).
     (case swarm_step env i a of (a', es) \<Rightarrow> (a', ts + asked_by i, cs + opened_by env i, effs @ es)))"

definition swarm_promises :: "pq_lib \<Rightarrow> actor_env \<times> actor_input \<Rightarrow> actor_run \<Rightarrow> bool" where
  "swarm_promises lib = (\<lambda>(env, i) (a, _). en_lib env = lib \<and> ids_fresh env a \<and> progress_ok i a)"

definition actor_run_inv :: "pq_lib \<Rightarrow> actor_run \<Rightarrow> bool" where
  "actor_run_inv lib = (\<lambda>(a, ts, cs, effs). tables_wf a \<and> ts = replies_in effs + waiting a
     \<and> responded_in effs + held a \<subseteq># cs \<and> identities_verified lib a \<and> list_all (sealed_send lib) effs)"

definition run_start :: "node_config \<Rightarrow> swarm \<Rightarrow> keypair \<Rightarrow> pq_keys option \<Rightarrow> actor_run" where
  "run_start config swarm kp keys = (actor_new config swarm kp keys, {#}, {#}, [])"

interpretation swarm_runs: guarded_system "run_start config swarm kp keys" "swarm_promises lib" run_swarm
  "actor_run_inv lib" for config swarm kp keys lib
proof
  show "actor_run_inv lib (run_start config swarm kp keys)"
    by (simp add: run_start_def actor_run_inv_def actor_new_def tables_wf_def waiting_def held_def
        identities_verified_def)
  show "actor_run_inv lib (run_swarm e r)" if "actor_run_inv lib r" "swarm_promises lib e r" for e r
  proof -
    obtain env i where e: "e = (env, i)" by (cases e)
    obtain a ts cs effs where r: "r = (a, ts, cs, effs)" by (metis surj_pair)
    obtain a' es where s: "swarm_step env i a = (a', es)" by fastforce
    from that have inv: "tables_wf a" "ts = replies_in effs + waiting a" "responded_in effs + held a \<subseteq># cs"
      "identities_verified lib a" "list_all (sealed_send lib) effs"
      and env: "en_lib env = lib" "ids_fresh env a" "progress_ok i a"
      by (auto simp: e r actor_run_inv_def swarm_promises_def)
    from swarm_step_balanced [OF inv(1) env(2,3)] s
    have b: "tables_wf a'" "asked_by i + waiting a = replies_in es + waiting a'"
      "responded_in es + held a' \<subseteq># opened_by env i + held a" by (auto simp: balanced_def)
    have "responded_in effs + responded_in es + held a' \<subseteq># cs + opened_by env i"
    proof -
      have "responded_in effs + (responded_in es + held a') \<subseteq># responded_in effs + (opened_by env i + held a)"
        using b(3) by simp
      also have "\<dots> \<subseteq># cs + opened_by env i" using inv(3) by (simp add: ac_simps)
      finally show ?thesis by (simp add: ac_simps)
    qed
    with b inv identities_step [of env a i] sealed_step [of env a _ i] s env(1) show ?thesis
      by (auto simp: e r run_swarm_def actor_run_inv_def list_all_iff ac_simps)
  qed
qed

lemmas swarm_reachable = swarm_runs.inv_reachable [unfolded actor_run_inv_def, simplified]

text \<open>Every command with a reply channel is answered exactly once: after any run the senders of the
  commands are those the actor has used, each as often as it was given, together with those it still
  holds for a query or a request in progress (C5).\<close>
theorem commands_answered_once:
  assumes "valid_run (swarm_promises lib) run_swarm es (run_start config swarm kp keys)"
    and "fold run_swarm es (run_start config swarm kp keys) = (a, senders, opened, effs)"
  shows "senders = replies_in effs + waiting a \<and> tables_wf a"
  using swarm_reachable [OF assms(1)] assms(2) by simp

text \<open>The actor answers an inbound request at most once: the response channels it has used and the ones
  it still holds are among those that reached it, with their multiplicities (C14).\<close>
theorem response_channels_used_once:
  assumes "valid_run (swarm_promises lib) run_swarm es (run_start config swarm kp keys)"
    and "fold run_swarm es (run_start config swarm kp keys) = (a, senders, opened, effs)"
  shows "responded_in effs + held a \<subseteq># opened"
  using swarm_reachable [OF assms(1)] assms(2) by simp

text \<open>Every envelope the actor ever sends to a peer is sealed to an identity whose signature verified
  for that peer (C13).\<close>
theorem envelopes_sealed_to_verified:
  assumes "valid_run (swarm_promises lib) run_swarm es (run_start config swarm kp keys)"
    and "fold run_swarm es (run_start config swarm kp keys) = (a, senders, opened, effs)"
    and "SendPq id' peer request addresses \<in> set effs"
  shows "\<exists>i rng keys pt sign kp out. pq_verify lib i peer = Ok ()
     \<and> seal_request lib rng keys i pt sign kp = Ok out \<and> request = po_request out"
  using swarm_reachable [OF assms(1)] assms(2,3) by (auto simp: list_all_iff sealed_for_def)

text \<open>A node that requires post-quantum encryption sends no request in plaintext, and hands the
  controller only requests that arrived in an envelope that opened for the sending peer, signed where
  the configuration asks for it (C6).\<close>
theorem pq_required_no_plaintext:
  assumes "pq_required (en_config env)" and "e \<in> set (snd (swarm_step env i a))"
  shows "(\<forall>id' peer request addresses. e \<noteq> SendPlain id' peer request addresses)
     \<and> (\<forall>peer id' service payload tx. e = Notify (NeInboundServiceRequest peer id' service payload tx) \<longrightarrow>
          (\<exists>connection request channel keys inb.
             i = SwarmInput (SwServiceReqPq (RrRequest peer connection request channel))
             \<and> sa_pq_keys a = Some keys \<and> open_request (en_lib env) keys peer request = Ok inb
             \<and> decode_request (pn_plaintext inb) = Some \<lparr>sq_service = service, sq_payload = payload\<rparr>
             \<and> (pq_identity_enabled (en_config env) \<longrightarrow> pr_identity request \<noteq> None)))"
proof (cases "carries i")
  case False
  with other_steps_calm [OF False, of a env] assms(2) show ?thesis by (auto simp: calm_def list_all_iff)
next
  case True
  then show ?thesis
  proof (cases i rule: carries.cases)
    case (2 peer connection request channel)
    with assms(2) pq_request_effects [of e env peer connection request channel a] show ?thesis by fastforce
  next
    case (5 peer request addresses resp)
    with send_request_effects [of e env peer request addresses resp a] assms
      request_security_plaintext [of env peer a] show ?thesis by auto
  next
    case (6 resp)
    obtain a' effs r where r: "actor_reload env a = (a', effs, r)" by (metis surj_pair)
    with 6 assms(2) reload_quiet [OF r] show ?thesis by (auto simp: list_all_iff)
  qed (use assms True in \<open>auto simp: Let_def split: option.splits if_splits\<close>)
qed

section \<open>Requests inside the envelope come back\<close>

lemma slice_get_append:
  "slice_get (xs @ ys) 0 (length xs) = Some xs"
  "slice_get (xs @ ys @ zs) (length xs) (length xs + length ys) = Some ys"
  "slice_get (xs @ ys) (length xs) (length xs + length ys) = Some ys"
  by (simp_all add: slice_get_def)

lemma decode_encode_request:
  assumes "utf8_valid (as_bytes (sq_service req))" and "length (sq_service req) < 2 ^ 32"
  shows "decode_request (encode_request req) = Some req"
proof -
  have len: "unat (of_nat (length (sq_service req)) :: u32) = length (sq_service req)"
    using assms(2) by (simp add: unat_of_nat take_bit_nat_eq_self)
  show ?thesis
    using assms(1) len
    by (simp add: decode_request_def encode_request_def slice_get_def from_utf8_def Let_def)
qed

lemma decode_encode_response: "decode_response (encode_response resp) = Some resp"
  by (simp add: decode_response_def encode_response_def)

lemma length_encode: "length (encode_request req) = 4 + length (sq_service req) + length (sq_payload req)"
  "length (encode_response resp) = 1 + length (sr_data resp)"
  by (simp_all add: encode_request_def encode_response_def)

section \<open>What a query returns\<close>

abbreviation actor_steps :: "(actor_env \<times> actor_input) list \<Rightarrow> swarm_actor \<Rightarrow> swarm_actor" where
  "actor_steps \<equiv> fold (\<lambda>(env, i) a. fst (swarm_step env i a))"

abbreviation fresh_run :: "(actor_env \<times> actor_input) list \<Rightarrow> swarm_actor \<Rightarrow> bool" where
  "fresh_run \<equiv> valid_run (\<lambda>(env, i) a. ids_fresh env a) (\<lambda>(env, i) a. fst (swarm_step env i a))"

text \<open>The steps that can change the entry of a query: its own progress, and a reload that succeeds.\<close>

fun progress_of :: "query_id \<Rightarrow> actor_input \<Rightarrow> kad_result option" where
  "progress_of q (SwarmInput (SwKad (QueryProgressed id' result))) = (if id' = q then Some result else None)"
| "progress_of q i = None"

fun rebuilds :: "actor_env \<Rightarrow> actor_input \<Rightarrow> bool" where
  "rebuilds env (CommandInput (Reload resp)) = is_ok (en_build env)"
| "rebuilds env i = False"

lemma kad_event_other_query:
  assumes "progress_of q (SwarmInput (SwKad ev)) = None"
  shows "hm_get (sa_pending_kad (fst (handle_kad_event env ev a))) q = hm_get (sa_pending_kad a) q"
proof (cases "(env, ev, a)" rule: handle_kad_event.cases)
  case (4 env' id' result a')
  show ?thesis
  proof (cases "hm_get (sa_pending_kad a) id'")
    case (Some p)
    with 4 assms show ?thesis
      by (cases "(p, result)" rule: apply_get_providers.cases) (auto simp: on_get_providers_def Let_def split: if_splits)
  qed (use 4 assms in \<open>auto simp: on_get_providers_def Let_def split: if_splits\<close>)
qed (use assms in \<open>auto simp: on_bootstrap_def on_get_record_def on_get_closest_peers_def on_put_record_def
      on_start_providing_def Let_def split: if_splits option.split kad_pending.split get_record_progress.split\<close>)

lemma maybe_fetch_kad [simp]: "sa_pending_kad (fst (maybe_fetch_pq_identity env peer a)) = sa_pending_kad a"
  by (simp add: maybe_fetch_pq_identity_def Let_def)

lemma identify_kad [simp]: "sa_pending_kad (fst (on_identify_peer env peer info a)) = sa_pending_kad a"
  by (simp add: on_identify_peer_def Let_def case_prod_unfold)

lemma service_events_kad [simp]:
  "sa_pending_kad (fst (handle_service_req env r a)) = sa_pending_kad a"
  "sa_pending_kad (fst (handle_service_req_pq env r' a)) = sa_pending_kad a"
  "sa_pending_kad (fst (handle_pq_identity env r'' a)) = sa_pending_kad a"
  "sa_pending_kad (on_connection_closed peer connection n a) = sa_pending_kad a"
  by (cases r, auto simp: accept_inbound_def split: option.split)
    (cases r', auto simp: accept_inbound_def split: option.split result.split,
     cases r'', auto simp: Let_def on_connection_closed_def split: option.split)

lemma send_request_kad [simp]:
  "sa_pending_kad (fst (cmd_send_request env peer request addresses resp a)) = sa_pending_kad a"
  using maybe_fetch_kad [of env peer a]
  by (auto simp: cmd_send_request_def send_pq_def send_plain_def Let_def case_prod_unfold split: result.split)

lemma query_kept:
  assumes "ids_fresh env a" and "hm_get (sa_pending_kad a) q = Some p"
    and "progress_of q i = None" and "\<not> rebuilds env i"
  shows "hm_get (sa_pending_kad (fst (swarm_step env i a))) q = Some p"
proof (cases i)
  case (SwarmInput ev)
  show ?thesis
  proof (cases ev)
    case (SwKad k)
    with SwarmInput assms kad_event_other_query [of q k env a] show ?thesis by simp
  next
    case (SwIdentify i')
    with SwarmInput assms(2) show ?thesis by (cases i') (auto simp: case_prod_unfold Let_def)
  qed (use SwarmInput assms in auto)
next
  case (CommandInput cmd)
  have "q \<in> hm_keys (sa_pending_kad a)" using assms(2) by (metis hm_get_None_iff option.distinct(1))
  with assms(1) have "q \<noteq> en_query env" "en_put env \<noteq> Ok q" "en_provide env \<noteq> Ok q"
    unfolding ids_fresh_def by metis+
  then have new: "hm_get (sa_pending_kad (add_query (en_query env) p' a)) q = Some p"
    "en_put env = Ok q' \<Longrightarrow> hm_get (sa_pending_kad (add_query q' p' a)) q = Some p"
    "en_provide env = Ok q' \<Longrightarrow> hm_get (sa_pending_kad (add_query q' p' a)) q = Some p" for p' q'
    using assms(2) by (auto simp: add_query_def)
  show ?thesis
  proof (cases cmd)
    case (Reload resp)
    with CommandInput assms(2,4) show ?thesis by (cases "en_build env") (auto simp: actor_reload_def)
  qed (use CommandInput assms(2) new in \<open>auto simp: cmd_get_record_all_def cmd_get_providers_def
        cmd_get_closest_peers_def cmd_put_record_def cmd_start_providing_def cmd_stop_providing_def
        cmd_remove_record_def cmd_cache_refresh_def cmd_send_response_def with_kad_def Let_def
        split: result.split option.split\<close>)
qed

text \<open>The batches of a query in a run.\<close>

fun batches :: "(kad_result \<Rightarrow> 'x option) \<Rightarrow> query_id \<Rightarrow> (actor_env \<times> actor_input) list \<Rightarrow> 'x list" where
  "batches batch q [] = []"
| "batches batch q ((env, i) # es) =
     (case progress_of q i of
        Some result \<Rightarrow> (case batch result of Some x \<Rightarrow> x # batches batch q es | None \<Rightarrow> batches batch q es)
      | None \<Rightarrow> batches batch q es)"

text \<open>
  A query whose results come in batches. \<open>pend acc\<close> is its entry with the results so far and
  \<open>batch\<close> tells which progress adds to them.
\<close>

locale collecting_query =
  fixes pend :: "'acc \<Rightarrow> kad_pending"
    and batch :: "kad_result \<Rightarrow> 'x option"
    and add :: "'x \<Rightarrow> 'acc \<Rightarrow> 'acc"
  assumes collects: "hm_get (sa_pending_kad a) q = Some (pend acc) \<Longrightarrow> batch result = Some x \<Longrightarrow>
     hm_get (sa_pending_kad (fst (handle_kad_event env (QueryProgressed q result) a))) q = Some (pend (add x acc))"
begin

lemma collects_over_run:
  assumes "fresh_run es a" and "hm_get (sa_pending_kad a) q = Some (pend acc)"
    and "\<And>env i. (env, i) \<in> set es \<Longrightarrow> \<not> rebuilds env i"
    and "\<And>env i result. (env, i) \<in> set es \<Longrightarrow> progress_of q i = Some result \<Longrightarrow> batch result \<noteq> None"
  shows "hm_get (sa_pending_kad (actor_steps es a)) q = Some (pend (fold add (batches batch q es) acc))"
  using assms
proof (induction es arbitrary: a acc)
  case (Cons e es)
  obtain env i where e: "e = (env, i)" by (cases e)
  let ?a = "fst (swarm_step env i a)"
  have rest: "hm_get (sa_pending_kad (actor_steps es ?a)) q = Some (pend (fold add (batches batch q es) acc'))"
    if "hm_get (sa_pending_kad ?a) q = Some (pend acc')" for acc'
  proof (rule Cons.IH [OF _ that])
    show "fresh_run es ?a" using Cons.prems(1) e by simp
    show "\<not> rebuilds env i" if "(env, i) \<in> set es" for env i
      using Cons.prems(3) that by (meson list.set_intros(2))
    show "batch result \<noteq> None" if "(env, i) \<in> set es" "progress_of q i = Some result" for env i result
      using Cons.prems(4) that by (meson list.set_intros(2))
  qed
  show ?case
  proof (cases "progress_of q i")
    case None
    with query_kept [of env a q "pend acc" i] Cons.prems e rest [of acc] show ?thesis by auto
  next
    case (Some result)
    then have i: "i = SwarmInput (SwKad (QueryProgressed q result))"
      by (cases "(q, i)" rule: progress_of.cases) (auto split: if_splits)
    from Cons.prems(4) [of env i result] Some e obtain x where x: "batch result = Some x" by auto
    from collects [OF Cons.prems(2) x] i have "hm_get (sa_pending_kad ?a) q = Some (pend (add x acc))" by simp
    with rest [OF this] Some x e show ?thesis by simp
  qed
qed simp

end

fun record_batch :: "kad_result \<Rightarrow> peer_record option" where
  "record_batch (GetRecordResult (FoundRecord r)) = Some r"
| "record_batch result = None"

fun provider_batch :: "kad_result \<Rightarrow> peer_id list option" where
  "provider_batch (GetProvidersResult (FoundProviders ps)) = Some ps"
| "provider_batch result = None"

interpretation record_query: collecting_query "PendGetRecord resp" record_batch "\<lambda>r rs. rs @ [r]" for resp
proof
  show "hm_get (sa_pending_kad (fst (handle_kad_event env (QueryProgressed q result) a))) q
      = Some (PendGetRecord resp (acc @ [x]))"
    if "hm_get (sa_pending_kad a) q = Some (PendGetRecord resp acc)" "record_batch result = Some x"
    for a q acc result x env
    using that by (cases result rule: record_batch.cases) (auto simp: on_get_record_def Let_def)
qed

interpretation provider_query: collecting_query "PendGetProviders resp" provider_batch
  "\<lambda>ps acc. fold List.insert ps acc" for resp
proof
  show "hm_get (sa_pending_kad (fst (handle_kad_event env (QueryProgressed q result) a))) q
      = Some (PendGetProviders resp (fold List.insert x acc))"
    if "hm_get (sa_pending_kad a) q = Some (PendGetProviders resp acc)" "provider_batch result = Some x"
    for a q acc result x env
    using that by (cases result rule: provider_batch.cases) (auto simp: on_get_providers_def Let_def)
qed

lemma fold_snoc: "fold (\<lambda>r rs. rs @ [r]) xs acc = acc @ xs"
  by (induction xs arbitrary: acc) simp_all

lemma fold_batches_set: "set (fold (\<lambda>ps acc. fold List.insert ps acc) pss acc) = set acc \<union> \<Union> (set ` set pss)"
  by (induction pss arbitrary: acc) auto

lemma fold_batches_distinct: "distinct acc \<Longrightarrow> distinct (fold (\<lambda>ps acc. fold List.insert ps acc) pss acc)"
  by (induction pss arbitrary: acc) auto

text \<open>\<open>only_batches\<close>: between the start and the end of a query its progress only adds results, and the
  swarm is not rebuilt.\<close>

definition only_batches :: "(kad_result \<Rightarrow> 'x option) \<Rightarrow> query_id \<Rightarrow> (actor_env \<times> actor_input) list \<Rightarrow> bool" where
  "only_batches batch q es \<longleftrightarrow>
     list_all (\<lambda>(env, i). \<not> rebuilds env i
       \<and> (case progress_of q i of None \<Rightarrow> True | Some result \<Rightarrow> batch result \<noteq> None)) es"

lemma only_batchesD:
  "only_batches batch q es \<Longrightarrow> (env, i) \<in> set es \<Longrightarrow> \<not> rebuilds env i"
  "only_batches batch q es \<Longrightarrow> (env, i) \<in> set es \<Longrightarrow> progress_of q i = Some result \<Longrightarrow> batch result \<noteq> None"
  by (auto simp: only_batches_def list_all_iff)

text \<open>A record query returns every record found while it ran, in order, whatever else the actor did
  meanwhile; it fails only if it ends with an error before any record was found.\<close>
theorem record_query_returns_all:
  assumes "sw_kademlia (sa_swarm a)"
    and "fresh_run es (fst (cmd_get_record_all env key resp a))"
    and "only_batches record_batch (en_query env) es"
    and "\<forall>r. ending \<noteq> FoundRecord r"
  shows "snd (swarm_step env' (SwarmInput (SwKad (QueryProgressed (en_query env) (GetRecordResult ending))))
      (actor_steps es (fst (cmd_get_record_all env key resp a))))
     = [ReplyRecords resp
          (let found = batches record_batch (en_query env) es in
           case ending of RecordFailed e \<Rightarrow> if found = [] then Err (NetKad e) else Ok found | _ \<Rightarrow> Ok found)]"
proof -
  have "hm_get (sa_pending_kad (fst (cmd_get_record_all env key resp a))) (en_query env) = Some (PendGetRecord resp [])"
    using assms(1) by (simp add: cmd_get_record_all_def with_kad_def add_query_def)
  from record_query.collects_over_run [OF assms(2) this only_batchesD [OF assms(3)]]
  have "hm_get (sa_pending_kad (actor_steps es (fst (cmd_get_record_all env key resp a)))) (en_query env)
      = Some (PendGetRecord resp (batches record_batch (en_query env) es))" by (simp add: fold_snoc)
  with assms(4) show ?thesis by (cases ending) (simp_all add: on_get_record_def Let_def)
qed

text \<open>A provider query that ends normally returns every provider of every batch reported while it ran,
  each once.\<close>
theorem provider_query_returns_all:
  assumes "sw_kademlia (sa_swarm a)"
    and "fresh_run es (fst (cmd_get_providers env key resp a))"
    and "only_batches provider_batch (en_query env) es"
  shows "\<exists>ps. snd (swarm_step env' (SwarmInput (SwKad (QueryProgressed (en_query env) (GetProvidersResult ProvidersFinished))))
      (actor_steps es (fst (cmd_get_providers env key resp a)))) = [ReplyProviders resp (Ok ps)]
     \<and> distinct ps \<and> set ps = \<Union> (set ` set (batches provider_batch (en_query env) es))"
proof -
  let ?ps = "fold (\<lambda>ps acc. fold List.insert ps acc) (batches provider_batch (en_query env) es) []"
  have "hm_get (sa_pending_kad (fst (cmd_get_providers env key resp a))) (en_query env) = Some (PendGetProviders resp [])"
    using assms(1) by (simp add: cmd_get_providers_def with_kad_def add_query_def)
  from provider_query.collects_over_run [OF assms(2) this only_batchesD [OF assms(3)]]
  have "hm_get (sa_pending_kad (actor_steps es (fst (cmd_get_providers env key resp a)))) (en_query env)
      = Some (PendGetProviders resp ?ps)" .
  then show ?thesis
    by (intro exI [of _ ?ps]) (simp add: on_get_providers_def Let_def fold_batches_distinct fold_batches_set)
qed

section \<open>Reload\<close>

lemma numbered_member: "x \<in> set xs \<Longrightarrow> \<exists>k. set (f k x) \<subseteq> set (numbered f n xs)"
proof (induction xs arbitrary: n)
  case (Cons y xs)
  show ?case
  proof (cases "x = y")
    case False
    with Cons obtain k where "set (f k x) \<subseteq> set (numbered f (Suc n) xs)" by fastforce
    then show ?thesis by (intro exI [of _ k]) auto
  qed auto
qed simp

lemma set_map_filter: "set (List.map_filter f xs) = {y. \<exists>x \<in> set xs. f x = Some y}"
  by (force simp: List.map_filter_def)

text \<open>A reload that cannot build the new swarm changes nothing and reports the error. One that can
  answers every pending query and request with \<open>Reloaded\<close> and every inbound request in plaintext with
  the rejection, forgets identities and protocols, and allows only bootstrap peers in the new routing
  table; the configuration is not read again.\<close>
theorem reload_answers_everything:
  "case en_build env of
     Err e \<Rightarrow> handle_command env (Reload resp) a = ((a, [ReplyUnit resp (Err e)]), True)
   | Ok s \<Rightarrow> (let (a', effs) = fst (handle_command env (Reload resp) a) in
       waiting a' = {#} \<and> held a' = {#} \<and> sa_swarm a' = s
       \<and> sa_pq_identities a' = [] \<and> sa_peer_protocols a' = [] \<and> sa_last_bootstrap_notice a' = None
       \<and> set (sa_identified_peers a') = {p. \<exists>addr \<in> set (bootstrap_nodes (en_config env)). peer_id_from_multiaddr addr = Some p}
       \<and> (\<forall>q p. (q, p) \<in> set (sa_pending_kad a) \<longrightarrow> fail_kad p NetReloaded \<in> set effs)
       \<and> (\<forall>q p. (q, p) \<in> set (sa_pending_outbound a) \<longrightarrow> ReplyResponse (ob_resp p) (Err NetReloaded) \<in> set effs)
       \<and> (\<forall>q p. (q, p) \<in> set (sa_pending_outbound_pq a) \<longrightarrow> ReplyResponse (oq_resp p) (Err NetReloaded) \<in> set effs)
       \<and> (\<forall>id' entry channel. (id', entry) \<in> set (sa_pending_inbound a) \<longrightarrow> ie_pending entry = InPlain channel
            \<longrightarrow> RespondPlain channel reload_rejection_response \<in> set effs)
       \<and> last effs = ReplyUnit resp (Ok ()))"
proof (cases "en_build env")
  case (Ok s)
  have plain: "RespondPlain channel reload_rejection_response
      \<in> set (numbered (\<lambda>n. reject_inbound env n a) 0 (map (ie_pending \<circ> snd) (sa_pending_inbound a)))"
    if "(id', entry) \<in> set (sa_pending_inbound a)" "ie_pending entry = InPlain channel" for id' entry channel
  proof -
    have "InPlain channel \<in> set (map (ie_pending \<circ> snd) (sa_pending_inbound a))"
      using that by (force simp: image_iff)
    from numbered_member [OF this, of "\<lambda>n. reject_inbound env n a" 0]
    show ?thesis by (auto simp: reject_inbound_def respond_pending_def)
  qed
  show ?thesis
    using Ok plain
    by (auto simp: actor_reload_def Let_def waiting_def held_def set_map_filter image_iff Bex_def)
qed (simp add: actor_reload_def)

section \<open>A call between two nodes\<close>

lemma hm_get_keys: "hm_get m k = Some v \<Longrightarrow> k \<in> hm_keys m"
  by (metis hm_get_None_iff option.distinct(1))

text \<open>The two halves of a sealed call at the client: the request goes out, and the answer to it is
  handed to the caller.\<close>

lemma client_sends:
  assumes "sa_pq_keys a = Some keys" and "hm_get (sa_pq_identities a) peer = Some i"
    and "pq_transport_enabled (en_config env)" and "sw_service_req_pq (sa_swarm a)"
    and "en_request_len env req = Ok n" and "n \<le> unat (dispatcher_max_request_bytes (en_config env))"
    and "seal_request (en_lib env) (en_rng env) keys i (encode_request req)
       (pq_identity_enabled (en_config env)) (sa_keypair a) = Ok out"
    and "en_pq_len env (po_request out) = Ok m" and "m \<le> unat (dispatcher_max_request_bytes (en_config env))"
  shows "swarm_step env (CommandInput (ServiceSendRequest peer req addrs resp)) a =
     (a\<lparr>sa_pending_outbound_pq := hm_put (en_out env) \<lparr>oq_resp = resp, oq_out = out, oq_wire_len = m\<rparr>
         (sa_pending_outbound_pq a)\<rparr>, [SendPq (en_out env) peer (po_request out) addrs])"
proof -
  have "request_security env peer a = SecPq"
    using assms(1,3) hm_get_keys [OF assms(2)] by (simp add: request_security_def send_security_for_def)
  with assms show ?thesis by (simp add: cmd_send_request_def send_pq_def Let_def)
qed

lemma client_answers:
  assumes "hm_get (sa_pending_outbound_pq a) id' = Some p"
    and "open_response (en_lib env) (oq_out p) ans = Ok (encode_response response)"
  shows "snd (swarm_step env (SwarmInput (SwServiceReqPq (RrResponse id' ans))) a)
     = [ReplyResponse (oq_resp p) (Ok response)]"
  using assms by (simp add: decode_encode_response)

text \<open>The two halves at the server.\<close>

lemma server_accepts:
  assumes "sa_pq_keys b = Some keys" and "open_request (en_lib env) keys peer request = Ok inb"
    and "pq_identity_enabled (en_config env) \<longrightarrow> pr_identity request \<noteq> None"
    and "decode_request (pn_plaintext inb) = Some req"
  shows "swarm_step env (SwarmInput (SwServiceReqPq (RrRequest peer connection request channel))) b
     = accept_inbound env peer connection (InPq channel inb) req b"
  using assms by auto

lemma server_responds:
  assumes "hm_get (sa_pending_inbound b) id' = Some entry" and "ie_pending entry = InPq channel inb"
    and "seal_response (en_lib env) (en_nonces env 0) inb (encode_response response) = Ok ans"
    and "sw_service_req_pq (sa_swarm b)"
  shows "snd (swarm_step env (CommandInput (ServiceSendResponse id' response)) b) = [RespondPq channel ans]"
  using assms by (simp add: cmd_send_response_def respond_pending_def respond_sealed_def)

lemma seal_request_identity:
  "seal_request lib rng keys i pt sign kp = Ok out \<Longrightarrow> sign \<Longrightarrow> pr_identity (po_request out) \<noteq> None"
  by (auto simp: seal_request_def result_iffs Let_def case_prod_unfold)


section \<open>Bootstrap notices\<close>

definition unnoticed :: "swarm_actor \<Rightarrow> swarm_actor \<times> effect list \<Rightarrow> bool" where
  "unnoticed a r \<longleftrightarrow> sa_last_bootstrap_notice (fst r) = sa_last_bootstrap_notice a
     \<and> Notify NeBootstrapCompleted \<notin> set (snd r)"

fun bootstraps :: "actor_input \<Rightarrow> bool" where
  "bootstraps (SwarmInput (SwKad (QueryProgressed id' (BootstrapResult result)))) = True"
| "bootstraps i = False"

lemma responds_unnoticed [simp]:
  "Notify ev \<notin> set (respond_sealed env n a channel inbound response)"
  "Notify ev \<notin> set (respond_identity env a channel)" "Notify ev \<notin> set (respond_pending env n response a p)"
  by (auto simp: respond_sealed_def respond_identity_def respond_pending_def split: result.split option.split
      pending_inbound.split)

lemma fetch_unnoticed: "unnoticed a (maybe_fetch_pq_identity env peer a)"
  by (simp add: unnoticed_def maybe_fetch_pq_identity_def Let_def)

lemma identify_unnoticed: "unnoticed a (on_identify_peer env peer info a)"
  using fetch_unnoticed [of "a\<lparr>sa_peer_protocols := hm_put peer (if_protocols info) (sa_peer_protocols a),
    sa_identified_peers := List.insert peer (sa_identified_peers a)\<rparr>" env peer]
  by (auto simp: unnoticed_def on_identify_peer_def Let_def case_prod_unfold)

lemma kad_event_unnoticed: "\<not> bootstraps (SwarmInput (SwKad ev)) \<Longrightarrow> unnoticed a (handle_kad_event env ev a)"
proof (cases "(env, ev, a)" rule: handle_kad_event.cases)
  case (4 env' id' result a')
  show ?thesis
  proof (cases "hm_get (sa_pending_kad a) id'")
    case (Some p)
    with 4 show ?thesis
      by (cases "(p, result)" rule: apply_get_providers.cases) (simp_all add: unnoticed_def on_get_providers_def Let_def)
  qed (use 4 in \<open>simp add: unnoticed_def on_get_providers_def Let_def\<close>)
qed (auto simp: unnoticed_def on_get_record_def on_get_closest_peers_def on_put_record_def
      on_start_providing_def Let_def split: option.split kad_pending.split get_record_progress.split)

lemma send_request_unnoticed: "unnoticed a (cmd_send_request env peer request addresses resp a)"
  using fetch_unnoticed [of a env peer]
  by (auto simp: unnoticed_def cmd_send_request_def send_pq_def send_plain_def Let_def case_prod_unfold
      split: result.split)

lemma event_unnoticed:
  assumes "\<not> bootstraps (SwarmInput ev)"
  shows "unnoticed a (handle_event env ev a)"
proof (cases ev)
  case (SwKad k)
  with assms kad_event_unnoticed show ?thesis by simp
next
  case (SwServiceReq r)
  then show ?thesis by (cases r) (auto simp: unnoticed_def accept_inbound_def split: option.split)
next
  case (SwServiceReqPq r)
  then show ?thesis
    by (cases r) (auto simp: unnoticed_def accept_inbound_def split: option.split result.split)
next
  case (SwPqIdentity r)
  then show ?thesis by (cases r) (auto simp: unnoticed_def Let_def split: option.split)
next
  case (SwIdentify i)
  with identify_unnoticed [of a env] show ?thesis
    by (cases i) (auto simp: unnoticed_def case_prod_unfold Let_def)
qed (auto simp: unnoticed_def on_connection_closed_def Let_def)

lemma command_unnoticed:
  assumes "\<not> rebuilds env (CommandInput cmd)"
  shows "unnoticed a (fst (handle_command env cmd a))"
proof (cases cmd)
  case (Reload resp)
  with assms show ?thesis by (cases "en_build env") (auto simp: unnoticed_def actor_reload_def)
next
  case (ServiceSendRequest peer request addresses resp)
  then show ?thesis by (simp add: send_request_unnoticed)
qed (auto simp: unnoticed_def with_kad_def add_query_def cmd_get_record_all_def cmd_get_providers_def
      cmd_get_closest_peers_def cmd_put_record_def cmd_start_providing_def cmd_stop_providing_def
      cmd_remove_record_def cmd_cache_refresh_def cmd_send_response_def Let_def split: result.split option.split)

text \<open>The instants of the notices since the swarm was built.\<close>

definition run_notices ::
    "actor_env \<times> actor_input \<Rightarrow> swarm_actor \<times> instant list \<Rightarrow> swarm_actor \<times> instant list" where
  "run_notices = (\<lambda>(env, i) (a, ts).
     (case swarm_step env i a of (a', effs) \<Rightarrow>
        (a', if rebuilds env i then []
             else if Notify NeBootstrapCompleted \<in> set effs then ts @ [en_now env] else ts)))"

definition notices_inv :: "swarm_actor \<times> instant list \<Rightarrow> bool" where
  "notices_inv = (\<lambda>(a, ts). sorted_wrt (\<lambda>s t. s + BOOTSTRAP_NOTICE_INTERVAL \<le> t) ts
     \<and> sa_last_bootstrap_notice a = (if ts = [] then None else Some (last ts)))"

lemma sorted_wrt_spaced_snoc:
  assumes "sorted_wrt (\<lambda>s t. s + d \<le> t) ts" and "ts \<noteq> []" and "last ts + d \<le> (now :: nat)"
  shows "sorted_wrt (\<lambda>s t. s + d \<le> t) (ts @ [now])"
proof -
  have "s \<le> last ts" if "s \<in> set ts" for s
    using that assms(1)
  proof (induction ts)
    case (Cons t ts)
    then show ?case by (cases "ts = []") (auto dest: bspec [OF _ last_in_set])
  qed simp
  with assms show ?thesis by (fastforce simp: sorted_wrt_append)
qed

lemma notice_due: "BOOTSTRAP_NOTICE_INTERVAL \<le> now - last' \<Longrightarrow> last' + BOOTSTRAP_NOTICE_INTERVAL \<le> now"
  by (simp add: BOOTSTRAP_NOTICE_INTERVAL_def from_secs_def)

lemma bootstrap_notices_inv:
  assumes "notices_inv (a, ts)"
  shows "notices_inv (fst (on_bootstrap env result a),
     if Notify NeBootstrapCompleted \<in> set (snd (on_bootstrap env result a)) then ts @ [en_now env] else ts)"
  using assms sorted_wrt_spaced_snoc [of BOOTSTRAP_NOTICE_INTERVAL ts "en_now env"]
  by (auto simp: notices_inv_def on_bootstrap_def Let_def dest: notice_due split: if_splits option.splits)

interpretation notices: invariant_system "(actor_new config swarm kp keys, [])" run_notices notices_inv
  for config swarm kp keys
proof
  show "notices_inv (actor_new config swarm kp keys, [])" by (simp add: notices_inv_def actor_new_def)
  show "notices_inv (run_notices e s)" if inv: "notices_inv s" for s e
  proof -
    obtain env i a ts where e: "e = (env, i)" "s = (a, ts)" by (metis surj_pair)
    consider (boot) id' result where "i = SwarmInput (SwKad (QueryProgressed id' (BootstrapResult result)))"
      | (rebuild) "rebuilds env i" | (other) "\<not> bootstraps i" "\<not> rebuilds env i"
      by (cases i rule: bootstraps.cases) auto
    then show ?thesis
    proof cases
      case boot
      with bootstrap_notices_inv [of a ts env result] inv e show ?thesis
        by (auto simp: run_notices_def case_prod_unfold split: if_splits)
    next
      case rebuild
      then obtain resp s' where "i = CommandInput (Reload resp)" "en_build env = Ok s'"
        by (cases "(env, i)" rule: rebuilds.cases) (auto elim!: is_ok.elims)
      with e show ?thesis by (simp add: run_notices_def notices_inv_def actor_reload_def Let_def)
    next
      case other
      then have "unnoticed a (swarm_step env i a)"
        using event_unnoticed command_unnoticed by (cases i) auto
      with other inv e show ?thesis by (auto simp: run_notices_def notices_inv_def unnoticed_def case_prod_unfold)
    qed
  qed
qed

text \<open>The controller is told of a successful bootstrap at most once every thirty seconds while a swarm
  lives, and again after thirty seconds.\<close>
theorem bootstrap_notices_spaced:
  assumes "fold run_notices es (actor_new config swarm kp keys, []) = (a, ts)"
  shows "sorted_wrt (\<lambda>s t. s + from_secs 30 \<le> t) ts
     \<and> (ts \<noteq> [] \<and> last ts + from_secs 30 \<le> en_now env \<longrightarrow>
         Notify NeBootstrapCompleted
           \<in> set (snd (swarm_step env (SwarmInput (SwKad (QueryProgressed q (BootstrapResult (Ok ()))))) a)))"
  using notices.inv_always [of es config swarm kp keys] assms
  by (auto simp: notices_inv_def BOOTSTRAP_NOTICE_INTERVAL_def on_bootstrap_def Let_def)

section \<open>An example run\<close>

definition demo_pq_config :: node_config where
  "demo_pq_config = node_config_default\<lparr>cfg_crypto :=
     \<lparr>cc_pq_transport_enabled = True, cc_pq_identity_enabled = True, cc_pq_required = True\<rparr>\<rparr>"

definition demo_swarm :: swarm where
  "demo_swarm = \<lparr>sw_kademlia = True, sw_service_req_pq = True, sw_pq_identity = True, sw_local_peer_id = [0, 1]\<rparr>"

definition demo_swarm_env :: actor_env where
  "demo_swarm_env = \<lparr>en_lib = demo_pq, en_config = demo_pq_config, en_now = from_secs 60, en_query = 1, en_put = Ok 1,
     en_provide = Ok 1, en_store = [], en_peer_id = (\<lambda>kp. 0 # kp), en_out = 3, en_uuid = ''u'', en_tx = 5,
     en_rng = demo_rng, en_nonces = (\<lambda>_. replicate NONCE_LEN 0), en_request_len = (\<lambda>_. Ok 0),
     en_pq_len = (\<lambda>_. Ok 0), en_show_peer = from_bytes, en_listen = Ok (), en_dial = Ok (),
     en_build = Ok demo_swarm, en_old_events = []\<rparr>"

definition demo_peer_info :: identify_info where
  "demo_peer_info = \<lparr>if_agent_version = ''/nexusnet'', if_protocols = [SERVICE_REQ_PQ_PROTOCOL], if_listen_addrs = []\<rparr>"

definition demo_call :: service_request where
  "demo_call = \<lparr>sq_service = ''echo'', sq_payload = [1, 2]\<rparr>"

definition demo_swarm_run :: "(actor_env \<times> actor_input) list" where
  "demo_swarm_run =
     [(demo_swarm_env, SwarmInput (SwIdentify (IdentifyReceived [0, 9] demo_peer_info))),
      (demo_swarm_env, SwarmInput (SwPqIdentity (RrResponse 3 demo_identity))),
      (demo_swarm_env, CommandInput (ServiceSendRequest [0, 9] demo_call [] 7)),
      (demo_swarm_env\<lparr>en_out := 4\<rparr>, SwarmInput (SwServiceReq (RrRequest [0, 5] 2 demo_call 44)))]"

definition demo_outbound :: pq_outbound where
  "demo_outbound = \<lparr>po_request = demo_envelope_for (encode_request demo_call), po_res_key = demo_res_key\<rparr>"

definition demo_identified :: swarm_actor where
  "demo_identified = (actor_new demo_pq_config demo_swarm [9] (Some demo_pq_keys))
     \<lparr>sa_identified_peers := List.insert [0, 9] (sa_identified_peers (actor_new demo_pq_config demo_swarm [9] (Some demo_pq_keys))),
      sa_peer_protocols := [([0, 9], [SERVICE_REQ_PQ_PROTOCOL])]\<rparr>"

lemmas demo_actor_defs = demo_swarm_env_def demo_swarm_def demo_pq_config_def pq_enabled_def pq_required_def
  pq_transport_enabled_def pq_identity_enabled_def

lemma demo_step1:
  "swarm_step demo_swarm_env (SwarmInput (SwIdentify (IdentifyReceived [0, 9] demo_peer_info)))
     (actor_new demo_pq_config demo_swarm [9] (Some demo_pq_keys))
   = (demo_identified\<lparr>sa_pending_pq_identity := [(3, [0, 9])]\<rparr>,
      [SendIdentityRequest 3 [0, 9], Notify (NeIdentify (IdentifyReceived [0, 9] demo_peer_info))])"
  by (simp add: demo_identified_def actor_new_def on_identify_peer_def maybe_fetch_pq_identity_def Let_def
      demo_peer_info_def AGENT_NAME_def demo_actor_defs)

lemma demo_step2:
  "swarm_step demo_swarm_env (SwarmInput (SwPqIdentity (RrResponse 3 demo_identity)))
     (demo_identified\<lparr>sa_pending_pq_identity := [(3, [0, 9])]\<rparr>)
   = (demo_identified\<lparr>sa_pq_identities := [([0, 9], demo_identity)]\<rparr>, [])"
  by (simp add: demo_identified_def actor_new_def demo_swarm_env_def demo_identity_verifies)

lemma demo_step3:
  "swarm_step demo_swarm_env (CommandInput (ServiceSendRequest [0, 9] demo_call [] 7))
     (demo_identified\<lparr>sa_pq_identities := [([0, 9], demo_identity)]\<rparr>)
   = (demo_identified\<lparr>sa_pq_identities := [([0, 9], demo_identity)],
        sa_pending_outbound_pq := [(3, \<lparr>oq_resp = 7, oq_out = demo_outbound, oq_wire_len = 0\<rparr>)]\<rparr>,
      [SendPq 3 [0, 9] (demo_envelope_for (encode_request demo_call)) []])"
proof -
  have "seal_request (en_lib demo_swarm_env) (en_rng demo_swarm_env) demo_pq_keys demo_identity (encode_request demo_call)
      (pq_identity_enabled (en_config demo_swarm_env)) [9] = Ok demo_outbound"
    using demo_seal_request [of "encode_request demo_call"] by (simp add: demo_outbound_def demo_actor_defs)
  then show ?thesis
    using client_sends [of "demo_identified\<lparr>sa_pq_identities := [([0, 9], demo_identity)]\<rparr>" demo_pq_keys
        "[0, 9]" demo_identity demo_swarm_env demo_call 0 demo_outbound 0 "[]" 7]
    by (simp add: demo_identified_def actor_new_def) (simp add: demo_actor_defs demo_outbound_def)
qed

lemma demo_step4:
  "swarm_step (demo_swarm_env\<lparr>en_out := 4\<rparr>) (SwarmInput (SwServiceReq (RrRequest [0, 5] 2 demo_call 44))) a
   = (a, [RespondPlain 44 (refusal ''PQ required'')])"
  by (simp add: demo_actor_defs)

lemma demo_swarm_run_valid:
  "valid_run (swarm_promises demo_pq) run_swarm demo_swarm_run (run_start demo_pq_config demo_swarm [9] (Some demo_pq_keys))"
  by (simp add: demo_swarm_run_def run_start_def run_swarm_def swarm_promises_def demo_step1 demo_step2 demo_step3 demo_step4
      del: swarm_step.simps)
    (simp add: ids_fresh_def demo_identified_def actor_new_def, simp add: demo_swarm_env_def)

definition demo_effects :: "effect list" where
  "demo_effects = [SendIdentityRequest 3 [0, 9], Notify (NeIdentify (IdentifyReceived [0, 9] demo_peer_info)),
     SendPq 3 [0, 9] (demo_envelope_for (encode_request demo_call)) [], RespondPlain 44 (refusal ''PQ required'')]"

lemma demo_swarm_run_result:
  "fold run_swarm demo_swarm_run (run_start demo_pq_config demo_swarm [9] (Some demo_pq_keys))
   = (demo_identified\<lparr>sa_pq_identities := [([0, 9], demo_identity)],
        sa_pending_outbound_pq := [(3, \<lparr>oq_resp = 7, oq_out = demo_outbound, oq_wire_len = 0\<rparr>)]\<rparr>,
      {#7#}, {#44#}, demo_effects)"
  by (simp add: demo_swarm_run_def run_start_def run_swarm_def demo_step1 demo_step2 demo_step3 demo_step4 demo_effects_def
      del: swarm_step.simps)

theorem commands_answered_once_witness:
  "{#7#} = replies_in demo_effects + waiting (demo_identified\<lparr>sa_pq_identities := [([0, 9], demo_identity)],
     sa_pending_outbound_pq := [(3, \<lparr>oq_resp = 7, oq_out = demo_outbound, oq_wire_len = 0\<rparr>)]\<rparr>)"
  using commands_answered_once [OF demo_swarm_run_valid demo_swarm_run_result] by blast

theorem response_channels_used_once_witness: "responded_in demo_effects = {#44#} \<and> responded_in demo_effects \<subseteq># {#44#}"
  using response_channels_used_once [OF demo_swarm_run_valid demo_swarm_run_result]
  by (simp add: demo_effects_def)

theorem envelopes_sealed_to_verified_witness:
  "\<exists>i rng keys pt sign kp out. pq_verify demo_pq i [0, 9] = Ok ()
     \<and> seal_request demo_pq rng keys i pt sign kp = Ok out \<and> demo_envelope_for (encode_request demo_call) = po_request out"
  by (rule envelopes_sealed_to_verified [OF demo_swarm_run_valid demo_swarm_run_result, of 3 _ _ "[]"])
    (simp add: demo_effects_def)

theorem pq_required_no_plaintext_witness:
  "pq_required (en_config demo_swarm_env) \<and> SendPlain 3 [0, 9] demo_call [] \<noteq> SendPq 3 [0, 9] (demo_envelope_for (encode_request demo_call)) []"
  using pq_required_no_plaintext [of demo_swarm_env "SendPq 3 [0, 9] (demo_envelope_for (encode_request demo_call)) []"
      "CommandInput (ServiceSendRequest [0, 9] demo_call [] 7)" "demo_identified\<lparr>sa_pq_identities := [([0, 9], demo_identity)]\<rparr>"]
    demo_step3 by (simp add: demo_actor_defs)

definition demo_actor :: swarm_actor where
  "demo_actor = actor_new demo_pq_config demo_swarm [9] (Some demo_pq_keys)"

definition demo_record :: "u8 \<Rightarrow> peer_record" where
  "demo_record b = \<lparr>pr_peer = None, pr_value = [b]\<rparr>"

definition demo_query_run :: "(actor_env \<times> actor_input) list" where
  "demo_query_run =
     [(demo_swarm_env\<lparr>en_query := 2\<rparr>, SwarmInput (SwKad (QueryProgressed 6 (GetRecordResult (FoundRecord (demo_record 1)))))),
      (demo_swarm_env\<lparr>en_query := 2\<rparr>, CommandInput (KadGetProviders ''k'' 9)),
      (demo_swarm_env\<lparr>en_query := 3\<rparr>, SwarmInput (SwKad (QueryProgressed 6 (GetRecordResult (FoundRecord (demo_record 2))))))]"

theorem record_query_returns_all_witness:
  "snd (swarm_step demo_swarm_env (SwarmInput (SwKad (QueryProgressed 6 (GetRecordResult (RecordFailed ''timeout'')))))
      (actor_steps demo_query_run (fst (cmd_get_record_all (demo_swarm_env\<lparr>en_query := 6\<rparr>) ''k'' 8 demo_actor))))
     = [ReplyRecords 8 (Ok [demo_record 1, demo_record 2])]"
proof -
  have "fresh_run demo_query_run (fst (cmd_get_record_all (demo_swarm_env\<lparr>en_query := 6\<rparr>) ''k'' 8 demo_actor))"
    by (simp add: demo_query_run_def cmd_get_record_all_def cmd_get_providers_def with_kad_def add_query_def
        demo_actor_def actor_new_def ids_fresh_def on_get_record_def Let_def)
      (simp add: demo_swarm_env_def demo_swarm_def)
  then show ?thesis
    using record_query_returns_all [of demo_actor demo_query_run "demo_swarm_env\<lparr>en_query := 6\<rparr>" "''k''" 8
        "RecordFailed ''timeout''" demo_swarm_env]
    by (simp add: demo_actor_def actor_new_def only_batches_def)
      (simp add: demo_query_run_def demo_swarm_def)
qed

definition demo_provider_run :: "(actor_env \<times> actor_input) list" where
  "demo_provider_run =
     [(demo_swarm_env\<lparr>en_query := 2\<rparr>, SwarmInput (SwKad (QueryProgressed 6 (GetProvidersResult (FoundProviders [[1], [2]]))))),
      (demo_swarm_env\<lparr>en_query := 2\<rparr>, SwarmInput (SwKad (QueryProgressed 6 (GetProvidersResult (FoundProviders [[2], [3]])))))]"

theorem provider_query_returns_all_witness:
  "\<exists>ps. snd (swarm_step demo_swarm_env (SwarmInput (SwKad (QueryProgressed 6 (GetProvidersResult ProvidersFinished))))
      (actor_steps demo_provider_run (fst (cmd_get_providers (demo_swarm_env\<lparr>en_query := 6\<rparr>) ''k'' 8 demo_actor))))
     = [ReplyProviders 8 (Ok ps)] \<and> distinct ps \<and> set ps = {[1], [2], [3]}"
proof -
  have "fresh_run demo_provider_run (fst (cmd_get_providers (demo_swarm_env\<lparr>en_query := 6\<rparr>) ''k'' 8 demo_actor))"
    by (simp add: demo_provider_run_def cmd_get_providers_def with_kad_def add_query_def
        demo_actor_def actor_new_def ids_fresh_def on_get_providers_def Let_def)
      (simp add: demo_swarm_env_def demo_swarm_def)
  then show ?thesis
    using provider_query_returns_all [of demo_actor demo_provider_run "demo_swarm_env\<lparr>en_query := 6\<rparr>" "''k''" 8
        demo_swarm_env]
    by (simp add: demo_actor_def actor_new_def only_batches_def)
      (simp add: demo_provider_run_def demo_swarm_def insert_commute)
qed

definition demo_busy :: swarm_actor where
  "demo_busy = demo_actor\<lparr>sa_pending_kad := [(6, PendPutRecord ''k'' 8)],
     sa_pending_inbound := [(''u'', \<lparr>ie_connection_id = 1, ie_peer = [0, 5], ie_pending = InPlain 44\<rparr>)]\<rparr>"

theorem reload_answers_everything_witness:
  "ReplyUnit 8 (Err NetReloaded) \<in> set (snd (fst (handle_command demo_swarm_env (Reload 7) demo_busy)))
   \<and> RespondPlain 44 reload_rejection_response \<in> set (snd (fst (handle_command demo_swarm_env (Reload 7) demo_busy)))
   \<and> waiting (fst (fst (handle_command demo_swarm_env (Reload 7) demo_busy))) = {#}"
proof -
  have "en_build demo_swarm_env = Ok demo_swarm" by (simp add: demo_swarm_env_def)
  with reload_answers_everything [of demo_swarm_env 7 demo_busy] show ?thesis
    by (simp add: case_prod_unfold Let_def demo_busy_def fail_kad_def del: handle_command.simps)
qed


theorem bootstrap_notices_spaced_witness:
  "sorted_wrt (\<lambda>s t. s + from_secs 30 \<le> t)
     (snd (fold run_notices
        [(demo_swarm_env, SwarmInput (SwKad (QueryProgressed 6 (BootstrapResult (Ok ()))))),
         (demo_swarm_env\<lparr>en_now := from_secs 70\<rparr>, SwarmInput (SwKad (QueryProgressed 6 (BootstrapResult (Ok ()))))),
         (demo_swarm_env\<lparr>en_now := from_secs 90\<rparr>, SwarmInput (SwKad (QueryProgressed 6 (BootstrapResult (Ok ())))))]
        (actor_new demo_pq_config demo_swarm [9] (Some demo_pq_keys), [])))
   \<and> snd (fold run_notices
        [(demo_swarm_env, SwarmInput (SwKad (QueryProgressed 6 (BootstrapResult (Ok ()))))),
         (demo_swarm_env\<lparr>en_now := from_secs 70\<rparr>, SwarmInput (SwKad (QueryProgressed 6 (BootstrapResult (Ok ()))))),
         (demo_swarm_env\<lparr>en_now := from_secs 90\<rparr>, SwarmInput (SwKad (QueryProgressed 6 (BootstrapResult (Ok ())))))]
        (actor_new demo_pq_config demo_swarm [9] (Some demo_pq_keys), [])) = [from_secs 60, from_secs 90]"
  using bootstrap_notices_spaced [OF surjective_pairing]
  by (auto simp: run_notices_def on_bootstrap_def actor_new_def Let_def BOOTSTRAP_NOTICE_INTERVAL_def demo_swarm_env_def
      from_secs_def)

end
