(* ===== verification/NN_Command.thy ===== *)
theory NN_Command
  imports NN_Actor
begin

text \<open>
  The control commands that run in a worker of their own (\<open>src/src/controller/command.rs\<close>),
  and the values, checks and messages they share with the commands that run in the controller.

  A worker is a function of the answers it gets: \<open>dht_answers\<close> holds what each call of the swarm
  handle and each read through a cache returns. It yields its result and the list of its calls in
  order. \<open>cbor_value\<close> is what a result is serialized from; the encoder \<open>to_cbor\<close> is a parameter.

  The lemmas show that a command writes only to the two open namespaces and within the size limit, that
  a service request never goes to this node itself and prefers the fastest provider, that it ends after
  two rounds, and how its longest run compares with the time the dispatcher grants it.
\<close>

section \<open>Values and checks\<close>

datatype cbor_value =
    CText string
  | CNat nat
  | CBool bool
  | CNull
  | CArray "cbor_value list"
  | CMap "(string \<times> cbor_value) list"

definition response_payload :: "service_response \<Rightarrow> (bytes, string) result" where
  "response_payload resp =
     (if sr_success resp then Ok (sr_data resp)
      else if sr_data resp = [] then Err ''remote service failed''
      else Err (from_utf8_lossy (sr_data resp)))"

definition is_writable_key :: "string \<Rightarrow> bool" where
  "is_writable_key key \<longleftrightarrow>
     key \<noteq> ''/oahd/service/types'' \<and> key \<noteq> ''/oahd/bootstrap''
     \<and> (prefix ''/oahd/auth/'' key \<or> prefix ''/oahd/service/'' key)"

fun command_name :: "message \<Rightarrow> string" where
  "command_name (Hello _) = ''hello''"
| "command_name (Request _ _ _) = ''request''"
| "command_name (Reply _ _ _ _) = ''reply''"
| "command_name (ListServices _) = ''list_services''"
| "command_name (DiscoverProviders _ _) = ''discover_providers''"
| "command_name (QueryPublicIp _) = ''query_public_ip''"
| "command_name (Whoami _) = ''whoami''"
| "command_name (ReconnectBootstrap _) = ''reconnect_bootstrap''"
| "command_name (ReannounceServices _) = ''reannounce_services''"
| "command_name (ReloadConfig _) = ''reload_config''"
| "command_name (RefreshCache _) = ''refresh_cache''"
| "command_name (RelayStatus _) = ''relay_status''"
| "command_name (PqStatus _) = ''pq_status''"
| "command_name (AuthStatus _) = ''auth_status''"
| "command_name (QueryKey _ _) = ''query_key''"
| "command_name (AddKey _ _ _ _) = ''add_key''"
| "command_name (RemoveKey _ _ _ _) = ''remove_key''"
| "command_name (ServiceRequest _ _ _) = ''service_request''"
| "command_name (ServiceRequestTo _ _ _ _) = ''service_request_to''"

fun can_run_in_dht_worker :: "message \<Rightarrow> bool" where
  "can_run_in_dht_worker (QueryKey _ _) = True"
| "can_run_in_dht_worker (DiscoverProviders _ _) = True"
| "can_run_in_dht_worker (ServiceRequest _ _ _) = True"
| "can_run_in_dht_worker (ServiceRequestTo _ _ _ _) = True"
| "can_run_in_dht_worker (AddKey _ _ _ providing) = (\<not> providing)"
| "can_run_in_dht_worker _ = False"

definition quorum_for_key :: "string \<Rightarrow> quorum" where
  "quorum_for_key key = QuorumOne"

definition check_compat_record_size :: "nat \<Rightarrow> u64 \<Rightarrow> (unit, string) result" where
  "check_compat_record_size len max_bytes =
     (if len > unat max_bytes
      then Err (''record exceeds compat.max_record_bytes ('' @ dec (unat max_bytes)
             @ '' bytes); raise it after all nodes support larger packets'')
      else Ok ())"

definition provider_strings :: "(peer_id \<Rightarrow> string) \<Rightarrow> peer_id list \<Rightarrow> cbor_value" where
  "provider_strings show_peer providers = CArray (map (\<lambda>p. CText (show_peer p)) providers)"

definition provider_addresses :: "peer_info list \<Rightarrow> peer_id \<Rightarrow> multiaddr list" where
  "provider_addresses peers peer =
     (case find (\<lambda>info. pf_peer_id info = peer) peers of None \<Rightarrow> [] | Some info \<Rightarrow> pf_addrs info)"

definition reachability_label :: "bool \<Rightarrow> nat \<Rightarrow> string" where
  "reachability_label has_public active_relays =
     (if has_public then ''public'' else if active_relays > 0 then ''relay'' else ''none'')"

text \<open>\<open>QueryKeyResult\<close>: an absent value and an empty list of providers are left out; the value is a
  sequence of numbers.\<close>

definition query_key_result :: "(peer_id \<Rightarrow> string) \<Rightarrow> string \<Rightarrow> bytes option \<Rightarrow> peer_id list \<Rightarrow> cbor_value" where
  "query_key_result show_peer key val providers =
     CMap ([(''key'', CText key)]
       @ (case val of None \<Rightarrow> [] | Some bs \<Rightarrow> [(''value'', CArray (map (\<lambda>b. CNat (unat b)) bs))])
       @ (if providers = [] then [] else [(''providers'', provider_strings show_peer providers)]))"

text \<open>An object of \<open>serde_json::json!\<close> keeps its members in the order of their names.\<close>

definition json_object :: "(string \<times> cbor_value) list \<Rightarrow> cbor_value" where
  "json_object members = CMap (sort_key fst members)"

definition ack :: "string \<Rightarrow> cbor_value" where
  "ack key = json_object [(''success'', CBool True), (''key'', CText key)]"

section \<open>The worker\<close>

datatype dht_call =
    ReadProviders string
  | ReadRecord string
  | InvalidateProviders string
  | InvalidateRecord string
  | InvalidateAuth
  | SendTo peer_id service_request "multiaddr list"
  | FindPeer peer_id
  | PutValue string bytes quorum
  | StartProviding string
  | StopProviding string
  | RemoveValue string

text \<open>The \<open>n\<close>-th round of a service request reads the providers, sends up to two requests and may
  resolve the addresses of the provider once.\<close>

record dht_answers =
  an_provider_read :: "nat \<Rightarrow> (peer_id list cache_read, cache_error) result"
  an_record_read :: "(bytes cache_read, cache_error) result"
  an_send :: "nat \<Rightarrow> (service_response, network_error) result"
  an_send_addrs :: "nat \<Rightarrow> (service_response, network_error) result"
  an_closest :: "nat \<Rightarrow> (peer_info list, network_error) result"
  an_put :: "(unit, network_error) result"

definition fetch_providers :: "dht_answers \<Rightarrow> nat \<Rightarrow> (peer_id list, string) result" where
  "fetch_providers ans n =
     map_err show_cache_error
       (map_ok (\<lambda>read. case cr_value read of None \<Rightarrow> [] | Some ps \<Rightarrow> ps) (an_provider_read ans n))"

definition fetch_record :: "dht_answers \<Rightarrow> (bytes option, string) result" where
  "fetch_record ans = map_err show_cache_error (map_ok cr_value (an_record_read ans))"

definition send_request_resolved ::
    "dht_answers \<Rightarrow> nat \<Rightarrow> peer_id \<Rightarrow> service_request \<Rightarrow> (service_response, string) result \<times> dht_call list" where
  "send_request_resolved ans n peer request =
     (case an_send ans n of
        Ok response \<Rightarrow> (Ok response, [SendTo peer request []])
      | Err first \<Rightarrow>
          (let addrs = (case an_closest ans n of Ok peers \<Rightarrow> provider_addresses peers peer | Err _ \<Rightarrow> []) in
           if addrs = [] then (Err (show_network_error first), [SendTo peer request [], FindPeer peer])
           else (map_err show_network_error (an_send_addrs ans n),
                 [SendTo peer request [], FindPeer peer, SendTo peer request addrs])))"

definition select_provider :: "peer_tracker \<Rightarrow> peer_id list \<Rightarrow> peer_id" where
  "select_provider peers others =
     (case best_peer others peers of Some p \<Rightarrow> p | None \<Rightarrow> hd others)"

fun request_rounds ::
    "dht_answers \<Rightarrow> peer_tracker \<Rightarrow> peer_id \<Rightarrow> string \<Rightarrow> service_request \<Rightarrow> nat list \<Rightarrow> string option
       \<Rightarrow> (bytes, string) result \<times> dht_call list" where
  "request_rounds ans peers me key request [] last_error =
     (Err (case last_error of Some e \<Rightarrow> e | None \<Rightarrow> ''service request failed''), [])"
| "request_rounds ans peers me key request (n # rest) last_error =
     (case fetch_providers ans n of
        Err error \<Rightarrow>
          if n = 0 then
            (let (r, calls) = request_rounds ans peers me key request rest (Some error)
             in (r, [ReadProviders key, InvalidateProviders key] @ calls))
          else (Err error, [ReadProviders key, InvalidateProviders key])
      | Ok providers \<Rightarrow>
          (let others = filter (\<lambda>peer. peer \<noteq> me) providers in
           if others = [] then (Err ''No remote provider found'', [ReadProviders key])
           else
             (case send_request_resolved ans n (select_provider peers others) request of
                (Ok response, calls) \<Rightarrow> (response_payload response, ReadProviders key # calls)
              | (Err error, calls) \<Rightarrow>
                  (let (r, more') = request_rounds ans peers me key request rest (Some error)
                   in (r, ReadProviders key # calls
                          @ (if n = 0 then [InvalidateProviders key] else []) @ more')))))"

definition request_service ::
    "dht_answers \<Rightarrow> peer_tracker \<Rightarrow> peer_id \<Rightarrow> string \<Rightarrow> service_request \<Rightarrow> (bytes, string) result \<times> dht_call list" where
  "request_service ans peers me key request = request_rounds ans peers me key request [0, 1] None"

definition service_record_key :: "string \<Rightarrow> string" where
  "service_record_key service = ''/oahd/service/'' @ service"

definition add_key_check :: "string \<Rightarrow> (unit, string) result" where
  "add_key_check key =
     (if key = [] then Err ''missing 'key' field''
      else if \<not> is_writable_key key then Err ''key namespace not allowed'' else Ok ())"

definition query_key ::
    "(cbor_value \<Rightarrow> bytes) \<Rightarrow> (peer_id \<Rightarrow> string) \<Rightarrow> dht_answers \<Rightarrow> string \<Rightarrow> (bytes, string) result \<times> dht_call list" where
  "query_key to_cbor show_peer ans key =
     (if key = [] then (Err ''missing key'', [])
      else case fetch_record ans of
        Err e \<Rightarrow> (Err e, [ReadRecord key])
      | Ok val \<Rightarrow>
          (let providers = (case fetch_providers ans 0 of Ok ps \<Rightarrow> ps | Err _ \<Rightarrow> []) in
           (if val = None \<and> providers = [] then Err ''key not found''
            else Ok (to_cbor (query_key_result show_peer key val providers)),
            [ReadRecord key, ReadProviders key])))"

definition worker_add_key ::
    "(cbor_value \<Rightarrow> bytes) \<Rightarrow> dht_answers \<Rightarrow> u64 \<Rightarrow> string \<Rightarrow> bytes option \<Rightarrow> bool
       \<Rightarrow> (bytes, string) result \<times> dht_call list" where
  "worker_add_key to_cbor ans max_record_bytes key val providing =
     (if providing then (Err ''async add_key does not support providing'', [])
      else case add_key_check key of
        Err e \<Rightarrow> (Err e, [])
      | Ok _ \<Rightarrow>
          (case val of
             None \<Rightarrow> (Err ''at least one of 'value' or 'providing' is required'', [])
           | Some bs \<Rightarrow>
               (case check_compat_record_size (length bs) max_record_bytes of
                  Err e \<Rightarrow> (Err e, [])
                | Ok _ \<Rightarrow>
                    (case an_put ans of
                       Err e \<Rightarrow> (Err (''put_record failed: '' @ show_network_error e), [PutValue key bs (quorum_for_key key)])
                     | Ok _ \<Rightarrow>
                         (Ok (to_cbor (ack key)),
                          [PutValue key bs (quorum_for_key key), InvalidateRecord key]
                          @ (if prefix ''/oahd/auth/'' key then [InvalidateAuth] else []))))))"

text \<open>\<open>parse_peer\<close> is \<open>str::parse::<PeerId>\<close>.\<close>

fun run_dht_command ::
    "(cbor_value \<Rightarrow> bytes) \<Rightarrow> (peer_id \<Rightarrow> string) \<Rightarrow> (string \<Rightarrow> (peer_id, string) result) \<Rightarrow> dht_answers
       \<Rightarrow> peer_tracker \<Rightarrow> peer_id \<Rightarrow> u64 \<Rightarrow> message \<Rightarrow> (bytes, string) result \<times> dht_call list" where
  "run_dht_command to_cbor show_peer parse_peer ans peers me limit (DiscoverProviders id' service) =
     (map_ok (\<lambda>ps. to_cbor (provider_strings show_peer ps)) (fetch_providers ans 0),
      [ReadProviders (service_record_key service)])"
| "run_dht_command to_cbor show_peer parse_peer ans peers me limit (QueryKey id' key) =
     query_key to_cbor show_peer ans key"
| "run_dht_command to_cbor show_peer parse_peer ans peers me limit (ServiceRequest id' service payload) =
     request_service ans peers me (service_record_key service) \<lparr>sq_service = service, sq_payload = payload\<rparr>"
| "run_dht_command to_cbor show_peer parse_peer ans peers me limit (ServiceRequestTo id' service peer payload) =
     (case parse_peer peer of
        Err e \<Rightarrow> (Err (''invalid peer id: '' @ e), [])
      | Ok peer_id \<Rightarrow>
          (case send_request_resolved ans 0 peer_id \<lparr>sq_service = service, sq_payload = payload\<rparr> of
             (Ok response, calls) \<Rightarrow> (response_payload response, calls)
           | (Err e, calls) \<Rightarrow> (Err e, calls)))"
| "run_dht_command to_cbor show_peer parse_peer ans peers me limit (AddKey id' key val providing) =
     worker_add_key to_cbor ans limit key val providing"
| "run_dht_command to_cbor show_peer parse_peer ans peers me limit msg =
     (Err ''command not supported by DHT worker'', [])"

section \<open>Service requests\<close>

text \<open>\<open>call_limit kad\<close> is the longest time a call may take: a query of the DHT ends after \<open>kad\<close>, a request
  after \<open>REQUEST_TIMEOUT\<close>.\<close>

fun call_limit :: "duration \<Rightarrow> dht_call \<Rightarrow> duration" where
  "call_limit kad (ReadProviders key) = kad"
| "call_limit kad (ReadRecord key) = kad"
| "call_limit kad (FindPeer peer) = kad"
| "call_limit kad (SendTo peer request addrs) = REQUEST_TIMEOUT"
| "call_limit kad (PutValue key val quorum) = kad"
| "call_limit kad c = 0"

definition longest_run :: "duration \<Rightarrow> dht_call list \<Rightarrow> duration" where
  "longest_run kad calls = sum_list (map (call_limit kad) calls)"

fun is_send :: "dht_call \<Rightarrow> bool" where
  "is_send (SendTo peer request addrs) = True"
| "is_send c = False"

fun is_lookup :: "dht_call \<Rightarrow> bool" where
  "is_lookup (ReadProviders key) = True"
| "is_lookup c = False"

lemma longest_run_simps [simp]:
  "longest_run kad [] = 0" "longest_run kad (c # cs) = call_limit kad c + longest_run kad cs"
  "longest_run kad (xs @ ys) = longest_run kad xs + longest_run kad ys"
  by (simp_all add: longest_run_def)

lemma send_request_resolved_calls:
  assumes "send_request_resolved ans n peer request = (r, calls)"
  shows "longest_run kad calls \<le> kad + 2 * REQUEST_TIMEOUT" and "length (filter is_send calls) \<le> 2"
    and "filter is_lookup calls = []" and "SendTo p q addrs \<in> set calls \<Longrightarrow> p = peer \<and> q = request"
  using assms by (auto simp: send_request_resolved_def Let_def split: result.splits if_splits)

lemma min_by_key_least:
  assumes "min_by_key key xs = Some m"
  shows "m \<in> set xs" and "x \<in> set xs \<Longrightarrow> key m \<le> key x"
  using min_by_key_Some [OF assms] by (auto simp: less_imp_le)

lemma select_provider_in: "others \<noteq> [] \<Longrightarrow> select_provider peers others \<in> set others"
proof -
  assume "others \<noteq> []"
  have "p \<in> set others" if "best_peer others peers = Some p" for p
    using that by (auto simp: best_peer_def List.map_filter_def dest!: min_by_key_least(1))
  with \<open>others \<noteq> []\<close> show ?thesis by (auto simp: select_provider_def split: option.split)
qed

text \<open>A round costs at most two queries and two requests.\<close>

lemma request_rounds_calls:
  "request_rounds ans peers me key request rounds e = (r, calls) \<Longrightarrow>
     longest_run kad calls \<le> length rounds * (2 * kad + 2 * REQUEST_TIMEOUT)
     \<and> length (filter is_send calls) \<le> 2 * length rounds \<and> length (filter is_lookup calls) \<le> length rounds"
proof (induction rounds arbitrary: e r calls)
  case (Cons n rounds)
  show ?case
  proof (cases "fetch_providers ans n")
    case (Err error)
    obtain r' calls' where rest: "request_rounds ans peers me key request rounds (Some error) = (r', calls')" by fastforce
    from Cons.prems Err rest Cons.IH [OF rest] show ?thesis by (auto split: if_splits)
  next
    case (Ok providers)
    let ?cs = "filter (\<lambda>peer. peer \<noteq> me) providers"
    obtain s sent where sent: "send_request_resolved ans n (select_provider peers ?cs) request = (s, sent)" by fastforce
    note sent_bounds = send_request_resolved_calls [OF sent]
    show ?thesis
    proof (cases "?cs = []")
      case True
      with Cons.prems Ok show ?thesis by auto
    next
      case False
      show ?thesis
      proof (cases s)
        case (Ok response)
        with Cons.prems \<open>fetch_providers ans n = _\<close> False sent sent_bounds(1) [of kad] sent_bounds(2,3)
        show ?thesis by (auto simp: Let_def)
      next
        case (Err error)
        obtain r' calls' where rest: "request_rounds ans peers me key request rounds (Some error) = (r', calls')" by fastforce
        from Cons.prems \<open>fetch_providers ans n = _\<close> False sent Err rest Cons.IH [OF rest] sent_bounds(1) [of kad] sent_bounds(2,3)
        show ?thesis by (auto simp: Let_def)
      qed
    qed
  qed
qed auto

text \<open>A service request always ends: after at most two rounds it has looked up the providers at most
  twice and sent at most four requests, and it took at most four queries and four requests of time
  (C29).\<close>
theorem service_request_terminates:
  assumes "request_service ans peers me key request = (r, calls)"
  shows "length (filter is_lookup calls) \<le> 2 \<and> length (filter is_send calls) \<le> 4
     \<and> longest_run kad calls \<le> 4 * kad + 4 * REQUEST_TIMEOUT"
  using request_rounds_calls [of ans peers me key request "[0, 1]" None r calls kad] assms
  by (auto simp: request_service_def simp del: request_rounds.simps)

lemma request_rounds_targets:
  "request_rounds ans peers me key request rounds e = (r, calls) \<Longrightarrow> SendTo p q addrs \<in> set calls \<Longrightarrow>
     q = request \<and> p \<noteq> me \<and> (\<exists>n ps. fetch_providers ans n = Ok ps \<and> p \<in> set ps
       \<and> select_provider peers (filter (\<lambda>peer. peer \<noteq> me) ps) = p)"
proof (induction rounds arbitrary: e r calls)
  case (Cons n rounds)
  have later: ?case if "SendTo p q addrs \<in> set (snd (request_rounds ans peers me key request rounds e'))" for e'
    using Cons.IH [OF prod.collapse [symmetric] that] .
  show ?case
  proof (cases "fetch_providers ans n")
    case (Err error)
    with Cons.prems have "SendTo p q addrs \<in> set (snd (request_rounds ans peers me key request rounds (Some error)))"
      by (auto simp: case_prod_unfold Let_def split: if_splits)
    then show ?thesis by (rule later)
  next
    case (Ok providers)
    let ?cs = "filter (\<lambda>peer. peer \<noteq> me) providers"
    obtain s sent where sent: "send_request_resolved ans n (select_provider peers ?cs) request = (s, sent)" by fastforce
    from Cons.prems Ok have cs: "?cs \<noteq> []" by (cases "?cs = []") auto
    from Cons.prems Ok cs sent
    have "SendTo p q addrs \<in> set sent
        \<or> (\<exists>error. SendTo p q addrs \<in> set (snd (request_rounds ans peers me key request rounds (Some error))))"
      by (cases s) (auto simp: Let_def case_prod_unfold split: if_splits)
    then show ?thesis
    proof
      assume "SendTo p q addrs \<in> set sent"
      from send_request_resolved_calls(4) [OF sent this]
      have target: "p = select_provider peers ?cs" and "q = request" by blast+
      from select_provider_in [OF cs, of peers] have "p \<in> set ?cs" unfolding target .
      then have "p \<noteq> me" "p \<in> set providers" by simp_all
      with \<open>q = request\<close> Ok target [symmetric] show ?thesis by blast
    next
      assume "\<exists>error. SendTo p q addrs \<in> set (snd (request_rounds ans peers me key request rounds (Some error)))"
      then obtain error where "SendTo p q addrs \<in> set (snd (request_rounds ans peers me key request rounds (Some error)))" ..
      then show ?thesis by (rule later)
    qed
  qed
qed simp

lemma select_provider_fastest:
  assumes "p \<in> set others" and "pt_rtts peers p = Some rtt"
  shows "\<exists>best. pt_rtts peers (select_provider peers others) = Some best \<and> best \<le> rtt"
proof -
  define timed where "timed = List.map_filter (\<lambda>p. map_option (\<lambda>rtt. (p, rtt)) (pt_rtts peers p)) others"
  have in_timed: "(p, rtt) \<in> set timed" unfolding timed_def set_map_filter using assms by auto
  then have "timed \<noteq> []" by auto
  then obtain m where m: "min_by_key snd timed = Some m" by (cases "min_by_key snd timed") simp_all
  have "pt_rtts peers (fst m) = Some (snd m)"
    using min_by_key_least(1) [OF m] unfolding timed_def set_map_filter by auto
  moreover have "select_provider peers others = fst m"
    using m by (simp add: select_provider_def best_peer_def timed_def)
  ultimately show ?thesis using min_by_key_least(2) [OF m in_timed] by simp
qed

text \<open>Every request a service call sends goes to another node that provides the service, and that node
  answers pings no slower than any other provider of the round whose round-trip time is known.\<close>
theorem service_request_targets:
  assumes "request_service ans peers me key request = (r, calls)" and "SendTo p q addrs \<in> set calls"
  shows "q = request \<and> p \<noteq> me \<and> (\<exists>n ps. fetch_providers ans n = Ok ps \<and> p \<in> set ps
     \<and> (\<forall>p' rtt. p' \<in> set ps \<and> p' \<noteq> me \<and> pt_rtts peers p' = Some rtt
          \<longrightarrow> (\<exists>best. pt_rtts peers p = Some best \<and> best \<le> rtt)))"
proof -
  from request_rounds_targets [OF assms(1) [unfolded request_service_def] assms(2)]
  obtain n ps where "q = request" "p \<noteq> me" "fetch_providers ans n = Ok ps" "p \<in> set ps"
    "select_provider peers (filter (\<lambda>peer. peer \<noteq> me) ps) = p" by blast
  moreover have "\<exists>best. pt_rtts peers p = Some best \<and> best \<le> rtt"
    if "p' \<in> set ps" "p' \<noteq> me" "pt_rtts peers p' = Some rtt" for p' rtt
    using select_provider_fastest [of p' "filter (\<lambda>peer. peer \<noteq> me) ps" peers rtt] that calculation(5) by simp
  ultimately show ?thesis by blast
qed

text \<open>The dispatcher grants a service request one query and two requests of time. A request whose
  first provider does not answer takes longer: there are answers, each within its own limit, for which
  the worker is still at work when the dispatcher has given the caller a timeout (C30).\<close>
theorem service_request_outlives_budget:
  assumes "base \<le> kad + 2 * REQUEST_TIMEOUT"
  shows "\<exists>ans r calls. request_service ans peers me key request = (r, calls)
     \<and> longest_run kad calls = 4 * kad + 4 * REQUEST_TIMEOUT
     \<and> command_timeout (ServiceRequest id' service payload) base kad < longest_run kad calls"
proof -
  define peer where "peer = (0 # me :: peer_id)"
  let ?silent = "NetRequest ''timeout''"
  define ans where "ans = \<lparr>an_provider_read = (\<lambda>_. Ok \<lparr>cr_value = Some [peer], cr_last_error = None\<rparr>),
     an_record_read = Ok \<lparr>cr_value = None, cr_last_error = None\<rparr>, an_send = (\<lambda>_. Err ?silent),
     an_send_addrs = (\<lambda>_. Err ?silent), an_closest = (\<lambda>_. Ok [\<lparr>pf_peer_id = peer, pf_addrs = [[]]\<rparr>]), an_put = Ok ()\<rparr>"
  have sel: "select_provider peers [peer] = peer" using select_provider_in [of "[peer]" peers] by simp
  have "peer \<noteq> me" by (simp add: peer_def)
  then have run: "request_service ans peers me key request = (Err (show_network_error ?silent),
     [ReadProviders key, SendTo peer request [], FindPeer peer, SendTo peer request [[]], InvalidateProviders key,
      ReadProviders key, SendTo peer request [], FindPeer peer, SendTo peer request [[]]])"
    by (simp add: request_service_def ans_def fetch_providers_def send_request_resolved_def provider_addresses_def sel Let_def)
  have "command_timeout (ServiceRequest id' service payload) base kad < 4 * kad + 4 * REQUEST_TIMEOUT"
    using assms by (simp add: command_timeout_def REQUEST_TIMEOUT_def from_secs_def)
  with run show ?thesis by (intro exI [of _ ans]) simp
qed

section \<open>Writes\<close>

text \<open>A worker puts a record only under an open key and within the limit, and then drops what the
  caches hold of it.\<close>

fun is_write :: "dht_call \<Rightarrow> bool" where
  "is_write (PutValue key bs quorum) = True"
| "is_write (StartProviding key) = True"
| "is_write (StopProviding key) = True"
| "is_write (RemoveValue key) = True"
| "is_write c = False"

lemma send_request_resolved_no_write: "list_all (\<lambda>c. \<not> is_write c) (snd (send_request_resolved ans n peer request))"
  by (simp add: send_request_resolved_def Let_def split: result.split)

lemma request_rounds_no_write: "list_all (\<lambda>c. \<not> is_write c) (snd (request_rounds ans peers me k request ns e))"
proof (induction ns arbitrary: e)
  case (Cons n ns)
  show ?case
  proof (cases "fetch_providers ans n")
    case (Err error)
    with Cons.IH [of "Some error"] show ?thesis by (simp add: case_prod_unfold Let_def)
  next
    case (Ok providers)
    let ?cs = "filter (\<lambda>peer. peer \<noteq> me) providers"
    obtain s sent where sent: "send_request_resolved ans n (select_provider peers ?cs) request = (s, sent)" by fastforce
    with send_request_resolved_no_write [of ans n "select_provider peers ?cs" request]
    have "list_all (\<lambda>c. \<not> is_write c) sent" by simp
    with Ok sent Cons.IH show ?thesis by (cases s) (simp_all add: case_prod_unfold Let_def)
  qed
qed simp

lemma worker_writes:
  assumes run: "run_dht_command to_cbor show_peer parse_peer ans peers me limit msg = (r, calls)"
    and c: "c \<in> set calls" "is_write c"
  shows "\<exists>key bs. c = PutValue key bs QuorumOne \<and> is_writable_key key \<and> length bs \<le> unat limit
     \<and> (is_ok r \<longrightarrow> calls = [c, InvalidateRecord key] @ (if prefix ''/oahd/auth/'' key then [InvalidateAuth] else []))"
proof (cases msg)
  case (ServiceRequest id' service payload)
  have "list_all (\<lambda>c. \<not> is_write c) calls"
    using request_rounds_no_write run ServiceRequest by (metis request_service_def run_dht_command.simps(3) snd_conv)
  with c show ?thesis by (auto simp: list_all_iff)
next
  case (ServiceRequestTo id' service peer payload)
  show ?thesis
  proof (cases "parse_peer peer")
    case (Ok p)
    let ?q = "\<lparr>sq_service = service, sq_payload = payload\<rparr>"
    from run ServiceRequestTo Ok have "calls = snd (send_request_resolved ans 0 p ?q)"
      by (auto split: prod.splits result.splits)
    with c send_request_resolved_no_write [of ans 0 p ?q] show ?thesis by (auto simp: list_all_iff)
  qed (use run c ServiceRequestTo in simp)
next
  case (AddKey id' k val providing)
  note defs = worker_add_key_def add_key_check_def check_compat_record_size_def quorum_for_key_def
  from run c AddKey obtain bs where "val = Some bs"
    by (auto simp: defs split: result.splits option.splits if_splits)
  with run c AddKey show ?thesis
    by (intro exI [of _ k] exI [of _ bs]) (auto simp: defs split: result.splits if_splits)
qed (use run c in \<open>auto simp: query_key_def Let_def split: result.splits if_splits\<close>)

section \<open>Instances\<close>

text \<open>Node 9 asks for a service of nodes 5, 7 and 9. Node 7 is the fastest; it does not answer at
  first and does so in the second round.\<close>

definition demo_answers :: dht_answers where
  "demo_answers =
     \<lparr>an_provider_read = (\<lambda>_. Ok \<lparr>cr_value = Some [[9], [5], [7]], cr_last_error = None\<rparr>),
      an_record_read = Ok \<lparr>cr_value = None, cr_last_error = None\<rparr>,
      an_send = (\<lambda>n. if n = 0 then Err (NetRequest ''timeout'') else Ok \<lparr>sr_success = True, sr_data = [42]\<rparr>),
      an_send_addrs = (\<lambda>_. Err (NetRequest ''timeout'')), an_closest = (\<lambda>_. Ok []), an_put = Ok ()\<rparr>"

definition demo_tracker :: peer_tracker where
  "demo_tracker = \<lparr>pt_rtts = [[9] \<mapsto> 0, [5] \<mapsto> 30, [7] \<mapsto> 20], pt_failures = Map.empty\<rparr>"

definition demo_service_request :: service_request where
  "demo_service_request = \<lparr>sq_service = ''echo'', sq_payload = [6]\<rparr>"

definition demo_calls :: "dht_call list" where
  "demo_calls =
     [ReadProviders ''/oahd/service/echo'', SendTo [7] demo_service_request [], FindPeer [7],
      InvalidateProviders ''/oahd/service/echo'', ReadProviders ''/oahd/service/echo'',
      SendTo [7] demo_service_request []]"

lemma demo_service_run:
  "request_service demo_answers demo_tracker [9] ''/oahd/service/echo'' demo_service_request = (Ok [42], demo_calls)"
  by (simp add: request_service_def demo_answers_def fetch_providers_def send_request_resolved_def select_provider_def
      best_peer_def demo_tracker_def map_filter_simps provider_addresses_def response_payload_def demo_calls_def Let_def)

theorem service_request_terminates_witness:
  "length (filter is_lookup demo_calls) \<le> 2 \<and> length (filter is_send demo_calls) \<le> 4
     \<and> longest_run (from_secs 60) demo_calls \<le> 4 * from_secs 60 + 4 * REQUEST_TIMEOUT"
  by (rule service_request_terminates [OF demo_service_run])

theorem service_request_targets_witness:
  "SendTo [7] demo_service_request [] \<in> set demo_calls \<and> [7] \<noteq> ([9] :: peer_id)
     \<and> (\<exists>n ps. fetch_providers demo_answers n = Ok ps \<and> [7] \<in> set ps)"
proof -
  have sent: "SendTo [7] demo_service_request [] \<in> set demo_calls" by (simp add: demo_calls_def)
  with service_request_targets [OF demo_service_run sent] show ?thesis by blast
qed

theorem service_request_outlives_budget_witness:
  "from_secs 30 \<le> from_secs 60 + 2 * REQUEST_TIMEOUT
     \<and> (\<exists>ans r calls. request_service ans demo_tracker [9] ''/oahd/service/echo'' demo_service_request = (r, calls)
          \<and> command_timeout (ServiceRequest 0 ''echo'' [6]) (from_secs 30) (from_secs 60)
              < longest_run (from_secs 60) calls)"
proof -
  have base: "from_secs 30 \<le> from_secs 60 + 2 * REQUEST_TIMEOUT" by (simp add: from_secs_def)
  from service_request_outlives_budget [OF base, of demo_tracker "[9]" "''/oahd/service/echo''"
      demo_service_request 0 "''echo''" "[6]"] base
  show ?thesis by blast
qed

end
