(* ===== verification/NN_Registry.thy ===== *)
theory NN_Registry
  imports NN_Auth
begin

text \<open>
  The service registry, \<open>src/src/controller/service_registry.rs\<close>: which local services are announced
  in the DHT, when they are withdrawn, and the shared list of service types.

  \<open>registry_state\<close> is \<open>RegistryState\<close>, \<open>handle\<close>, \<open>plan\<close> and \<open>apply_result\<close> its three
  operations; \<open>registry_actor\<close> adds the running jobs (the \<open>JoinSet\<close>) and \<open>actor_step\<close> is one
  turn of the \<open>select!\<close> loop. The configuration is an argument where the code reads it, and so is
  the time. \<open>serde_json\<close> is the record \<open>json_lib\<close>. Logging has no effect on the state.

  A \<open>BTreeSet\<close> is its sorted list of elements. Record keys are strings.
\<close>

section \<open>Constants and data\<close>

definition WITHDRAW_GRACE :: duration where
  "WITHDRAW_GRACE = from_secs 3"

definition TYPES_KEY :: string where
  "TYPES_KEY = ''/oahd/service/types''"

definition MAX_TYPES :: nat where
  "MAX_TYPES = 4096"

definition ANNOUNCE_RETRY_INITIAL :: duration where
  "ANNOUNCE_RETRY_INITIAL = from_secs 5"

definition ANNOUNCE_RETRY_MAX :: duration where
  "ANNOUNCE_RETRY_MAX = from_secs 60"

definition RECONCILE_RETRY :: duration where
  "RECONCILE_RETRY = from_secs 30"

definition provider_key :: "string \<Rightarrow> string" where
  "provider_key name = ''/oahd/service/'' @ name"

fun merge_type_set :: "string list \<Rightarrow> string list \<Rightarrow> string list" where
  "merge_type_set known [] = known"
| "merge_type_set known (name # incoming) =
     (if length known \<ge> MAX_TYPES then known
      else merge_type_set
             (if is_valid_service_name name then List.insort_insert name known else known) incoming)"

record service_snapshot =
  ss_types :: "string list"
  ss_announced :: "string list"
  ss_backend_ready :: "string list"
  ss_bootstrapped :: bool

datatype service_command =
    BootstrapCompleted
  | Tick
  | Reannounce
  | RefreshTypes
  | Reset
  | RelayStateChanged bool nat

datatype job_spec =
    Announce u64 string string
  | Withdraw u64 string string
  | ReadTypes u64
  | WriteTypes u64 bytes

datatype job_result =
    Announced u64 string "(unit, string) result"
  | Withdrawn u64 string "(unit, string) result"
  | TypesRead u64 "(string list, string) result"
  | TypesWritten u64 "(unit, string) result"

datatype reconcile_state = Idle | Reading | ReadyToWrite | Writing

record registry_state =
  re_bootstrapped :: bool
  re_need_relay :: bool
  re_active_relays :: nat
  re_backend_ready :: "string list"
  re_announced :: "string list"
  re_withdraw_deadline :: "(string \<times> instant) list"
  re_relay_withdraw :: "string list"
  re_relay_withdraw_retry_at :: "string \<rightharpoonup> instant"
  re_announce_inflight :: "string list"
  re_withdraw_inflight :: "string list"
  re_announce_failures :: "string \<rightharpoonup> u32"
  re_announce_retry_at :: "(string \<times> instant) list"
  re_known_types :: "string list"
  re_reconcile :: reconcile_state
  re_reconcile_dirty :: bool
  re_next_types_sync :: "instant option"
  re_pending_types_write :: "bytes option"
  re_generation :: u64

definition registry_new :: registry_state where
  "registry_new =
     \<lparr>re_bootstrapped = False, re_need_relay = False, re_active_relays = 0, re_backend_ready = [],
      re_announced = [], re_withdraw_deadline = [], re_relay_withdraw = [],
      re_relay_withdraw_retry_at = Map.empty, re_announce_inflight = [], re_withdraw_inflight = [],
      re_announce_failures = Map.empty, re_announce_retry_at = [], re_known_types = [],
      re_reconcile = Idle, re_reconcile_dirty = False, re_next_types_sync = None,
      re_pending_types_write = None, re_generation = 0\<rparr>"

section \<open>Small operations\<close>

definition sync_interval :: "node_config \<Rightarrow> duration" where
  "sync_interval config = from_secs (unat (dispatcher_types_sync_interval config))"

definition relay_ready :: "registry_state \<Rightarrow> bool" where
  "relay_ready s \<longleftrightarrow> \<not> re_need_relay s \<or> re_active_relays s > 0"

text \<open>\<open>failures.saturating_sub(1).min(4)\<close> as a shift.\<close>

definition retry_delay :: "u32 \<Rightarrow> duration" where
  "retry_delay failures =
     (let shift = min (unat failures - 1) 4
      in min (ANNOUNCE_RETRY_INITIAL * 2 ^ shift) ANNOUNCE_RETRY_MAX)"

definition mark_types_dirty :: "instant \<Rightarrow> registry_state \<Rightarrow> registry_state" where
  "mark_types_dirty now s =
     (let s = s\<lparr>re_reconcile_dirty := True\<rparr>
      in if re_reconcile s = Idle then s\<lparr>re_next_types_sync := Some now\<rparr> else s)"

definition backend_up :: "string \<Rightarrow> registry_state \<Rightarrow> registry_state" where
  "backend_up service s =
     s\<lparr>re_withdraw_deadline := hm_del service (re_withdraw_deadline s),
       re_announce_failures := (re_announce_failures s)(service := None),
       re_announce_retry_at := hm_del service (re_announce_retry_at s)\<rparr>"

definition backend_down :: "instant \<Rightarrow> string \<Rightarrow> registry_state \<Rightarrow> registry_state" where
  "backend_down now service s =
     (let s = s\<lparr>re_announce_retry_at := hm_del service (re_announce_retry_at s)\<rparr>
      in if service \<in> set (re_announced s)
         then s\<lparr>re_withdraw_deadline :=
                  (case hm_get (re_withdraw_deadline s) service of
                     Some d \<Rightarrow> re_withdraw_deadline s
                   | None \<Rightarrow> hm_put service (now + WITHDRAW_GRACE) (re_withdraw_deadline s))\<rparr>
         else s)"

definition replace_backend_ready :: "string list \<Rightarrow> instant \<Rightarrow> registry_state \<Rightarrow> registry_state" where
  "replace_backend_ready ready now s =
     (let previous = re_backend_ready s; s = s\<lparr>re_backend_ready := ready\<rparr>
      in fold (backend_down now) (filter (\<lambda>x. x \<notin> set ready) previous)
           (fold backend_up (filter (\<lambda>x. x \<notin> set previous) ready) s))"

section \<open>Commands\<close>

text \<open>The two branches of \<open>RelayStateChanged\<close> in which the availability has changed.\<close>

definition relay_gained :: "registry_state \<Rightarrow> registry_state" where
  "relay_gained s =
     s\<lparr>re_announced := [], re_announce_failures := Map.empty, re_announce_retry_at := [],
       re_relay_withdraw := [], re_relay_withdraw_retry_at := Map.empty\<rparr>"

definition relay_lost :: "registry_state \<Rightarrow> registry_state" where
  "relay_lost s =
     s\<lparr>re_relay_withdraw :=
         fold List.insert (re_announced s @ re_announce_inflight s) (re_relay_withdraw s),
       re_announce_retry_at := []\<rparr>"

definition relay_changed :: "bool \<Rightarrow> nat \<Rightarrow> registry_state \<Rightarrow> registry_state" where
  "relay_changed need_relay active s =
     (let was_ready = relay_ready s;
          s = s\<lparr>re_need_relay := need_relay, re_active_relays := active\<rparr>;
          now_ready = relay_ready s
      in if was_ready = now_ready then s
         else if now_ready then relay_gained s
         else relay_lost s)"

fun handle :: "service_command \<Rightarrow> instant \<Rightarrow> registry_state \<Rightarrow> registry_state" where
  "handle BootstrapCompleted now s =
     mark_types_dirty now (s\<lparr>re_bootstrapped := True, re_announced := [], re_announce_retry_at := []\<rparr>)"
| "handle Tick now s = s"
| "handle Reannounce now s =
     mark_types_dirty now (s\<lparr>re_announced := [], re_announce_retry_at := []\<rparr>)"
| "handle RefreshTypes now s = mark_types_dirty now s"
| "handle (RelayStateChanged need_relay active) now s = relay_changed need_relay active s"
| "handle Reset now s =
     s\<lparr>re_generation := re_generation s + 1, re_bootstrapped := False, re_active_relays := 0,
       re_announced := [], re_withdraw_deadline := [], re_relay_withdraw := [],
       re_relay_withdraw_retry_at := Map.empty, re_announce_inflight := [],
       re_withdraw_inflight := [], re_announce_failures := Map.empty, re_announce_retry_at := [],
       re_reconcile := Idle, re_reconcile_dirty := False, re_next_types_sync := None,
       re_pending_types_write := None\<rparr>"

section \<open>Planning\<close>

definition due_withdrawals :: "instant \<Rightarrow> registry_state \<Rightarrow> string list" where
  "due_withdrawals now s =
     sort_dedup
       (map fst (filter (\<lambda>(service, deadline). deadline \<le> now \<and> service \<notin> set (re_backend_ready s))
                  (re_withdraw_deadline s))
        @ filter (\<lambda>service. case re_relay_withdraw_retry_at s service of None \<Rightarrow> True | Some at \<Rightarrow> at \<le> now)
            (re_relay_withdraw s))"

fun plan_withdrawals ::
    "string list \<Rightarrow> registry_state \<times> nat \<times> job_spec list \<Rightarrow> registry_state \<times> nat \<times> job_spec list" where
  "plan_withdrawals [] (s, slots, jobs) = (s, slots, jobs)"
| "plan_withdrawals (service # due) (s, slots, jobs) =
     (if slots = 0 then (s, slots, jobs)
      else if service \<in> set (re_withdraw_inflight s) \<or> service \<in> set (re_announce_inflight s)
      then plan_withdrawals due (s, slots, jobs)
      else plan_withdrawals due
        (s\<lparr>re_withdraw_deadline := hm_del service (re_withdraw_deadline s),
           re_relay_withdraw_retry_at := (re_relay_withdraw_retry_at s)(service := None),
           re_withdraw_inflight := List.insert service (re_withdraw_inflight s)\<rparr>,
         slots - 1, jobs @ [Withdraw (re_generation s) service (provider_key service)]))"

definition due_retries :: "instant \<Rightarrow> registry_state \<Rightarrow> string list" where
  "due_retries now s =
     sort (map fst (filter (\<lambda>(service, at). relay_ready s \<and> at \<le> now
                              \<and> service \<in> set (re_backend_ready s) \<and> service \<notin> set (re_announced s)
                              \<and> service \<notin> set (re_relay_withdraw s))
                      (re_announce_retry_at s)))"

definition start_announce :: "string \<Rightarrow> registry_state \<Rightarrow> registry_state" where
  "start_announce service s =
     s\<lparr>re_announce_retry_at := hm_del service (re_announce_retry_at s),
       re_announce_inflight := List.insert service (re_announce_inflight s)\<rparr>"

fun plan_retries ::
    "string list \<Rightarrow> registry_state \<times> nat \<times> job_spec list \<Rightarrow> registry_state \<times> nat \<times> job_spec list" where
  "plan_retries [] (s, slots, jobs) = (s, slots, jobs)"
| "plan_retries (service # retries) (s, slots, jobs) =
     (if slots = 0 then (s, slots, jobs)
      else if service \<in> set (re_announce_inflight s) \<or> service \<in> set (re_withdraw_inflight s)
      then plan_retries retries (s, slots, jobs)
      else plan_retries retries
        (start_announce service s, slots - 1,
         jobs @ [Announce (re_generation s) service (provider_key service)]))"

fun plan_local ::
    "instant \<Rightarrow> string list \<Rightarrow> registry_state \<times> nat \<times> job_spec list
       \<Rightarrow> registry_state \<times> nat \<times> job_spec list" where
  "plan_local now [] (s, slots, jobs) = (s, slots, jobs)"
| "plan_local now (service # local) (s, slots, jobs) =
     (if slots = 0 then (s, slots, jobs)
      else if service \<notin> set (re_backend_ready s) \<or> service \<in> set (re_announced s)
              \<or> service \<in> set (re_announce_inflight s) \<or> service \<in> set (re_withdraw_inflight s)
      then plan_local now local (s, slots, jobs)
      else if (case hm_get (re_announce_retry_at s) service of None \<Rightarrow> False | Some at \<Rightarrow> at > now)
      then plan_local now local (s, slots, jobs)
      else plan_local now local
        (start_announce service s, slots - 1,
         jobs @ [Announce (re_generation s) service (provider_key service)]))"

definition plan_types ::
    "instant \<Rightarrow> registry_state \<times> nat \<times> job_spec list \<Rightarrow> registry_state \<times> job_spec list" where
  "plan_types now = (\<lambda>(s, slots, jobs).
     if slots = 0 then (s, jobs)
     else case re_reconcile s of
       Idle \<Rightarrow>
         (let due = re_reconcile_dirty s
                    \<or> (case re_next_types_sync s of None \<Rightarrow> False | Some at \<Rightarrow> at \<le> now)
          in if due
             then (s\<lparr>re_next_types_sync := None, re_reconcile := Reading, re_reconcile_dirty := False\<rparr>,
                   jobs @ [ReadTypes (re_generation s)])
             else (s, jobs))
     | ReadyToWrite \<Rightarrow>
         (case re_pending_types_write s of
            Some v \<Rightarrow> (s\<lparr>re_pending_types_write := None, re_reconcile := Writing\<rparr>,
                       jobs @ [WriteTypes (re_generation s) v])
          | None \<Rightarrow> (s\<lparr>re_reconcile := Idle\<rparr>, jobs))
     | Reading \<Rightarrow> (s, jobs)
     | Writing \<Rightarrow> (s, jobs))"

definition local_names :: "node_config \<Rightarrow> string list" where
  "local_names config = map ls_name (filter (\<lambda>s. is_valid_service_name (ls_name s)) (local_services config))"

definition plan :: "node_config \<Rightarrow> instant \<Rightarrow> nat \<Rightarrow> registry_state \<Rightarrow> registry_state \<times> job_spec list" where
  "plan config now slots s =
     (case plan_withdrawals (due_withdrawals now s) (s, slots, []) of
        (s, slots, jobs) \<Rightarrow>
      (case plan_retries (due_retries now s) (s, slots, jobs) of
        (s, slots, jobs) \<Rightarrow>
      plan_types now
        (if re_bootstrapped s \<and> relay_ready s \<and> slots > 0
         then plan_local now (local_names config) (s, slots, jobs)
         else (s, slots, jobs))))"

section \<open>The list of service types\<close>

record json_lib =
  js_to_vec :: "string list \<Rightarrow> bytes option"
  js_from_slice :: "bytes \<Rightarrow> string list option"
  js_error :: string

text \<open>The binary search for the longest prefix that fits.\<close>

function search_prefix ::
    "json_lib \<Rightarrow> string list \<Rightarrow> nat \<Rightarrow> nat \<Rightarrow> nat \<Rightarrow> nat option" where
  "search_prefix js list max_bytes low high =
     (if low < high
      then (let mid = (low + high + 1) div 2 in
            case js_to_vec js (take mid list) of
              None \<Rightarrow> None
            | Some encoded \<Rightarrow>
                if length encoded \<le> max_bytes then search_prefix js list max_bytes mid high
                else search_prefix js list max_bytes low (mid - 1))
      else Some low)"
  by pat_completeness auto
termination
  by (relation "measure (\<lambda>(_, _, _, low, high). high - low)") auto

declare search_prefix.simps [simp del]

definition encode_types_limited :: "json_lib \<Rightarrow> string list \<Rightarrow> nat \<Rightarrow> (bytes \<times> nat) option" where
  "encode_types_limited js list max_bytes =
     (case js_to_vec js list of
        None \<Rightarrow> None
      | Some full \<Rightarrow>
          if length full \<le> max_bytes then Some (full, length list)
          else case search_prefix js list max_bytes 0 (length list) of
            None \<Rightarrow> None
          | Some low \<Rightarrow> map_option (\<lambda>v. (v, low)) (js_to_vec js (take low list)))"

definition parse_types :: "json_lib \<Rightarrow> bytes \<Rightarrow> string list option" where
  "parse_types js v =
     map_option (\<lambda>types. take MAX_TYPES (filter is_valid_service_name types)) (js_from_slice js v)"

section \<open>Results of jobs\<close>

definition announce_ok :: "string \<Rightarrow> instant \<Rightarrow> registry_state \<Rightarrow> registry_state" where
  "announce_ok service now s =
     (let s = mark_types_dirty now
                (s\<lparr>re_announce_failures := (re_announce_failures s)(service := None),
                   re_announce_retry_at := hm_del service (re_announce_retry_at s),
                   re_announced := List.insert service (re_announced s)\<rparr>)
      in if \<not> relay_ready s then s\<lparr>re_relay_withdraw := List.insert service (re_relay_withdraw s)\<rparr>
         else if service \<in> set (re_backend_ready s) \<and> re_bootstrapped s then s
         else s\<lparr>re_withdraw_deadline := hm_put service now (re_withdraw_deadline s)\<rparr>)"

definition announce_err :: "string \<Rightarrow> instant \<Rightarrow> registry_state \<Rightarrow> registry_state" where
  "announce_err service now s =
     (if service \<in> set (re_backend_ready s) \<and> re_bootstrapped s
      then (let old = (case re_announce_failures s service of None \<Rightarrow> 0 | Some n \<Rightarrow> n);
                failures = sat_inc old
            in s\<lparr>re_announce_failures := (re_announce_failures s)(service \<mapsto> failures),
                 re_announce_retry_at := hm_put service (now + retry_delay failures) (re_announce_retry_at s)\<rparr>)
      else s)"

definition withdraw_ok :: "string \<Rightarrow> instant \<Rightarrow> registry_state \<Rightarrow> registry_state" where
  "withdraw_ok service now s =
     (let s = s\<lparr>re_announced := removeAll service (re_announced s),
                re_relay_withdraw := removeAll service (re_relay_withdraw s),
                re_relay_withdraw_retry_at := (re_relay_withdraw_retry_at s)(service := None)\<rparr>
      in if service \<in> set (re_backend_ready s) \<and> relay_ready s
         then s\<lparr>re_announce_retry_at := hm_put service now (re_announce_retry_at s)\<rparr>
         else s)"

definition withdraw_err :: "string \<Rightarrow> instant \<Rightarrow> registry_state \<Rightarrow> registry_state" where
  "withdraw_err service now s =
     (if service \<in> set (re_relay_withdraw s)
      then s\<lparr>re_relay_withdraw_retry_at :=
               (re_relay_withdraw_retry_at s)(service \<mapsto> now + ANNOUNCE_RETRY_INITIAL)\<rparr>
      else if service \<in> set (re_backend_ready s)
      then s\<lparr>re_announce_retry_at := hm_put service now (re_announce_retry_at s)\<rparr>
      else s\<lparr>re_withdraw_deadline :=
               hm_put service (now + ANNOUNCE_RETRY_INITIAL) (re_withdraw_deadline s)\<rparr>)"

text \<open>Back to \<open>Idle\<close>; a change that came in meanwhile is due at once.\<close>

definition reconcile_idle :: "instant \<Rightarrow> instant \<Rightarrow> registry_state \<Rightarrow> registry_state" where
  "reconcile_idle next now s =
     (let s = s\<lparr>re_reconcile := Idle, re_pending_types_write := None, re_next_types_sync := Some next\<rparr>
      in if re_reconcile_dirty s
         then s\<lparr>re_reconcile_dirty := False, re_next_types_sync := Some now\<rparr>
         else s)"

definition types_read ::
    "json_lib \<Rightarrow> node_config \<Rightarrow> (string list, string) result \<Rightarrow> instant \<Rightarrow> registry_state \<Rightarrow> registry_state" where
  "types_read js config result now s =
     (case result of
        Ok network_types \<Rightarrow>
          (let network_set = sort_dedup network_types;
               known = merge_type_set (merge_type_set (re_known_types s) network_types) (re_announced s);
               s = s\<lparr>re_known_types := known\<rparr>
           in if known = [] \<or> known = network_set
              then reconcile_idle (now + sync_interval config) now s
              else case encode_types_limited js known (unat (compat_max_record_bytes config)) of
                Some (v, included) \<Rightarrow>
                  s\<lparr>re_pending_types_write := Some v, re_reconcile := ReadyToWrite,
                    re_reconcile_dirty := False\<rparr>
              | None \<Rightarrow>
                  s\<lparr>re_reconcile := Idle, re_pending_types_write := None,
                    re_next_types_sync := Some (now + RECONCILE_RETRY)\<rparr>)
      | Err error \<Rightarrow> reconcile_idle (now + RECONCILE_RETRY) now s)"

fun apply_result ::
    "json_lib \<Rightarrow> node_config \<Rightarrow> job_result \<Rightarrow> instant \<Rightarrow> registry_state \<Rightarrow> registry_state" where
  "apply_result js config (Announced generation service result) now s =
     (let s = s\<lparr>re_announce_inflight := removeAll service (re_announce_inflight s)\<rparr>
      in if generation \<noteq> re_generation s then s
         else case result of Ok _ \<Rightarrow> announce_ok service now s | Err error \<Rightarrow> announce_err service now s)"
| "apply_result js config (Withdrawn generation service result) now s =
     (let s = s\<lparr>re_withdraw_inflight := removeAll service (re_withdraw_inflight s)\<rparr>
      in if generation \<noteq> re_generation s then s
         else case result of Ok _ \<Rightarrow> withdraw_ok service now s | Err error \<Rightarrow> withdraw_err service now s)"
| "apply_result js config (TypesRead generation result) now s =
     (if generation \<noteq> re_generation s \<or> re_reconcile s \<noteq> Reading then s
      else types_read js config result now s)"
| "apply_result js config (TypesWritten generation result) now s =
     (if generation \<noteq> re_generation s \<or> re_reconcile s \<noteq> Writing then s
      else reconcile_idle (now + (if is_ok result then sync_interval config else RECONCILE_RETRY)) now s)"

definition registry_snapshot :: "registry_state \<Rightarrow> service_snapshot" where
  "registry_snapshot s =
     \<lparr>ss_types = fold List.insort_insert (re_announced s) (re_known_types s),
      ss_announced = sort_dedup (re_announced s), ss_backend_ready = sort_dedup (re_backend_ready s),
      ss_bootstrapped = re_bootstrapped s\<rparr>"

section \<open>The actor\<close>

text \<open>A running job, and whether \<open>abort_all\<close> has reached it.\<close>

record running_job =
  rj_spec :: job_spec
  rj_aborted :: bool

record registry_actor =
  ra_state :: registry_state
  ra_jobs :: "running_job list"
  ra_snapshot :: service_snapshot

definition clamp :: "nat \<Rightarrow> nat \<Rightarrow> nat \<Rightarrow> nat" where
  "clamp lo hi n = max lo (min n hi)"

definition pump :: "node_config \<Rightarrow> instant \<Rightarrow> registry_actor \<Rightarrow> registry_actor" where
  "pump config now a =
     (let slots = clamp 1 16 (registry_max_inflight_dht config) - length (ra_jobs a)
      in case plan config now slots (ra_state a) of
           (s, specs) \<Rightarrow>
             a\<lparr>ra_state := s,
               ra_jobs := ra_jobs a @ map (\<lambda>spec. \<lparr>rj_spec = spec, rj_aborted = False\<rparr>) specs\<rparr>)"

definition publish :: "registry_actor \<Rightarrow> registry_actor" where
  "publish a = a\<lparr>ra_snapshot := registry_snapshot (ra_state a)\<rparr>"

text \<open>What a job returns, given what the DHT answered.\<close>

datatype dht_answer = Done "(unit, string) result" | Record "(bytes option, string) result"

fun job_outcome :: "json_lib \<Rightarrow> job_spec \<Rightarrow> dht_answer \<Rightarrow> job_result option" where
  "job_outcome js (Announce generation service key) (Done result) = Some (Announced generation service result)"
| "job_outcome js (Withdraw generation service key) (Done result) = Some (Withdrawn generation service result)"
| "job_outcome js (WriteTypes generation v) (Done result) = Some (TypesWritten generation result)"
| "job_outcome js (ReadTypes generation) (Record (Ok (Some v))) =
     Some (TypesRead generation (ok_or (js_error js) (parse_types js v)))"
| "job_outcome js (ReadTypes generation) (Record (Ok None)) = Some (TypesRead generation (Ok []))"
| "job_outcome js (ReadTypes generation) (Record (Err e)) = Some (TypesRead generation (Err e))"
| "job_outcome js _ _ = None"

datatype registry_event =
    Command service_command
  | JobDone nat dht_answer
  | JobCancelled nat
  | JobPanicked nat
  | ReadinessChanged "string list"

definition remove_nth :: "nat \<Rightarrow> 'a list \<Rightarrow> 'a list" where
  "remove_nth i xs = take i xs @ drop (Suc i) xs"

text \<open>
  One turn of the loop: \<open>now\<close> is the time of the handler, \<open>later\<close> the time of the planner. The
  \<open>i\<close>th job can deliver its result at any time, its cancellation once it has been aborted, and the
  error of a panic, which is only logged.
\<close>

fun actor_step ::
    "json_lib \<Rightarrow> node_config \<times> instant \<times> instant \<times> registry_event \<Rightarrow> registry_actor \<Rightarrow> registry_actor" where
  "actor_step js (config, now, later, Command c) a =
     (let a = (if c = Reset then a\<lparr>ra_jobs := map (\<lambda>j. j\<lparr>rj_aborted := True\<rparr>) (ra_jobs a)\<rparr> else a)
      in pump config later (publish (a\<lparr>ra_state := handle c now (ra_state a)\<rparr>)))"
| "actor_step js (config, now, later, JobDone i answer) a =
     (if i < length (ra_jobs a)
      then case job_outcome js (rj_spec (ra_jobs a ! i)) answer of
             None \<Rightarrow> a
           | Some result \<Rightarrow>
               pump config later (publish
                 (a\<lparr>ra_jobs := remove_nth i (ra_jobs a),
                    ra_state := apply_result js config result now (ra_state a)\<rparr>))
      else a)"
| "actor_step js (config, now, later, JobCancelled i) a =
     (if i < length (ra_jobs a) \<and> rj_aborted (ra_jobs a ! i)
      then pump config later (a\<lparr>ra_jobs := remove_nth i (ra_jobs a)\<rparr>)
      else a)"
| "actor_step js (config, now, later, JobPanicked i) a =
     (if i < length (ra_jobs a) then pump config later (a\<lparr>ra_jobs := remove_nth i (ra_jobs a)\<rparr>) else a)"
| "actor_step js (config, now, later, ReadinessChanged ready) a =
     pump config later (publish (a\<lparr>ra_state := replace_backend_ready ready now (ra_state a)\<rparr>))"

text \<open>The start of \<open>run\<close>, before its loop.\<close>

definition actor_start :: "node_config \<Rightarrow> string list \<Rightarrow> instant \<Rightarrow> instant \<Rightarrow> registry_actor" where
  "actor_start config initial now later =
     pump config later (publish
       \<lparr>ra_state = replace_backend_ready initial now registry_new, ra_jobs = [],
        ra_snapshot = \<lparr>ss_types = [], ss_announced = [], ss_backend_ready = [], ss_bootstrapped = False\<rparr>\<rparr>)"

section \<open>Service types: the merged list\<close>

definition types_ok :: "string list \<Rightarrow> bool" where
  "types_ok known \<longleftrightarrow>
     sorted known \<and> distinct known \<and> length known \<le> MAX_TYPES \<and> list_all is_valid_service_name known"

lemma length_insort_insert: "length (List.insort_insert x xs) \<le> Suc (length xs)"
  by (simp add: insort_insert_key_def)

lemma types_ok_insert:
  assumes "types_ok known" and "length known < MAX_TYPES" and "is_valid_service_name name"
  shows "types_ok (List.insort_insert name known)"
  using assms length_insort_insert [of name known]
  by (auto simp: types_ok_def sorted_insort_insert distinct_insort_insert set_insort_insert list_all_iff
      intro: order_trans)

lemma types_ok_merge: "types_ok known \<Longrightarrow> types_ok (merge_type_set known incoming)"
  by (induction known incoming rule: merge_type_set.induct) (auto simp: types_ok_insert)

lemma merge_type_set_mono: "set known \<subseteq> set (merge_type_set known incoming)"
  by (induction known incoming rule: merge_type_set.induct) (auto simp: set_insort_insert)

lemma merge_type_set_upper:
  "set (merge_type_set known incoming) \<subseteq> set known \<union> {n \<in> set incoming. is_valid_service_name n}"
  by (induction known incoming rule: merge_type_set.induct) (auto simp: set_insort_insert)

lemma merge_type_set_full:
  "length (merge_type_set known incoming) < MAX_TYPES \<Longrightarrow>
     {n \<in> set incoming. is_valid_service_name n} \<subseteq> set (merge_type_set known incoming)"
proof (induction known incoming rule: merge_type_set.induct)
  case (2 known name incoming)
  show ?case
  proof (cases "length known \<ge> MAX_TYPES")
    case False
    let ?k = "if is_valid_service_name name then List.insort_insert name known else known"
    have "{n \<in> set incoming. is_valid_service_name n} \<subseteq> set (merge_type_set ?k incoming)"
      using 2 False by simp
    moreover have "is_valid_service_name name \<Longrightarrow> name \<in> set (merge_type_set ?k incoming)"
      using merge_type_set_mono [of ?k incoming] by (auto simp: set_insort_insert)
    ultimately show ?thesis using False by auto
  qed (use 2 in simp)
qed simp

section \<open>The invariant of the registry\<close>

text \<open>The services the state refers to, and those that jobs of the current generation work on.\<close>

definition tracked :: "registry_state \<Rightarrow> string set" where
  "tracked s =
     set (re_announced s) \<union> hm_keys (re_withdraw_deadline s) \<union> set (re_relay_withdraw s)
     \<union> set (re_announce_inflight s) \<union> set (re_withdraw_inflight s) \<union> hm_keys (re_announce_retry_at s)"

definition job_names :: "job_spec set \<Rightarrow> string set" where
  "job_names L = {x. \<exists>g k. Announce g x k \<in> L \<or> Withdraw g x k \<in> L}"

definition withdrawing :: "job_spec set \<Rightarrow> string set" where
  "withdrawing L = {x. \<exists>g k. Withdraw g x k \<in> L}"

definition names_ok :: "registry_state \<Rightarrow> job_spec set \<Rightarrow> bool" where
  "names_ok s L \<longleftrightarrow> (\<forall>x \<in> tracked s \<union> job_names L. is_valid_service_name x)"

definition quiet_ok :: "registry_state \<Rightarrow> job_spec set \<Rightarrow> bool" where
  "quiet_ok s L \<longleftrightarrow> re_bootstrapped s \<or> tracked s \<union> job_names L = {}"

definition disjoint_ok :: "registry_state \<Rightarrow> bool" where
  "disjoint_ok s \<longleftrightarrow> set (re_announce_inflight s) \<inter> set (re_withdraw_inflight s) = {}"

text \<open>Without a relay everything announced is to be withdrawn.\<close>

definition relay_ok :: "registry_state \<Rightarrow> bool" where
  "relay_ok s \<longleftrightarrow> relay_ready s
     \<or> set (re_announced s) \<subseteq> set (re_relay_withdraw s)"

text \<open>An announced service without a backend has its withdrawal scheduled or running.\<close>

definition sched_ok :: "registry_state \<Rightarrow> job_spec set \<Rightarrow> bool" where
  "sched_ok s L \<longleftrightarrow>
     set (re_announced s) \<subseteq> set (re_backend_ready s) \<union> hm_keys (re_withdraw_deadline s)
       \<union> set (re_relay_withdraw s) \<union> withdrawing L"

definition reconcile_ok :: "registry_state \<Rightarrow> job_spec set \<Rightarrow> bool" where
  "reconcile_ok s L \<longleftrightarrow>
     (re_reconcile s = Reading \<longrightarrow> (\<exists>g. ReadTypes g \<in> L))
     \<and> (re_reconcile s = Writing \<longrightarrow> (\<exists>g v. WriteTypes g v \<in> L))
     \<and> (re_reconcile s = ReadyToWrite \<longleftrightarrow> re_pending_types_write s \<noteq> None)
     \<and> types_ok (re_known_types s)"

definition state_ok :: "registry_state \<Rightarrow> job_spec set \<Rightarrow> bool" where
  "state_ok s L \<longleftrightarrow>
     names_ok s L \<and> quiet_ok s L \<and> disjoint_ok s \<and> relay_ok s \<and> sched_ok s L \<and> reconcile_ok s L"

lemmas state_ok_defs = state_ok_def names_ok_def quiet_ok_def disjoint_ok_def relay_ok_def
  sched_ok_def reconcile_ok_def

text \<open>The parts depend only on some of the fields.\<close>

lemma tracked_cong:
  "re_announced s' = re_announced s \<Longrightarrow> re_withdraw_deadline s' = re_withdraw_deadline s \<Longrightarrow>
   re_relay_withdraw s' = re_relay_withdraw s \<Longrightarrow> re_announce_inflight s' = re_announce_inflight s \<Longrightarrow>
   re_withdraw_inflight s' = re_withdraw_inflight s \<Longrightarrow> re_announce_retry_at s' = re_announce_retry_at s \<Longrightarrow>
   tracked s' = tracked s"
  by (simp add: tracked_def)

lemma mark_types_dirty_simps [simp]:
  "re_bootstrapped (mark_types_dirty now s) = re_bootstrapped s"
  "re_need_relay (mark_types_dirty now s) = re_need_relay s"
  "re_active_relays (mark_types_dirty now s) = re_active_relays s"
  "re_backend_ready (mark_types_dirty now s) = re_backend_ready s"
  "re_announced (mark_types_dirty now s) = re_announced s"
  "re_withdraw_deadline (mark_types_dirty now s) = re_withdraw_deadline s"
  "re_relay_withdraw (mark_types_dirty now s) = re_relay_withdraw s"
  "re_announce_inflight (mark_types_dirty now s) = re_announce_inflight s"
  "re_withdraw_inflight (mark_types_dirty now s) = re_withdraw_inflight s"
  "re_announce_retry_at (mark_types_dirty now s) = re_announce_retry_at s"
  "re_known_types (mark_types_dirty now s) = re_known_types s"
  "re_reconcile (mark_types_dirty now s) = re_reconcile s"
  "re_pending_types_write (mark_types_dirty now s) = re_pending_types_write s"
  "re_generation (mark_types_dirty now s) = re_generation s"
  "tracked (mark_types_dirty now s) = tracked s"
  "relay_ready (mark_types_dirty now s) = relay_ready s"
  by (simp_all add: mark_types_dirty_def tracked_def relay_ready_def Let_def)

lemma relay_changed_cases:
  fixes s need active
  defines "s1 \<equiv> s\<lparr>re_need_relay := need, re_active_relays := active\<rparr>"
  shows "relay_changed need active s = s1 \<and> relay_ready s1 = relay_ready s
     \<or> relay_changed need active s = relay_gained s1 \<and> relay_ready s1
     \<or> relay_changed need active s = relay_lost s1 \<and> \<not> relay_ready s1"
  unfolding relay_changed_def Let_def s1_def [symmetric]
  by (cases "relay_ready s"; cases "relay_ready s1") simp_all

lemma handle_generation [simp]:
  "re_generation (handle c now s) = (if c = Reset then re_generation s + 1 else re_generation s)"
proof (cases c)
  case (RelayStateChanged need active)
  then show ?thesis
    using relay_changed_cases [of need active s]
    by (elim disjE conjE) (simp_all add: relay_gained_def relay_lost_def)
qed simp_all

lemma state_ok_shrink:
  assumes "state_ok s L" and "tracked s' \<subseteq> tracked s" and "re_bootstrapped s \<Longrightarrow> re_bootstrapped s'"
    and "set (re_announce_inflight s') \<subseteq> set (re_announce_inflight s)"
    and "set (re_withdraw_inflight s') \<subseteq> set (re_withdraw_inflight s)"
    and "relay_ok s'" and "sched_ok s' L" and "reconcile_ok s' L"
  shows "state_ok s' L"
proof -
  have "names_ok s' L" "quiet_ok s' L"
    using assms(1-3) unfolding state_ok_def names_ok_def quiet_ok_def by blast+
  moreover have "disjoint_ok s'"
    using assms(1,4,5) unfolding state_ok_def disjoint_ok_def by blast
  ultimately show ?thesis using assms(6-8) by (simp add: state_ok_def)
qed

lemma sched_ok_Nil: "re_announced s = [] \<Longrightarrow> sched_ok s L"
  by (simp add: sched_ok_def)

lemma reconcile_ok_cong:
  "reconcile_ok s L \<Longrightarrow> re_reconcile s' = re_reconcile s \<Longrightarrow> re_known_types s' = re_known_types s \<Longrightarrow>
   re_pending_types_write s' = re_pending_types_write s \<Longrightarrow> reconcile_ok s' L"
  by (simp add: reconcile_ok_def)

lemma state_ok_relay_change:
  assumes "state_ok s L"
  shows "state_ok (relay_changed need active s) L"
proof -
  let ?s1 = "s\<lparr>re_need_relay := need, re_active_relays := active\<rparr>"
  have rec: "reconcile_ok s' L"
    if "re_reconcile s' = re_reconcile s" "re_known_types s' = re_known_types s"
      "re_pending_types_write s' = re_pending_types_write s" for s'
    using assms that by (simp add: state_ok_def reconcile_ok_def)
  have same: "state_ok ?s1 L" if "relay_ready ?s1 = relay_ready s"
    by (rule state_ok_shrink [OF assms])
      (use assms that in \<open>simp_all add: tracked_def rec state_ok_def relay_ok_def sched_ok_def\<close>)
  have up: "state_ok (relay_gained ?s1) L" if "relay_ready ?s1"
    using that
    by (intro state_ok_shrink [OF assms] sched_ok_Nil rec)
      (auto simp: relay_gained_def tracked_def relay_ok_def relay_ready_def)
  have down: "state_ok (relay_lost ?s1) L"
    by (intro state_ok_shrink [OF assms] rec)
      (use assms in \<open>auto simp: relay_lost_def tracked_def relay_ok_def sched_ok_def state_ok_def\<close>)
  from relay_changed_cases [of need active s] same up down show ?thesis by metis
qed

lemma state_ok_handle:
  assumes "state_ok s L" and "c \<noteq> Reset"
  shows "state_ok (handle c now s) L"
proof -
  have rec: "reconcile_ok (mark_types_dirty now s') L"
    if "reconcile_ok s L" "re_reconcile s' = re_reconcile s" "re_known_types s' = re_known_types s"
      "re_pending_types_write s' = re_pending_types_write s" for s'
    using that by (simp add: reconcile_ok_def)
  have clear: "state_ok (mark_types_dirty now s') L"
    if "re_announced s' = []" "re_announce_retry_at s' = []" "re_bootstrapped s \<Longrightarrow> re_bootstrapped s'"
      "re_withdraw_deadline s' = re_withdraw_deadline s" "re_relay_withdraw s' = re_relay_withdraw s"
      "re_announce_inflight s' = re_announce_inflight s" "re_withdraw_inflight s' = re_withdraw_inflight s"
      "relay_ready s' = relay_ready s" "re_reconcile s' = re_reconcile s"
      "re_known_types s' = re_known_types s" "re_pending_types_write s' = re_pending_types_write s" for s'
  proof (rule state_ok_shrink [OF assms(1)])
    show "tracked (mark_types_dirty now s') \<subseteq> tracked s" using that by (auto simp: tracked_def)
    show "relay_ok (mark_types_dirty now s')"
      using assms(1) that by (auto simp: state_ok_def relay_ok_def)
    show "reconcile_ok (mark_types_dirty now s') L" using assms(1) that by (simp add: state_ok_def rec)
    show "sched_ok (mark_types_dirty now s') L" using that by (simp add: sched_ok_Nil)
  qed (use that in simp_all)
  have refresh: "state_ok (mark_types_dirty now s) L"
    using assms(1) rec [of s]
    by (simp add: state_ok_def names_ok_def quiet_ok_def disjoint_ok_def relay_ok_def sched_ok_def)
  show ?thesis
  proof (cases c)
    case BootstrapCompleted
    then show ?thesis by (simp add: clear relay_ready_def)
  next
    case Reannounce
    then show ?thesis by (simp add: clear relay_ready_def)
  next
    case RefreshTypes
    with refresh show ?thesis by simp
  qed (use assms state_ok_relay_change in simp_all)
qed

lemma state_ok_reset:
  assumes "state_ok s L"
  shows "state_ok (handle Reset now s) {}"
proof -
  have "tracked (handle Reset now s) = {}" by (simp add: tracked_def)
  moreover have "job_names {} = {}" by (simp add: job_names_def)
  moreover have "types_ok (re_known_types s)" using assms by (simp add: state_ok_def reconcile_ok_def)
  ultimately show ?thesis
    by (simp add: state_ok_def names_ok_def quiet_ok_def disjoint_ok_def relay_ok_def sched_ok_def
        reconcile_ok_def)
qed

text \<open>Two states that differ in their deadlines, failure counts, retry times and bookkeeping at most.\<close>

definition same_core :: "registry_state \<Rightarrow> registry_state \<Rightarrow> bool" where
  "same_core s s' \<longleftrightarrow>
     re_bootstrapped s' = re_bootstrapped s \<and> re_need_relay s' = re_need_relay s
     \<and> re_active_relays s' = re_active_relays s \<and> re_backend_ready s' = re_backend_ready s
     \<and> re_announced s' = re_announced s \<and> re_relay_withdraw s' = re_relay_withdraw s
     \<and> re_announce_inflight s' = re_announce_inflight s
     \<and> re_withdraw_inflight s' = re_withdraw_inflight s \<and> re_known_types s' = re_known_types s
     \<and> re_reconcile s' = re_reconcile s \<and> re_pending_types_write s' = re_pending_types_write s
     \<and> re_generation s' = re_generation s"

lemma same_core_refl: "same_core s s"
  by (simp add: same_core_def)

lemma same_core_trans: "same_core s s' \<Longrightarrow> same_core s' s'' \<Longrightarrow> same_core s s''"
  by (simp add: same_core_def)

lemma fold_backend_up:
  "same_core s (fold backend_up xs s)
   \<and> hm_keys (re_withdraw_deadline (fold backend_up xs s)) = hm_keys (re_withdraw_deadline s) - set xs
   \<and> hm_keys (re_announce_retry_at (fold backend_up xs s)) = hm_keys (re_announce_retry_at s) - set xs"
proof (induction xs arbitrary: s)
  case (Cons x xs)
  have core: "same_core s (backend_up x s)" by (simp add: same_core_def backend_up_def)
  have "hm_keys (re_withdraw_deadline (backend_up x s)) = hm_keys (re_withdraw_deadline s) - {x}"
    "hm_keys (re_announce_retry_at (backend_up x s)) = hm_keys (re_announce_retry_at s) - {x}"
    by (simp_all add: backend_up_def)
  with Cons [of "backend_up x s"] same_core_trans [OF core, of "fold backend_up xs (backend_up x s)"]
  show ?case by auto
qed (simp add: same_core_refl)

lemma fold_backend_down:
  "same_core s (fold (backend_down now) xs s)
   \<and> hm_keys (re_withdraw_deadline (fold (backend_down now) xs s))
       = hm_keys (re_withdraw_deadline s) \<union> (set xs \<inter> set (re_announced s))
   \<and> hm_keys (re_announce_retry_at (fold (backend_down now) xs s)) = hm_keys (re_announce_retry_at s) - set xs"
proof (induction xs arbitrary: s)
  case (Cons x xs)
  have core: "same_core s (backend_down now x s)"
    by (simp add: same_core_def backend_down_def Let_def)
  have "hm_keys (re_withdraw_deadline (backend_down now x s))
      = hm_keys (re_withdraw_deadline s) \<union> ({x} \<inter> set (re_announced s))"
    by (auto simp: backend_down_def Let_def hm_get_None_iff split: option.splits
        dest: map_of_SomeD intro: rev_image_eqI)
  moreover have "hm_keys (re_announce_retry_at (backend_down now x s)) = hm_keys (re_announce_retry_at s) - {x}"
    by (auto simp: backend_down_def Let_def)
  moreover have "re_announced (backend_down now x s) = re_announced s"
    using core by (simp add: same_core_def)
  ultimately show ?case
    using Cons [of "backend_down now x s"]
      same_core_trans [OF core, of "fold (backend_down now) xs (backend_down now x s)"] by auto
qed (simp add: same_core_refl)

lemma replace_backend_ready_fields:
  fixes ready s now
  defines "s' \<equiv> replace_backend_ready ready now s"
  shows "same_core (s\<lparr>re_backend_ready := ready\<rparr>) s'
     \<and> hm_keys (re_withdraw_deadline s') =
         hm_keys (re_withdraw_deadline s) - (set ready - set (re_backend_ready s))
         \<union> ((set (re_backend_ready s) - set ready) \<inter> set (re_announced s))
     \<and> hm_keys (re_announce_retry_at s') \<subseteq> hm_keys (re_announce_retry_at s)"
proof -
  let ?s0 = "s\<lparr>re_backend_ready := ready\<rparr>"
  let ?s1 = "fold backend_up (filter (\<lambda>x. x \<notin> set (re_backend_ready s)) ready) ?s0"
  note up = fold_backend_up [of ?s0 "filter (\<lambda>x. x \<notin> set (re_backend_ready s)) ready"]
  note down = fold_backend_down [of ?s1 now "filter (\<lambda>x. x \<notin> set ready) (re_backend_ready s)"]
  have s': "s' = fold (backend_down now) (filter (\<lambda>x. x \<notin> set ready) (re_backend_ready s)) ?s1"
    unfolding s'_def replace_backend_ready_def Let_def by simp
  have "re_announced ?s1 = re_announced s" using up by (simp add: same_core_def)
  then show ?thesis
    using up down same_core_trans [of ?s0 ?s1] unfolding s' by auto
qed

lemma state_ok_replace:
  assumes "state_ok s L"
  shows "state_ok (replace_backend_ready ready now s) L
     \<and> re_generation (replace_backend_ready ready now s) = re_generation s"
proof -
  let ?s' = "replace_backend_ready ready now s"
  note f = replace_backend_ready_fields [where ready = ready and now = now and s = s]
  have core: "same_core (s\<lparr>re_backend_ready := ready\<rparr>) ?s'" using f by blast
  have "tracked ?s' \<subseteq> tracked s"
    using f unfolding tracked_def same_core_def by auto
  moreover have "relay_ok ?s'" "reconcile_ok ?s' L"
    using assms core by (simp_all add: state_ok_def relay_ok_def reconcile_ok_def same_core_def relay_ready_def)
  moreover have "sched_ok ?s' L"
    using assms f unfolding state_ok_def sched_ok_def same_core_def by auto
  ultimately have "state_ok ?s' L"
    by (intro state_ok_shrink [OF assms]) (use core in \<open>simp_all add: same_core_def\<close>)
  with core show ?thesis by (simp add: same_core_def)
qed

section \<open>What the planner schedules\<close>

fun job_generation :: "job_spec \<Rightarrow> u64" where
  "job_generation (Announce g x k) = g"
| "job_generation (Withdraw g x k) = g"
| "job_generation (ReadTypes g) = g"
| "job_generation (WriteTypes g v) = g"

fun service_job :: "job_spec \<Rightarrow> bool" where
  "service_job (Announce g x k) \<longleftrightarrow> True"
| "service_job (Withdraw g x k) \<longleftrightarrow> True"
| "service_job (ReadTypes g) \<longleftrightarrow> False"
| "service_job (WriteTypes g v) \<longleftrightarrow> False"

text \<open>Invariant of the loops: the jobs so far belong to the state, and the slots account for them.\<close>

definition planned :: "registry_state \<Rightarrow> job_spec set \<Rightarrow> nat \<Rightarrow> registry_state \<times> nat \<times> job_spec list \<Rightarrow> bool" where
  "planned s0 L n = (\<lambda>(s, slots, jobs).
     state_ok s (L \<union> set jobs) \<and> slots + length jobs = n
     \<and> re_generation s = re_generation s0 \<and> re_bootstrapped s = re_bootstrapped s0
     \<and> re_need_relay s = re_need_relay s0 \<and> re_active_relays s = re_active_relays s0
     \<and> re_backend_ready s = re_backend_ready s0 \<and> re_announced s = re_announced s0
     \<and> re_relay_withdraw s = re_relay_withdraw s0
     \<and> hm_keys (re_announce_retry_at s) \<subseteq> hm_keys (re_announce_retry_at s0)
     \<and> set (re_announce_inflight s0) \<subseteq> set (re_announce_inflight s)
     \<and> (\<forall>j \<in> set jobs. job_generation j = re_generation s0)
     \<and> (\<forall>g x k. Announce g x k \<in> set jobs \<longrightarrow>
          k = provider_key x \<and> relay_ready s0 \<and> x \<in> set (re_backend_ready s0) - set (re_announced s0)
          \<and> x \<in> set (re_announce_inflight s) - set (re_announce_inflight s0))
     \<and> (\<forall>g x k. Withdraw g x k \<in> set jobs \<longrightarrow>
          k = provider_key x \<and> x \<in> hm_keys (re_withdraw_deadline s0) - set (re_backend_ready s0)
            \<union> set (re_relay_withdraw s0)))"

lemma planned_start: "state_ok s L \<Longrightarrow> planned s L n (s, n, [])"
  by (simp add: planned_def)

lemma planned_withdraw:
  assumes "planned s0 L n (s, slots, jobs)" and "slots \<noteq> 0"
    and "x \<in> hm_keys (re_withdraw_deadline s0) - set (re_backend_ready s0) \<union> set (re_relay_withdraw s0)"
    and "x \<notin> set (re_withdraw_inflight s)" "x \<notin> set (re_announce_inflight s)"
    and "is_valid_service_name x" "re_bootstrapped s"
  shows "planned s0 L n
     (s\<lparr>re_withdraw_deadline := hm_del x (re_withdraw_deadline s),
        re_relay_withdraw_retry_at := (re_relay_withdraw_retry_at s)(x := None),
        re_withdraw_inflight := List.insert x (re_withdraw_inflight s)\<rparr>,
      slots - 1, jobs @ [Withdraw (re_generation s) x (provider_key x)])"
proof -
  let ?s = "s\<lparr>re_withdraw_deadline := hm_del x (re_withdraw_deadline s),
        re_relay_withdraw_retry_at := (re_relay_withdraw_retry_at s)(x := None),
        re_withdraw_inflight := List.insert x (re_withdraw_inflight s)\<rparr>"
  let ?L = "L \<union> set (jobs @ [Withdraw (re_generation s) x (provider_key x)])"
  have ok: "state_ok s (L \<union> set jobs)" using assms(1) by (simp add: planned_def)
  have jn: "job_names ?L = insert x (job_names (L \<union> set jobs))"
    "withdrawing ?L = insert x (withdrawing (L \<union> set jobs))"
    by (auto simp: job_names_def withdrawing_def)
  have tr: "tracked ?s \<subseteq> insert x (tracked s)" by (auto simp: tracked_def)
  have "names_ok ?s ?L" "quiet_ok ?s ?L"
    using ok tr assms(6,7) unfolding names_ok_def quiet_ok_def state_ok_def jn by auto
  moreover have "disjoint_ok ?s" "relay_ok ?s"
    using ok assms(5) by (auto simp: state_ok_defs relay_ready_def)
  moreover have "sched_ok ?s ?L"
    using ok unfolding sched_ok_def state_ok_def jn by auto
  moreover have "reconcile_ok ?s ?L" using ok by (auto simp: state_ok_defs)
  ultimately have "state_ok ?s ?L" by (simp add: state_ok_def)
  with assms(1-3) show ?thesis by (auto simp: planned_def)
qed

lemma planned_announce:
  assumes "planned s0 L n (s, slots, jobs)" and "slots \<noteq> 0" and "relay_ready s0"
    and "x \<in> set (re_backend_ready s0) - set (re_announced s0)"
    and "x \<notin> set (re_withdraw_inflight s)" "x \<notin> set (re_announce_inflight s)"
    and "is_valid_service_name x" "re_bootstrapped s"
  shows "planned s0 L n
     (start_announce x s, slots - 1, jobs @ [Announce (re_generation s) x (provider_key x)])"
proof -
  let ?s = "start_announce x s"
  let ?L = "L \<union> set (jobs @ [Announce (re_generation s) x (provider_key x)])"
  have ok: "state_ok s (L \<union> set jobs)" using assms(1) by (simp add: planned_def)
  have ready: "relay_ready s" using assms(1,3) by (simp add: planned_def relay_ready_def)
  have jn: "job_names ?L = insert x (job_names (L \<union> set jobs))" "withdrawing ?L = withdrawing (L \<union> set jobs)"
    by (auto simp: job_names_def withdrawing_def)
  have tr: "tracked ?s \<subseteq> insert x (tracked s)" by (auto simp: tracked_def start_announce_def)
  have "names_ok ?s ?L" "quiet_ok ?s ?L"
    using ok tr assms(7,8) unfolding names_ok_def quiet_ok_def state_ok_def jn
    by (auto simp: start_announce_def)
  moreover have "disjoint_ok ?s" "relay_ok ?s"
    using ok ready assms(5) by (auto simp: state_ok_def disjoint_ok_def relay_ok_def relay_ready_def start_announce_def)
  moreover have "sched_ok ?s ?L"
    using ok unfolding sched_ok_def state_ok_def jn by (simp add: start_announce_def)
  moreover have "reconcile_ok ?s ?L" using ok by (auto simp: state_ok_def reconcile_ok_def start_announce_def)
  ultimately have "state_ok ?s ?L" by (simp add: state_ok_def)
  with assms(1-6) show ?thesis by (auto simp: planned_def start_announce_def)
qed

lemma planned_withdrawals:
  assumes "planned s0 L n st"
    and "\<And>x. x \<in> set due \<Longrightarrow> is_valid_service_name x \<and> re_bootstrapped s0
      \<and> x \<in> hm_keys (re_withdraw_deadline s0) - set (re_backend_ready s0) \<union> set (re_relay_withdraw s0)"
  shows "planned s0 L n (plan_withdrawals due st)"
  using assms
proof (induction due arbitrary: st)
  case (Cons x due)
  obtain s slots jobs where st: "st = (s, slots, jobs)" by (metis prod_cases3)
  have boot: "re_bootstrapped s = re_bootstrapped s0" using Cons.prems(1) st by (simp add: planned_def)
  show ?case
  proof (cases "slots = 0 \<or> x \<in> set (re_withdraw_inflight s) \<or> x \<in> set (re_announce_inflight s)")
    case True
    with Cons st show ?thesis by auto
  next
    case False
    then have "planned s0 L n
      (s\<lparr>re_withdraw_deadline := hm_del x (re_withdraw_deadline s),
         re_relay_withdraw_retry_at := (re_relay_withdraw_retry_at s)(x := None),
         re_withdraw_inflight := List.insert x (re_withdraw_inflight s)\<rparr>,
       slots - 1, jobs @ [Withdraw (re_generation s) x (provider_key x)])"
      using Cons.prems(1) Cons.prems(2) [of x] st boot by (intro planned_withdraw) simp_all
    from Cons.IH [OF this Cons.prems(2) [OF list.set_intros(2)]] False st show ?thesis by simp
  qed
next
  case Nil
  then show ?case by (cases st) simp
qed

lemma planned_retries:
  assumes "planned s0 L n st"
    and "\<And>x. x \<in> set xs \<Longrightarrow> is_valid_service_name x \<and> re_bootstrapped s0 \<and> relay_ready s0
      \<and> x \<in> set (re_backend_ready s0) - set (re_announced s0)"
  shows "planned s0 L n (plan_retries xs st)"
  using assms
proof (induction xs arbitrary: st)
  case (Cons x xs)
  obtain s slots jobs where st: "st = (s, slots, jobs)" by (metis prod_cases3)
  have boot: "re_bootstrapped s = re_bootstrapped s0" using Cons.prems(1) st by (simp add: planned_def)
  show ?case
  proof (cases "slots = 0 \<or> x \<in> set (re_withdraw_inflight s) \<or> x \<in> set (re_announce_inflight s)")
    case True
    with Cons st show ?thesis by auto
  next
    case False
    then have "planned s0 L n
      (start_announce x s, slots - 1, jobs @ [Announce (re_generation s) x (provider_key x)])"
      using Cons.prems(1) Cons.prems(2) [of x] st boot by (intro planned_announce) simp_all
    from Cons.IH [OF this Cons.prems(2) [OF list.set_intros(2)]] False st show ?thesis by simp
  qed
next
  case Nil
  then show ?case by (cases st) simp
qed

lemma planned_local:
  assumes "planned s0 L n st" and "re_bootstrapped s0" and "relay_ready s0"
    and "\<And>x. x \<in> set xs \<Longrightarrow> is_valid_service_name x"
  shows "planned s0 L n (plan_local now xs st)"
  using assms
proof (induction xs arbitrary: st)
  case (Cons x xs)
  obtain s slots jobs where st: "st = (s, slots, jobs)" by (metis prod_cases3)
  have s: "re_bootstrapped s = re_bootstrapped s0" "re_backend_ready s = re_backend_ready s0"
    "re_announced s = re_announced s0" using Cons.prems(1) st by (simp_all add: planned_def)
  show ?case
  proof (cases "slots = 0 \<or> x \<notin> set (re_backend_ready s) \<or> x \<in> set (re_announced s)
      \<or> x \<in> set (re_announce_inflight s) \<or> x \<in> set (re_withdraw_inflight s)
      \<or> (case hm_get (re_announce_retry_at s) x of None \<Rightarrow> False | Some at \<Rightarrow> at > now)")
    case True
    with Cons st show ?thesis by auto
  next
    case False
    then have "planned s0 L n
      (start_announce x s, slots - 1, jobs @ [Announce (re_generation s) x (provider_key x)])"
      using Cons.prems(1,2,3) Cons.prems(4) [of x] st s by (intro planned_announce) simp_all
    from Cons.IH [OF this Cons.prems(2,3) Cons.prems(4) [OF list.set_intros(2)]] False st
    show ?thesis by simp
  qed
next
  case Nil
  then show ?case by (cases st) simp
qed

lemma due_withdrawals_mem:
  "x \<in> set (due_withdrawals now s) \<Longrightarrow>
     x \<in> hm_keys (re_withdraw_deadline s) - set (re_backend_ready s) \<union> set (re_relay_withdraw s)"
  by (auto simp: due_withdrawals_def)

lemma due_retries_mem:
  "x \<in> set (due_retries now s) \<Longrightarrow> x \<in> hm_keys (re_announce_retry_at s) \<and> relay_ready s
     \<and> x \<in> set (re_backend_ready s) - set (re_announced s)"
  by (auto simp: due_retries_def)

lemma tracked_valid: "state_ok s L \<Longrightarrow> x \<in> tracked s \<Longrightarrow> is_valid_service_name x \<and> re_bootstrapped s"
  by (auto simp: state_ok_def names_ok_def quiet_ok_def)

text \<open>The three announcing loops together.\<close>

definition plan_services :: "node_config \<Rightarrow> instant \<Rightarrow> nat \<Rightarrow> registry_state
    \<Rightarrow> registry_state \<times> nat \<times> job_spec list" where
  "plan_services config now slots s =
     (case plan_withdrawals (due_withdrawals now s) (s, slots, []) of
        (s, slots, jobs) \<Rightarrow>
      (case plan_retries (due_retries now s) (s, slots, jobs) of
        (s, slots, jobs) \<Rightarrow>
        (if re_bootstrapped s \<and> relay_ready s \<and> slots > 0
         then plan_local now (local_names config) (s, slots, jobs)
         else (s, slots, jobs))))"

lemma plan_split: "plan config now slots s = plan_types now (plan_services config now slots s)"
  by (simp add: plan_def plan_services_def split: prod.splits)

lemma planned_services:
  assumes "state_ok s L"
  shows "planned s L slots (plan_services config now slots s)"
proof -
  obtain s1 n1 j1 where p1: "plan_withdrawals (due_withdrawals now s) (s, slots, []) = (s1, n1, j1)"
    by (metis prod_cases3)
  obtain s2 n2 j2 where p2: "plan_retries (due_retries now s1) (s1, n1, j1) = (s2, n2, j2)"
    by (metis prod_cases3)
  have "x \<in> tracked s" if "x \<in> set (due_withdrawals now s)" for x
    using due_withdrawals_mem [OF that] by (auto simp: tracked_def)
  then have 1: "planned s L slots (s1, n1, j1)"
    unfolding p1 [symmetric] using tracked_valid [OF assms] due_withdrawals_mem [of _ now s]
    by (intro planned_withdrawals planned_start assms) blast
  have "x \<in> tracked s" if "x \<in> set (due_retries now s1)" for x
    using due_retries_mem [OF that] 1 by (auto simp: planned_def tracked_def)
  then have 2: "planned s L slots (s2, n2, j2)"
    unfolding p2 [symmetric] using tracked_valid [OF assms] due_retries_mem [of _ now s1] 1
    by (intro planned_retries 1) (auto simp: planned_def relay_ready_def)
  have "planned s L slots (plan_local now (local_names config) (s2, n2, j2))"
    if "re_bootstrapped s2" "relay_ready s2"
    using that 2 by (intro planned_local 2) (auto simp: planned_def relay_ready_def local_names_def)
  with 2 show ?thesis by (simp add: plan_services_def p1 p2)
qed

text \<open>What a plan is allowed to contain, in terms of the state it was made in.\<close>

definition plan_sound :: "registry_state \<Rightarrow> job_spec list \<Rightarrow> bool" where
  "plan_sound s jobs \<longleftrightarrow>
     (\<forall>j \<in> set jobs. job_generation j = re_generation s)
     \<and> (\<forall>g x k. Announce g x k \<in> set jobs \<longrightarrow>
          k = provider_key x \<and> is_valid_service_name x \<and> re_bootstrapped s \<and> relay_ready s
          \<and> x \<in> set (re_backend_ready s) \<and> x \<notin> set (re_announced s)
          \<and> x \<notin> set (re_announce_inflight s))
     \<and> (\<forall>g x k. Withdraw g x k \<in> set jobs \<longrightarrow>
          k = provider_key x
          \<and> (x \<in> hm_keys (re_withdraw_deadline s) \<and> x \<notin> set (re_backend_ready s)
             \<or> x \<in> set (re_relay_withdraw s)))"

lemma plan_types_ok:
  assumes "state_ok s (L \<union> set jobs)" and "plan_types now (s, slots, jobs) = (s', jobs')"
  shows "state_ok s' (L \<union> set jobs') \<and> re_generation s' = re_generation s
     \<and> length jobs' \<le> slots + length jobs
     \<and> (jobs' = jobs \<or> (\<exists>j. jobs' = jobs @ [j] \<and> job_generation j = re_generation s
          \<and> \<not> service_job j))"
proof -
  have add: "state_ok s1 (L \<union> set (jobs @ [j]))"
    if "tracked s1 = tracked s" "same_core (s\<lparr>re_reconcile := re_reconcile s1, re_pending_types_write := re_pending_types_write s1\<rparr>) s1"
      "re_withdraw_deadline s1 = re_withdraw_deadline s"
      "reconcile_ok s1 (L \<union> set (jobs @ [j]))" "\<not> service_job j" for s1 j
  proof -
    have "job_names (L \<union> set (jobs @ [j])) = job_names (L \<union> set jobs)"
      "withdrawing (L \<union> set (jobs @ [j])) = withdrawing (L \<union> set jobs)"
      using that(5) by (auto simp: job_names_def withdrawing_def)
    with assms(1) that show ?thesis
      by (simp add: state_ok_def names_ok_def quiet_ok_def disjoint_ok_def relay_ok_def sched_ok_def
          same_core_def relay_ready_def)
  qed
  show ?thesis
  proof (cases "slots = 0")
    case True
    with assms show ?thesis by (simp add: plan_types_def)
  next
    case False
    show ?thesis
    proof (cases "re_reconcile s")
      case Idle
      let ?s1 = "s\<lparr>re_next_types_sync := None, re_reconcile := Reading, re_reconcile_dirty := False\<rparr>"
      have "state_ok ?s1 (L \<union> set (jobs @ [ReadTypes (re_generation s)]))"
        using assms(1) Idle
        by (intro add) (auto simp: tracked_def same_core_def state_ok_def reconcile_ok_def)
      with assms False Idle show ?thesis
        by (auto simp: plan_types_def Let_def split: if_splits)
    next
      case ReadyToWrite
      then obtain v where v: "re_pending_types_write s = Some v"
        using assms(1) by (auto simp: state_ok_def reconcile_ok_def)
      let ?s1 = "s\<lparr>re_pending_types_write := None, re_reconcile := Writing\<rparr>"
      have "state_ok ?s1 (L \<union> set (jobs @ [WriteTypes (re_generation s) v]))"
        using assms(1)
        by (intro add) (auto simp: tracked_def same_core_def state_ok_def reconcile_ok_def)
      with assms False ReadyToWrite v show ?thesis by (auto simp: plan_types_def)
    qed (use assms False in \<open>auto simp: plan_types_def\<close>)
  qed
qed

lemma plan_ok:
  assumes "state_ok s L" and "plan config now slots s = (s', jobs)"
  shows "state_ok s' (L \<union> set jobs) \<and> re_generation s' = re_generation s \<and> length jobs \<le> slots
     \<and> plan_sound s jobs"
proof -
  obtain s1 n1 j1 where p: "plan_services config now slots s = (s1, n1, j1)" by (metis prod_cases3)
  have pl: "planned s L slots (s1, n1, j1)" using planned_services [OF assms(1)] p by metis
  have t: "plan_types now (s1, n1, j1) = (s', jobs)" using assms(2) p by (simp add: plan_split)
  have ok1: "state_ok s1 (L \<union> set j1)" and gen: "re_generation s1 = re_generation s"
    and len: "n1 + length j1 = slots" and boot: "re_bootstrapped s1 = re_bootstrapped s"
    using pl by (simp_all add: planned_def)
  note r = plan_types_ok [OF ok1 t]
  have names: "is_valid_service_name x \<and> re_bootstrapped s" if "Announce g x k \<in> set j1" for g x k
  proof -
    have "x \<in> job_names (L \<union> set j1)" using that by (auto simp: job_names_def)
    with ok1 boot show ?thesis by (auto simp: state_ok_def names_ok_def quiet_ok_def)
  qed
  have "plan_sound s j1"
    using pl names unfolding planned_def plan_sound_def by blast
  moreover have "Announce g x k \<in> set jobs \<longleftrightarrow> Announce g x k \<in> set j1"
    "Withdraw g x k \<in> set jobs \<longleftrightarrow> Withdraw g x k \<in> set j1" for g x k using r by auto
  moreover have "\<forall>j \<in> set jobs. job_generation j = re_generation s"
    using r gen pl by (auto simp: planned_def)
  ultimately have "plan_sound s jobs" by (simp add: plan_sound_def)
  with r gen len show ?thesis by simp
qed

lemma plan_types_keeps:
  "plan_types now (s, slots, jobs) = (s', jobs') \<Longrightarrow>
     re_bootstrapped s' = re_bootstrapped s \<and> relay_ready s' = relay_ready s
     \<and> re_backend_ready s' = re_backend_ready s \<and> re_announced s' = re_announced s"
  by (auto simp: plan_types_def Let_def relay_ready_def
      split: if_splits reconcile_state.splits option.splits)

lemma plan_keeps:
  assumes "state_ok s L" and "plan config now slots s = (s', jobs)"
  shows "re_bootstrapped s' = re_bootstrapped s \<and> relay_ready s' = relay_ready s
     \<and> re_backend_ready s' = re_backend_ready s \<and> re_announced s' = re_announced s"
proof -
  obtain s1 n1 j1 where p: "plan_services config now slots s = (s1, n1, j1)" by (metis prod_cases3)
  have pl: "planned s L slots (s1, n1, j1)" using planned_services [OF assms(1)] p by metis
  have "plan_types now (s1, n1, j1) = (s', jobs)" using assms(2) p by (simp add: plan_split)
  from plan_types_keeps [OF this] pl show ?thesis by (simp add: planned_def relay_ready_def)
qed

section \<open>What results change\<close>

text \<open>A finished job leaves the set of jobs of the current generation.\<close>

definition finished :: "job_spec \<Rightarrow> job_spec set \<Rightarrow> job_spec set \<Rightarrow> bool" where
  "finished spec L L' \<longleftrightarrow> L' \<subseteq> L \<and> L - {spec} \<subseteq> L'"

lemma job_names_mono: "L' \<subseteq> L \<Longrightarrow> job_names L' \<subseteq> job_names L"
  by (auto simp: job_names_def)

lemma names_quiet_mono:
  assumes "state_ok s L" and "L' \<subseteq> L" and "tracked s' \<subseteq> tracked s"
    and "re_bootstrapped s' = re_bootstrapped s"
  shows "names_ok s' L' \<and> quiet_ok s' L'"
  using assms job_names_mono [OF assms(2)] unfolding state_ok_def names_ok_def quiet_ok_def by blast

lemma names_quiet_insert:
  assumes "names_ok s L" and "is_valid_service_name x" and "re_bootstrapped s'"
    and "tracked s' \<subseteq> insert x (tracked s)"
  shows "names_ok s' L \<and> quiet_ok s' L"
  using assms unfolding names_ok_def quiet_ok_def by blast

lemma reconcile_ok_finished:
  assumes "reconcile_ok s L" and "finished spec L L'" and "service_job spec"
    and "re_reconcile s' = re_reconcile s" "re_known_types s' = re_known_types s"
      "re_pending_types_write s' = re_pending_types_write s"
  shows "reconcile_ok s' L'"
proof -
  have "ReadTypes g \<in> L \<longleftrightarrow> ReadTypes g \<in> L'" "WriteTypes g v \<in> L \<longleftrightarrow> WriteTypes g v \<in> L'" for g v
    using assms(2,3) by (auto simp: finished_def)
  with assms show ?thesis by (simp add: reconcile_ok_def)
qed

text \<open>Taking a service out of the sets of running jobs, whatever the generation of its result.\<close>

lemma state_ok_announce_gone:
  assumes "state_ok s L" and "finished (Announce g x k) L L'"
  shows "state_ok (s\<lparr>re_announce_inflight := removeAll x (re_announce_inflight s)\<rparr>) L'"
proof -
  let ?s = "s\<lparr>re_announce_inflight := removeAll x (re_announce_inflight s)\<rparr>"
  have "tracked ?s \<subseteq> tracked s" by (auto simp: tracked_def)
  with assms have "names_ok ?s L' \<and> quiet_ok ?s L'"
    by (intro names_quiet_mono [OF assms(1)]) (auto simp: finished_def)
  moreover have "withdrawing L \<subseteq> withdrawing L'"
    using assms(2) by (auto simp: withdrawing_def finished_def)
  then have "sched_ok ?s L'" using assms(1) by (auto simp: state_ok_def sched_ok_def)
  moreover have "reconcile_ok ?s L'"
    using assms by (intro reconcile_ok_finished [OF _ assms(2)]) (auto simp: state_ok_def)
  moreover have "disjoint_ok ?s" "relay_ok ?s"
    using assms(1) by (auto simp: state_ok_def disjoint_ok_def relay_ok_def relay_ready_def)
  ultimately show ?thesis by (simp add: state_ok_def)
qed

lemma state_ok_announce_ok:
  assumes "state_ok s L" and "is_valid_service_name x" and "re_bootstrapped s"
  shows "state_ok (announce_ok x now s) L"
proof -
  let ?s' = "announce_ok x now s"
  have boot: "re_bootstrapped ?s'" using assms(3) by (simp add: announce_ok_def Let_def)
  have "tracked ?s' \<subseteq> insert x (tracked s)"
    by (auto simp: announce_ok_def Let_def tracked_def mark_types_dirty_def)
  with assms boot have "names_ok ?s' L \<and> quiet_ok ?s' L"
    by (intro names_quiet_insert [of s]) (simp_all add: state_ok_def)
  moreover have "disjoint_ok ?s'"
    using assms(1) by (simp add: state_ok_def disjoint_ok_def announce_ok_def Let_def)
  moreover have "relay_ready ?s' = relay_ready s"
    by (simp add: announce_ok_def Let_def relay_ready_def)
  then have "relay_ok ?s'"
    using assms(1) by (auto simp: state_ok_def relay_ok_def announce_ok_def Let_def relay_ready_def)
  moreover have "sched_ok ?s' L"
    using assms(1) by (auto simp: state_ok_def sched_ok_def announce_ok_def Let_def)
  moreover have "reconcile_ok ?s' L"
    using assms(1) by (simp add: state_ok_def reconcile_ok_def announce_ok_def Let_def)
  ultimately show ?thesis by (simp add: state_ok_def)
qed

lemma state_ok_announce_err:
  assumes "state_ok s L" and "is_valid_service_name x" and "re_bootstrapped s"
  shows "state_ok (announce_err x now s) L"
proof -
  let ?s' = "announce_err x now s"
  have "re_bootstrapped ?s'" using assms(3) by (simp add: announce_err_def Let_def)
  moreover have "tracked ?s' \<subseteq> insert x (tracked s)"
    by (auto simp: announce_err_def Let_def tracked_def)
  ultimately have "names_ok ?s' L \<and> quiet_ok ?s' L"
    using assms by (intro names_quiet_insert [of s]) (simp_all add: state_ok_def)
  moreover have "disjoint_ok ?s'" "relay_ok ?s'" "sched_ok ?s' L" "reconcile_ok ?s' L"
    using assms(1)
    by (simp_all add: state_ok_def disjoint_ok_def relay_ok_def sched_ok_def reconcile_ok_def
        announce_err_def Let_def relay_ready_def)
  ultimately show ?thesis by (simp add: state_ok_def)
qed

lemma state_ok_withdrawn:
  assumes "state_ok s L" and "finished (Withdraw g x k) L L'"
    and "is_valid_service_name x" and "re_bootstrapped s"
    and s1: "s1 = s\<lparr>re_withdraw_inflight := removeAll x (re_withdraw_inflight s)\<rparr>"
  shows "state_ok (withdraw_ok x now s1) L'" and "state_ok (withdraw_err x now s1) L'"
proof -
  have sub: "L' \<subseteq> L" and w: "withdrawing L \<subseteq> insert x (withdrawing L')"
    using assms(2) by (auto simp: finished_def withdrawing_def)
  have sched: "set (re_announced s) - {x} \<subseteq> set (re_backend_ready s) \<union> hm_keys (re_withdraw_deadline s)
      \<union> set (re_relay_withdraw s) \<union> withdrawing L'"
    using assms(1) w by (auto simp: state_ok_def sched_ok_def)
  have names: "names_ok s L'"
    using assms(1) job_names_mono [OF sub] by (auto simp: state_ok_def names_ok_def)
  have rec: "reconcile_ok s' L'"
    if "re_reconcile s' = re_reconcile s" "re_known_types s' = re_known_types s"
      "re_pending_types_write s' = re_pending_types_write s" for s'
    using assms(1) that by (intro reconcile_ok_finished [OF _ assms(2)]) (simp_all add: state_ok_def)
  show "state_ok (withdraw_ok x now s1) L'"
  proof -
    let ?s' = "withdraw_ok x now s1"
    have "tracked ?s' \<subseteq> insert x (tracked s)" by (auto simp: withdraw_ok_def Let_def tracked_def s1)
    then have "names_ok ?s' L' \<and> quiet_ok ?s' L'"
      by (intro names_quiet_insert [OF names assms(3)])
        (use assms(4) in \<open>simp_all add: withdraw_ok_def Let_def s1\<close>)
    moreover have "disjoint_ok ?s'" "relay_ok ?s'"
      using assms(1) by (auto simp: state_ok_def disjoint_ok_def relay_ok_def withdraw_ok_def Let_def
          relay_ready_def s1)
    moreover have "sched_ok ?s' L'" using sched by (auto simp: sched_ok_def withdraw_ok_def Let_def s1)
    moreover have "reconcile_ok ?s' L'" by (intro rec) (simp_all add: withdraw_ok_def Let_def s1)
    ultimately show ?thesis by (simp add: state_ok_def)
  qed
  show "state_ok (withdraw_err x now s1) L'"
  proof -
    let ?s' = "withdraw_err x now s1"
    have "tracked ?s' \<subseteq> insert x (tracked s)" by (auto simp: withdraw_err_def tracked_def s1)
    then have "names_ok ?s' L' \<and> quiet_ok ?s' L'"
      by (intro names_quiet_insert [OF names assms(3)])
        (use assms(4) in \<open>simp_all add: withdraw_err_def s1\<close>)
    moreover have "disjoint_ok ?s'" "relay_ok ?s'"
      using assms(1) by (auto simp: state_ok_def disjoint_ok_def relay_ok_def withdraw_err_def
          relay_ready_def s1)
    moreover have "sched_ok ?s' L'" using sched by (auto simp: sched_ok_def withdraw_err_def s1)
    moreover have "reconcile_ok ?s' L'" by (intro rec) (simp_all add: withdraw_err_def s1)
    ultimately show ?thesis by (simp add: state_ok_def)
  qed
qed

lemma state_ok_withdraw_stale:
  assumes "state_ok s L"
  shows "state_ok (s\<lparr>re_withdraw_inflight := removeAll x (re_withdraw_inflight s)\<rparr>) L"
proof -
  let ?s = "s\<lparr>re_withdraw_inflight := removeAll x (re_withdraw_inflight s)\<rparr>"
  have "tracked ?s \<subseteq> tracked s" by (auto simp: tracked_def)
  then have "names_ok ?s L \<and> quiet_ok ?s L" by (intro names_quiet_mono [OF assms]) auto
  moreover have "disjoint_ok ?s" "relay_ok ?s" "sched_ok ?s L" "reconcile_ok ?s L"
    using assms by (auto simp: state_ok_def disjoint_ok_def relay_ok_def sched_ok_def reconcile_ok_def
        relay_ready_def)
  ultimately show ?thesis by (simp add: state_ok_def)
qed

text \<open>The reconciliation of the types touches nothing but its own fields.\<close>

lemma state_ok_types:
  assumes "state_ok s L" and "L' \<subseteq> L" and "withdrawing L' = withdrawing L"
    and "tracked s' = tracked s" and "same_core (s\<lparr>re_known_types := re_known_types s',
        re_reconcile := re_reconcile s', re_pending_types_write := re_pending_types_write s'\<rparr>) s'"
    and "re_withdraw_deadline s' = re_withdraw_deadline s" and "reconcile_ok s' L'"
  shows "state_ok s' L'"
proof -
  have "names_ok s' L' \<and> quiet_ok s' L'"
    using assms(4,5) by (intro names_quiet_mono [OF assms(1,2)]) (simp_all add: same_core_def)
  with assms show ?thesis
    by (simp add: state_ok_def disjoint_ok_def relay_ok_def sched_ok_def same_core_def relay_ready_def)
qed

lemma reconcile_idle_fields:
  "same_core (s\<lparr>re_reconcile := Idle, re_pending_types_write := None\<rparr>) (reconcile_idle next now s)
   \<and> tracked (reconcile_idle next now s) = tracked s
   \<and> re_withdraw_deadline (reconcile_idle next now s) = re_withdraw_deadline s"
  by (simp add: reconcile_idle_def Let_def same_core_def tracked_def)

definition types_only :: "registry_state \<Rightarrow> registry_state \<Rightarrow> bool" where
  "types_only s s' \<longleftrightarrow> same_core (s\<lparr>re_known_types := re_known_types s', re_reconcile := re_reconcile s',
       re_pending_types_write := re_pending_types_write s'\<rparr>) s'
     \<and> tracked s' = tracked s \<and> re_withdraw_deadline s' = re_withdraw_deadline s
     \<and> (re_reconcile s' = Idle \<and> re_pending_types_write s' = None
        \<or> re_reconcile s' = ReadyToWrite \<and> re_pending_types_write s' \<noteq> None)"

lemma types_only_idle: "types_only s (reconcile_idle next now (s\<lparr>re_known_types := known\<rparr>))"
  by (simp add: types_only_def reconcile_idle_def Let_def same_core_def tracked_def)

lemma types_only_ready:
  "types_only s (s\<lparr>re_known_types := known, re_pending_types_write := Some v,
     re_reconcile := ReadyToWrite, re_reconcile_dirty := False\<rparr>)"
  by (simp add: types_only_def same_core_def tracked_def)

lemma types_only_gave_up:
  "types_only s (s\<lparr>re_known_types := known, re_reconcile := Idle, re_pending_types_write := None,
     re_next_types_sync := Some t\<rparr>)"
  by (simp add: types_only_def same_core_def tracked_def)

lemma types_read_fields: "types_only s (types_read js config result now s)"
proof (cases result)
  case (Ok ts)
  then show ?thesis by (simp add: types_read_def Let_def types_only_idle types_only_ready
        types_only_gave_up split: option.split)
next
  case (Err e)
  then show ?thesis
    using types_only_idle [of s _ now "re_known_types s"] by (simp add: types_read_def)
qed

lemma types_read_known:
  "re_known_types (types_read js config result now s) =
     (case result of Ok ts \<Rightarrow> merge_type_set (merge_type_set (re_known_types s) ts) (re_announced s)
      | Err e \<Rightarrow> re_known_types s)"
  by (simp add: types_read_def Let_def reconcile_idle_def split: result.split option.split)

lemma withdrawing_finished: "finished spec L L' \<Longrightarrow> \<not> service_job spec \<Longrightarrow> withdrawing L' = withdrawing L"
  by (cases spec) (fastforce simp: withdrawing_def finished_def)+

lemma state_ok_types_read:
  assumes "state_ok s L" and "finished (ReadTypes g) L L'"
  shows "state_ok (types_read js config result now s) L'"
proof -
  let ?s' = "types_read js config result now s"
  have f: "types_only s ?s'" by (rule types_read_fields)
  moreover have "types_ok (re_known_types ?s')"
    using assms(1) by (simp add: types_read_known types_ok_merge state_ok_def reconcile_ok_def split: result.split)
  ultimately have "reconcile_ok ?s' L'" by (auto simp: reconcile_ok_def types_only_def)
  moreover have "L' \<subseteq> L" "withdrawing L' = withdrawing L"
    using assms(2) by (simp_all add: finished_def withdrawing_finished)
  ultimately show ?thesis
    using f by (intro state_ok_types [OF assms(1)]) (simp_all add: types_only_def)
qed

lemma state_ok_reconcile_idle:
  assumes "state_ok s L" and "finished (WriteTypes g v) L L'"
  shows "state_ok (reconcile_idle next now s) L'"
proof (rule state_ok_types [OF assms(1)])
  note f = reconcile_idle_fields [of s "next" now]
  show "L' \<subseteq> L" using assms(2) by (simp add: finished_def)
  show "withdrawing L' = withdrawing L" using assms(2) by (simp add: withdrawing_finished)
  show "reconcile_ok (reconcile_idle next now s) L'"
    using f assms(1) by (simp add: reconcile_ok_def state_ok_def same_core_def)
qed (use reconcile_idle_fields [of s "next" now] in \<open>auto simp: same_core_def\<close>)

text \<open>A result of the types that is not awaited changes nothing, and its job is not missed.\<close>

lemma state_ok_types_ignored:
  assumes "state_ok s L" and "finished spec L L'" and "\<not> service_job spec"
    and "\<And>g. spec = ReadTypes g \<Longrightarrow> re_reconcile s \<noteq> Reading"
    and "\<And>g v. spec = WriteTypes g v \<Longrightarrow> re_reconcile s \<noteq> Writing"
  shows "state_ok s L'"
proof -
  have "names_ok s L' \<and> quiet_ok s L'"
    using assms(2) by (intro names_quiet_mono [OF assms(1)]) (auto simp: finished_def)
  moreover have "reconcile_ok s L'"
  proof -
    have "re_reconcile s = Reading \<Longrightarrow> \<exists>g. ReadTypes g \<in> L'"
      using assms(1,2) assms(4) by (force simp: state_ok_def reconcile_ok_def finished_def)
    moreover have "re_reconcile s = Writing \<Longrightarrow> \<exists>g v. WriteTypes g v \<in> L'"
      using assms(1,2) assms(5) by (force simp: state_ok_def reconcile_ok_def finished_def)
    ultimately show ?thesis using assms(1) by (simp add: state_ok_def reconcile_ok_def)
  qed
  ultimately show ?thesis
    using assms(1) withdrawing_finished [OF assms(2,3)] by (simp add: state_ok_def sched_ok_def)
qed

lemma state_ok_apply:
  assumes "state_ok s L" and "job_outcome js spec answer = Some r" and "finished spec L L'"
    and "job_generation spec = re_generation s \<Longrightarrow> spec \<in> L"
    and "job_generation spec \<noteq> re_generation s \<Longrightarrow> L' = L"
  shows "state_ok (apply_result js config r now s) L'"
proof (cases "job_generation spec = re_generation s")
  case False
  then have L': "L' = L" using assms(5) by simp
  have fin: "finished spec L L" using assms(3) L' by simp
  show ?thesis
  proof (cases spec)
    case (Announce g x k)
    then obtain res where "r = Announced g x res" using assms(2) by (cases answer) auto
    with False Announce fin show ?thesis
      using state_ok_announce_gone [OF assms(1), of g x k L] by (simp add: L' Let_def)
  next
    case (Withdraw g x k)
    then obtain res where "r = Withdrawn g x res" using assms(2) by (cases answer) auto
    with False Withdraw show ?thesis
      using state_ok_withdraw_stale [OF assms(1), of x] by (simp add: L' Let_def)
  next
    case (ReadTypes g)
    then obtain res where "r = TypesRead g res"
      using assms(2) by (cases "(js, spec, answer)" rule: job_outcome.cases) auto
    with False ReadTypes assms(1) show ?thesis by (simp add: L')
  next
    case (WriteTypes g v)
    then obtain res where "r = TypesWritten g res" using assms(2) by (cases answer) auto
    with False WriteTypes assms(1) show ?thesis by (simp add: L')
  qed
next
  case True
  then have spec: "spec \<in> L" using assms(4) by simp
  show ?thesis
  proof (cases spec)
    case (Announce g x k)
    then have x: "is_valid_service_name x" "re_bootstrapped s"
      using assms(1) spec by (auto simp: state_ok_def names_ok_def quiet_ok_def job_names_def)
    obtain res where r: "r = Announced g x res" using assms(2) Announce by (cases answer) auto
    let ?s1 = "s\<lparr>re_announce_inflight := removeAll x (re_announce_inflight s)\<rparr>"
    have s1: "state_ok ?s1 L'" using state_ok_announce_gone [OF assms(1)] assms(3) Announce by simp
    show ?thesis
      using r True Announce x state_ok_announce_ok [OF s1] state_ok_announce_err [OF s1]
      by (simp add: Let_def split: result.split)
  next
    case (Withdraw g x k)
    then have x: "is_valid_service_name x" "re_bootstrapped s"
      using assms(1) spec by (auto simp: state_ok_def names_ok_def quiet_ok_def job_names_def)
    obtain res where r: "r = Withdrawn g x res" using assms(2) Withdraw by (cases answer) auto
    show ?thesis
      using r True Withdraw state_ok_withdrawn [OF assms(1) assms(3) [unfolded Withdraw] x refl]
      by (simp add: Let_def split: result.split)
  next
    case (ReadTypes g)
    then obtain res where r: "r = TypesRead g res"
      using assms(2) by (cases "(js, spec, answer)" rule: job_outcome.cases) auto
    show ?thesis
    proof (cases "re_reconcile s = Reading")
      case reading: True
      with r True ReadTypes state_ok_types_read [OF assms(1) assms(3) [unfolded ReadTypes]]
      show ?thesis by simp
    next
      case False
      with r ReadTypes state_ok_types_ignored [OF assms(1,3)] show ?thesis by simp
    qed
  next
    case (WriteTypes g v)
    then obtain res where r: "r = TypesWritten g res" using assms(2) by (cases answer) auto
    show ?thesis
    proof (cases "re_reconcile s = Writing")
      case writing: True
      with r True WriteTypes state_ok_reconcile_idle [OF assms(1) assms(3) [unfolded WriteTypes]]
      show ?thesis by simp
    next
      case False
      with r WriteTypes state_ok_types_ignored [OF assms(1,3)] show ?thesis by simp
    qed
  qed
qed

section \<open>The actor: every reachable state\<close>

text \<open>
  The generation is a 64-bit counter that wraps. The number \<open>n\<close> of resets so far is a ghost
  component; below \<open>2 ^ 64\<close> resets a job of an earlier generation is never taken for a current one.
\<close>

definition current_jobs :: "registry_actor \<Rightarrow> job_spec set" where
  "current_jobs a =
     set (filter (\<lambda>spec. job_generation spec = re_generation (ra_state a)) (map rj_spec (ra_jobs a)))"

definition job_aged :: "nat \<Rightarrow> running_job \<Rightarrow> bool" where
  "job_aged n j \<longleftrightarrow> (\<exists>m \<le> n. job_generation (rj_spec j) = of_nat m \<and> (rj_aborted j \<longrightarrow> m < n))"

fun actor_ok :: "nat \<times> registry_actor \<Rightarrow> bool" where
  "actor_ok (n, a) \<longleftrightarrow> n < 2 ^ 64 \<and> re_generation (ra_state a) = of_nat n
     \<and> length (ra_jobs a) \<le> 16 \<and> (\<forall>j \<in> set (ra_jobs a). job_aged n j)
     \<and> state_ok (ra_state a) (current_jobs a)"

lemma actor_ok_state_ok: "actor_ok (n, a) \<Longrightarrow> state_ok (ra_state a) (current_jobs a)"
  by simp

lemma job_aged_abort: "job_aged n j \<Longrightarrow> job_aged (Suc n) (j\<lparr>rj_aborted := True\<rparr>)"
  by (auto simp: job_aged_def less_Suc_eq_le intro: le_SucI)

lemma of_nat_word64_eq: "m < 2 ^ 64 \<Longrightarrow> n < 2 ^ 64 \<Longrightarrow> (of_nat m :: 64 word) = of_nat n \<longleftrightarrow> m = n"
  by (auto simp: word_of_nat_eq_iff take_bit_nat_eq_self)

lemma in_remove_nth: "x \<in> set (remove_nth i xs) \<Longrightarrow> x \<in> set xs"
  unfolding remove_nth_def by (auto dest: in_set_takeD in_set_dropD)

lemma in_remove_nth_cases: "i < length xs \<Longrightarrow> x \<in> set xs \<Longrightarrow> x = xs ! i \<or> x \<in> set (remove_nth i xs)"
  using id_take_nth_drop [of i xs] unfolding remove_nth_def
  by (metis Un_iff list.set_intros(1) set_ConsD set_append)

lemma length_remove_nth: "length (remove_nth i xs) \<le> length xs"
  by (simp add: remove_nth_def)

lemma actor_ok_pump:
  assumes "actor_ok (n, a)"
  shows "actor_ok (n, pump config now a)"
proof -
  let ?slots = "clamp 1 16 (registry_max_inflight_dht config) - length (ra_jobs a)"
  obtain s' jobs where p: "plan config now ?slots (ra_state a) = (s', jobs)" by fastforce
  let ?new = "map (\<lambda>spec. \<lparr>rj_spec = spec, rj_aborted = False\<rparr>) jobs"
  have a': "pump config now a = a\<lparr>ra_state := s', ra_jobs := ra_jobs a @ ?new\<rparr>"
    unfolding pump_def Let_def p by simp
  have ok: "state_ok (ra_state a) (current_jobs a)" using assms by simp
  note r = plan_ok [OF ok p]
  have gen: "\<forall>j \<in> set jobs. job_generation j = of_nat n"
    using r assms by (simp add: plan_sound_def)
  have "current_jobs (pump config now a) = current_jobs a \<union> set jobs"
    using r gen assms unfolding a' by (auto simp: current_jobs_def image_image)
  moreover have "length (ra_jobs a) + length jobs \<le> 16"
    using r assms by (auto simp: clamp_def)
  moreover have "\<forall>j \<in> set ?new. job_aged n j" using gen by (auto simp: job_aged_def)
  ultimately show ?thesis using r assms unfolding a' by auto
qed

lemma publish_simps [simp]:
  "ra_state (publish a) = ra_state a" "ra_jobs (publish a) = ra_jobs a"
  "current_jobs (publish a) = current_jobs a"
  by (simp_all add: publish_def current_jobs_def)

lemma actor_ok_publish [simp]: "actor_ok (n, publish a) = actor_ok (n, a)"
  by simp

lemma actor_ok_state:
  assumes "actor_ok (n, a)" and "re_generation s = re_generation (ra_state a)"
    and "\<And>L. state_ok (ra_state a) L \<Longrightarrow> state_ok s L"
  shows "actor_ok (n, a\<lparr>ra_state := s\<rparr>)"
proof -
  have "current_jobs (a\<lparr>ra_state := s\<rparr>) = current_jobs a" using assms(2) by (simp add: current_jobs_def)
  with assms show ?thesis by simp
qed

lemma actor_ok_reset:
  assumes "actor_ok (n, a)" and "Suc n < 2 ^ 64"
  shows "actor_ok (Suc n, a\<lparr>ra_jobs := map (\<lambda>j. j\<lparr>rj_aborted := True\<rparr>) (ra_jobs a),
      ra_state := handle Reset now (ra_state a)\<rparr>)" (is "actor_ok (_, ?a)")
proof -
  have gen: "re_generation (ra_state ?a) = of_nat (Suc n)" using assms(1) by simp
  have old: "job_generation (rj_spec j) \<noteq> of_nat (Suc n)" if j: "j \<in> set (ra_jobs a)" for j
  proof -
    obtain m where "m \<le> n" "job_generation (rj_spec j) = of_nat m"
      using assms(1) j by (auto simp: job_aged_def)
    with assms(2) show ?thesis
      using of_nat_word64_eq [of m "Suc n"] by (simp del: of_nat_Suc)
  qed
  have "current_jobs ?a = {}" using old gen by (auto simp: current_jobs_def simp del: of_nat_Suc)
  moreover have "state_ok (ra_state ?a) {}"
    using state_ok_reset [of "ra_state a" "current_jobs a"] assms(1) by (simp del: handle.simps)
  moreover have "\<forall>j \<in> set (ra_jobs ?a). job_aged (Suc n) j"
    using assms(1) by (auto intro: job_aged_abort)
  ultimately show ?thesis using assms gen by (simp del: of_nat_Suc)
qed

lemma apply_result_generation [simp]:
  "re_generation (apply_result js config r now s) = re_generation s"
proof (cases r)
  case (Announced g x res)
  then show ?thesis by (simp add: Let_def announce_ok_def announce_err_def split: result.split)
next
  case (Withdrawn g x res)
  then show ?thesis by (simp add: Let_def withdraw_ok_def withdraw_err_def split: result.split)
next
  case (TypesRead g res)
  then show ?thesis
    using types_read_fields [of s js config res now] by (simp add: types_only_def same_core_def)
next
  case (TypesWritten g res)
  then show ?thesis by (simp add: Let_def reconcile_idle_def split: result.split)
qed

lemma current_remove_nth:
  assumes "i < length (ra_jobs a)"
  shows "finished (rj_spec (ra_jobs a ! i)) (current_jobs a)
           (current_jobs (a\<lparr>ra_jobs := remove_nth i (ra_jobs a)\<rparr>))"
    and "job_generation (rj_spec (ra_jobs a ! i)) \<noteq> re_generation (ra_state a) \<Longrightarrow>
           current_jobs (a\<lparr>ra_jobs := remove_nth i (ra_jobs a)\<rparr>) = current_jobs a"
  using in_remove_nth [of _ i "ra_jobs a"] in_remove_nth_cases [OF assms]
  unfolding finished_def current_jobs_def by fastforce+

lemma actor_ok_done:
  assumes "actor_ok (n, a)" and i: "i < length (ra_jobs a)"
    and r: "job_outcome js (rj_spec (ra_jobs a ! i)) answer = Some r"
  shows "actor_ok (n, a\<lparr>ra_jobs := remove_nth i (ra_jobs a),
      ra_state := apply_result js config r now (ra_state a)\<rparr>)" (is "actor_ok (n, ?a)")
proof -
  let ?b = "a\<lparr>ra_jobs := remove_nth i (ra_jobs a)\<rparr>"
  have "current_jobs ?a = current_jobs ?b" by (simp add: current_jobs_def)
  moreover have "state_ok (apply_result js config r now (ra_state a)) (current_jobs ?b)"
  proof (rule state_ok_apply [OF _ r current_remove_nth(1) [OF i] _ current_remove_nth(2) [OF i]])
    show "state_ok (ra_state a) (current_jobs a)" using assms(1) by simp
    show "rj_spec (ra_jobs a ! i) \<in> current_jobs a"
      if "job_generation (rj_spec (ra_jobs a ! i)) = re_generation (ra_state a)"
      using that i by (auto simp: current_jobs_def)
  qed
  ultimately show ?thesis
    using assms(1) in_remove_nth [of _ i "ra_jobs a"] length_remove_nth [of i "ra_jobs a"] by auto
qed

lemma actor_ok_cancelled:
  assumes "actor_ok (n, a)" and i: "i < length (ra_jobs a)" and "rj_aborted (ra_jobs a ! i)"
  shows "actor_ok (n, a\<lparr>ra_jobs := remove_nth i (ra_jobs a)\<rparr>)"
proof -
  obtain m where "m < n" "job_generation (rj_spec (ra_jobs a ! i)) = of_nat m"
    using assms by (force simp: job_aged_def)
  then have "job_generation (rj_spec (ra_jobs a ! i)) \<noteq> re_generation (ra_state a)"
    using assms(1) of_nat_word64_eq [of m n] by simp
  then show ?thesis
    using assms(1) current_remove_nth(2) [OF i] in_remove_nth [of _ i "ra_jobs a"]
      length_remove_nth [of i "ra_jobs a"] by auto
qed

text \<open>The steps with the ghost counter, and the invariant along every run.\<close>

definition is_reset :: "node_config \<times> instant \<times> instant \<times> registry_event \<Rightarrow> bool" where
  "is_reset e = (snd (snd (snd e)) = Command Reset)"

definition is_panic :: "node_config \<times> instant \<times> instant \<times> registry_event \<Rightarrow> bool" where
  "is_panic e = (case snd (snd (snd e)) of JobPanicked i \<Rightarrow> True | _ \<Rightarrow> False)"

definition orderly :: "(node_config \<times> instant \<times> instant \<times> registry_event) list \<Rightarrow> bool" where
  "orderly es \<longleftrightarrow> length (filter is_reset es) < 2 ^ 64 \<and> \<not> list_ex is_panic es"

fun counted_step :: "json_lib \<Rightarrow> node_config \<times> instant \<times> instant \<times> registry_event
    \<Rightarrow> nat \<times> registry_actor \<Rightarrow> nat \<times> registry_actor" where
  "counted_step js e (n, a) = (if is_reset e then Suc n else n, actor_step js e a)"

fun counter_enabled :: "node_config \<times> instant \<times> instant \<times> registry_event \<Rightarrow> nat \<times> registry_actor \<Rightarrow> bool" where
  "counter_enabled e (n, a) \<longleftrightarrow> \<not> is_panic e \<and> (is_reset e \<longrightarrow> Suc n < 2 ^ 64)"

lemma actor_ok_start: "actor_ok (0, actor_start config initial now later)"
proof -
  have new: "state_ok registry_new {}"
    by (simp add: state_ok_defs registry_new_def tracked_def job_names_def types_ok_def
        relay_ready_def)
  have "re_generation registry_new = 0" by (simp add: registry_new_def)
  with state_ok_replace [OF new] show ?thesis
    unfolding actor_start_def by (intro actor_ok_pump) (simp add: current_jobs_def)
qed

lemma actor_ok_step:
  assumes "actor_ok (n, a)" and "counter_enabled e (n, a)"
  shows "actor_ok (counted_step js e (n, a))"
proof -
  obtain config now later ev where e: "e = (config, now, later, ev)" by (metis prod_cases4)
  show ?thesis
  proof (cases ev)
    case (Command c)
    show ?thesis
    proof (cases "c = Reset")
      case True
      then show ?thesis
        using assms e Command
        by (auto simp del: actor_ok.simps handle.simps simp: is_reset_def
            intro!: actor_ok_pump actor_ok_reset)
    next
      case False
      then show ?thesis
        using assms(1) e Command state_ok_handle
        by (auto simp del: actor_ok.simps handle.simps simp: is_reset_def
            intro!: actor_ok_pump actor_ok_state)
    qed
  next
    case (JobDone i answer)
    then show ?thesis
      using assms(1) e
      by (auto simp del: actor_ok.simps simp: is_reset_def split: option.split
          intro!: actor_ok_pump actor_ok_done)
  next
    case (JobCancelled i)
    then show ?thesis
      using assms(1) e
      by (auto simp del: actor_ok.simps simp: is_reset_def intro!: actor_ok_pump actor_ok_cancelled)
  next
    case (JobPanicked i)
    then show ?thesis using assms(2) e by (simp add: is_panic_def)
  next
    case (ReadinessChanged ready)
    then show ?thesis
      using assms(1) e state_ok_replace state_ok_replace [OF actor_ok_state_ok [OF assms(1)]]
      by (auto simp del: actor_ok.simps simp: is_reset_def intro!: actor_ok_pump actor_ok_state)
  qed
qed

interpretation registry: guarded_system "(0, actor_start config initial now later)"
  counter_enabled "counted_step js" actor_ok for config initial now later js
  by unfold_locales (auto simp del: actor_ok.simps counted_step.simps counter_enabled.simps
      intro: actor_ok_start actor_ok_step)

lemma counted_run:
  "fold (counted_step js) es (n, a) = (n + length (filter is_reset es), fold (actor_step js) es a)"
  by (induction es arbitrary: n a) auto

lemma counted_valid:
  "n + length (filter is_reset es) < 2 ^ 64 \<Longrightarrow> \<not> list_ex is_panic es \<Longrightarrow>
     valid_run counter_enabled (counted_step js) es (n, a)"
  by (induction es arbitrary: n a) (auto split: if_splits)

lemma actor_reachable:
  assumes "orderly es"
  shows "actor_ok (length (filter is_reset es), fold (actor_step js) es (actor_start config initial now later))"
proof -
  have "valid_run counter_enabled (counted_step js) es (0, actor_start config initial now later)"
    using assms by (intro counted_valid) (simp_all add: orderly_def)
  from registry.inv_reachable [OF this] show ?thesis by (simp only: counted_run add_0)
qed

text \<open>What the planner starts is sound for the state it leaves.\<close>

definition job_sound :: "registry_actor \<Rightarrow> job_spec \<Rightarrow> bool" where
  "job_sound a spec \<longleftrightarrow> job_generation spec = re_generation (ra_state a)
     \<and> (case spec of
          Announce g x k \<Rightarrow> k = provider_key x \<and> is_valid_service_name x \<and> re_bootstrapped (ra_state a)
            \<and> relay_ready (ra_state a) \<and> x \<in> set (re_backend_ready (ra_state a))
            \<and> x \<notin> set (re_announced (ra_state a))
        | Withdraw g x k \<Rightarrow> k = provider_key x \<and> is_valid_service_name x \<and> re_bootstrapped (ra_state a)
        | ReadTypes g \<Rightarrow> True
        | WriteTypes g v \<Rightarrow> True)"

lemma pump_sound:
  assumes "actor_ok (n, a)" and "j \<in> set (ra_jobs (pump config now a)) - set (ra_jobs a)"
  shows "job_sound (pump config now a) (rj_spec j)"
proof -
  let ?slots = "clamp 1 16 (registry_max_inflight_dht config) - length (ra_jobs a)"
  obtain s' jobs where p: "plan config now ?slots (ra_state a) = (s', jobs)" by fastforce
  have a': "pump config now a = a\<lparr>ra_state := s',
      ra_jobs := ra_jobs a @ map (\<lambda>spec. \<lparr>rj_spec = spec, rj_aborted = False\<rparr>) jobs\<rparr>"
    unfolding pump_def Let_def p by simp
  have j: "rj_spec j \<in> set jobs" using assms(2) by (auto simp: a')
  have ok: "state_ok (ra_state a) (current_jobs a)" using assms(1) by simp
  note r = plan_ok [OF ok p] and k = plan_keeps [OF ok p]
  have sound: "plan_sound (ra_state a) jobs" and ok': "state_ok s' (current_jobs a \<union> set jobs)"
    and gen: "re_generation s' = re_generation (ra_state a)"
    using r by auto
  show ?thesis
  proof (cases "rj_spec j")
    case (Withdraw g x k)
    then have "x \<in> job_names (current_jobs a \<union> set jobs)" using j by (auto simp: job_names_def)
    with ok' have "is_valid_service_name x" "re_bootstrapped s'"
      by (auto simp: state_ok_def names_ok_def quiet_ok_def)
    with Withdraw j sound gen show ?thesis
      by (fastforce simp: job_sound_def a' plan_sound_def)
  qed (use j sound gen k in \<open>fastforce simp: job_sound_def a' plan_sound_def\<close>)+
qed

lemma pump_ra_jobs: "set (ra_jobs a) \<subseteq> set (ra_jobs (pump config now a))"
  by (auto simp: pump_def Let_def split: prod.split)

lemma step_sound:
  assumes "actor_ok (n, a)" and "counter_enabled e (n, a)"
    and "j \<in> set (ra_jobs (actor_step js e a)) - set (ra_jobs a)" and "\<not> rj_aborted j"
  shows "job_sound (actor_step js e a) (rj_spec j)"
proof -
  obtain config now later ev where e: "e = (config, now, later, ev)" by (metis prod_cases4)
  have via: "job_sound (pump config later b) (rj_spec j)"
    if "actor_ok (m, b)" "j \<in> set (ra_jobs (pump config later b)) - set (ra_jobs b)" for m b
    using pump_sound that by blast
  show ?thesis
  proof (cases ev)
    case (Command c)
    let ?b = "if c = Reset then a\<lparr>ra_jobs := map (\<lambda>j. j\<lparr>rj_aborted := True\<rparr>) (ra_jobs a)\<rparr> else a"
    let ?c = "?b\<lparr>ra_state := handle c now (ra_state ?b)\<rparr>"
    have "\<exists>m. actor_ok (m, publish ?c)"
      using assms(1,2) e Command actor_ok_reset [of n a now] state_ok_handle
        actor_ok_state [OF assms(1), of "handle c now (ra_state a)"]
      by (cases "c = Reset") (auto simp del: actor_ok.simps handle.simps simp: is_reset_def)
    moreover have "j \<notin> set (ra_jobs (publish ?c))" using assms(3,4) by (auto simp: e Command)
    ultimately show ?thesis using via assms(3) by (auto simp: e Command Let_def)
  next
    case (JobDone i answer)
    then show ?thesis
      using assms(1,3) e in_remove_nth [of j i "ra_jobs a"]
      by (auto simp del: actor_ok.simps split: option.splits if_splits
          intro!: via actor_ok_done dest: in_remove_nth)
  next
    case (JobCancelled i)
    then show ?thesis
      using assms(1,3) e
      by (auto simp del: actor_ok.simps split: if_splits intro!: via actor_ok_cancelled dest: in_remove_nth)
  next
    case (JobPanicked i)
    then show ?thesis using assms(2) e by (simp add: is_panic_def)
  next
    case (ReadinessChanged ready)
    then show ?thesis
      using assms(1,3) e state_ok_replace state_ok_replace [OF actor_ok_state_ok [OF assms(1)]]
      by (auto simp del: actor_ok.simps intro!: via actor_ok_state)
  qed
qed

section \<open>The retry schedule\<close>

lemma unat_sat_inc_pow: "unat ((sat_inc ^^ n) (0 :: u32)) = min n (2 ^ 32 - 1)"
proof (induction n)
  case (Suc n)
  then show ?case by (simp add: unat_sat_inc)
qed simp

lemma retry_delay_pow:
  "retry_delay ((sat_inc ^^ Suc n) 0) = min (ANNOUNCE_RETRY_INITIAL * 2 ^ n) ANNOUNCE_RETRY_MAX"
proof -
  have u: "unat ((sat_inc ^^ Suc n) (0 :: u32)) = min (Suc n) (2 ^ 32 - 1)" by (rule unat_sat_inc_pow)
  have r: "retry_delay ((sat_inc ^^ Suc n) 0)
      = min (ANNOUNCE_RETRY_INITIAL * 2 ^ min (min (Suc n) (2 ^ 32 - 1) - 1) 4) ANNOUNCE_RETRY_MAX"
    unfolding retry_delay_def u Let_def ..
  show ?thesis
  proof (cases "n \<le> 4")
    case True
    then have "min (min (Suc n) (2 ^ 32 - 1) - 1) 4 = n" by simp
    then show ?thesis using r by simp
  next
    case False
    then have "(2::nat) ^ 4 \<le> 2 ^ n" by (intro power_increasing) auto
    moreover have "min (min (Suc n) (2 ^ 32 - 1) - 1) 4 = 4" using False by simp
    ultimately show ?thesis
      using r by (simp add: ANNOUNCE_RETRY_INITIAL_def ANNOUNCE_RETRY_MAX_def from_secs_def)
  qed
qed

interpretation announce_backoff: backoff_schedule
  "\<lambda>n. retry_delay ((sat_inc ^^ Suc n) 0)" ANNOUNCE_RETRY_INITIAL ANNOUNCE_RETRY_MAX
proof
  show "retry_delay ((sat_inc ^^ Suc m) 0) \<le> retry_delay ((sat_inc ^^ Suc n) 0)" if "m \<le> n" for m n
    unfolding retry_delay_pow
    using that by (intro min.mono mult_le_mono power_increasing) auto
qed (simp_all only: retry_delay_pow,
     simp_all add: ANNOUNCE_RETRY_INITIAL_def ANNOUNCE_RETRY_MAX_def from_secs_def)

lemma announce_err_run:
  assumes "x \<in> set (re_backend_ready s)" and "re_bootstrapped s"
    and "re_announce_failures s x = (if n = 0 then None else Some ((sat_inc ^^ n) 0))"
  shows "hm_get (re_announce_retry_at (fold (announce_err x) (ts @ [now]) s)) x
     = Some (now + retry_delay ((sat_inc ^^ Suc (n + length ts)) 0))"
  using assms
proof (induction ts arbitrary: s n)
  case Nil
  then show ?case by (auto simp: announce_err_def Let_def)
next
  case (Cons t ts)
  have "re_announce_failures (announce_err x t s) x = Some ((sat_inc ^^ Suc n) 0)"
    using Cons.prems by (simp add: announce_err_def Let_def)
  moreover have "x \<in> set (re_backend_ready (announce_err x t s))" "re_bootstrapped (announce_err x t s)"
    using Cons.prems by (simp_all add: announce_err_def Let_def)
  ultimately show ?case using Cons.IH [of "announce_err x t s" "Suc n"] by simp
qed

section \<open>The longest prefix of the types that fits\<close>

text \<open>
  What the code relies on of the serialiser: it encodes every list of strings, and a longer list
  into at least as many bytes.
\<close>

definition json_lib_ok :: "json_lib \<Rightarrow> bool" where
  "json_lib_ok js \<longleftrightarrow> (\<forall>xs. js_to_vec js xs \<noteq> None)
     \<and> (\<forall>xs ys. length (the (js_to_vec js xs)) \<le> length (the (js_to_vec js (xs @ ys))))"

text \<open>The reference: try the whole list, then one element less, and so on.\<close>

fun linear_prefix :: "json_lib \<Rightarrow> string list \<Rightarrow> nat \<Rightarrow> nat \<Rightarrow> nat" where
  "linear_prefix js list max_bytes n =
     (if n = 0 \<or> length (the (js_to_vec js (take n list))) \<le> max_bytes then n
      else linear_prefix js list max_bytes (n - 1))"

declare linear_prefix.simps [simp del]

lemma json_encodes: "json_lib_ok js \<Longrightarrow> \<exists>v. js_to_vec js xs = Some v"
  by (auto simp: json_lib_ok_def)

lemma json_take_mono:
  "json_lib_ok js \<Longrightarrow> m \<le> n \<Longrightarrow>
     length (the (js_to_vec js (take m list))) \<le> length (the (js_to_vec js (take n list)))"
  unfolding json_lib_ok_def
  by (metis append_take_drop_id min_absorb1 take_take)

lemma linear_prefix_eq:
  assumes "json_lib_ok js" and "m = 0 \<or> length (the (js_to_vec js (take m list))) \<le> max_bytes"
    and "\<And>k. m < k \<Longrightarrow> k \<le> n \<Longrightarrow> max_bytes < length (the (js_to_vec js (take k list)))" and "m \<le> n"
  shows "linear_prefix js list max_bytes n = m"
  using assms(3,4)
proof (induction n)
  case (Suc n)
  show ?case
  proof (cases "m = Suc n")
    case True
    then show ?thesis using assms(2) by (subst linear_prefix.simps) auto
  next
    case False
    then have "m \<le> n" "max_bytes < length (the (js_to_vec js (take (Suc n) list)))" using Suc.prems by auto
    moreover have "linear_prefix js list max_bytes n = m" using Suc \<open>m \<le> n\<close> by simp
    ultimately show ?thesis by (subst linear_prefix.simps) simp
  qed
qed (simp add: linear_prefix.simps)

lemma search_prefix_linear:
  assumes js: "json_lib_ok js" and "low \<le> high" and "high \<le> n"
    and "low = 0 \<or> length (the (js_to_vec js (take low list))) \<le> max_bytes"
    and "\<And>k. high < k \<Longrightarrow> k \<le> n \<Longrightarrow> max_bytes < length (the (js_to_vec js (take k list)))"
  shows "search_prefix js list max_bytes low high = Some (linear_prefix js list max_bytes n)"
  using assms(2-)
proof (induction "high - low" arbitrary: low high rule: less_induct)
  case less
  show ?case
  proof (cases "low < high")
    case False
    then have "linear_prefix js list max_bytes n = low"
      using less.prems by (intro linear_prefix_eq [OF js]) auto
    with False show ?thesis by (simp add: search_prefix.simps)
  next
    case True
    define mid where "mid = (low + high + 1) div 2"
    have mid: "low < mid" "mid \<le> high" using True by (auto simp: mid_def)
    obtain encoded where e: "js_to_vec js (take mid list) = Some encoded"
      using json_encodes [OF js] by blast
    have step: "search_prefix js list max_bytes low high =
        (if length encoded \<le> max_bytes then search_prefix js list max_bytes mid high
         else search_prefix js list max_bytes low (mid - 1))"
      using True e by (subst search_prefix.simps) (simp add: mid_def)
    show ?thesis
    proof (cases "length encoded \<le> max_bytes")
      case fits: True
      have "search_prefix js list max_bytes mid high = Some (linear_prefix js list max_bytes n)"
        using less.prems mid fits e by (intro less.hyps) auto
      with step fits show ?thesis by simp
    next
      case False
      have "max_bytes < length (the (js_to_vec js (take k list)))" if "mid - 1 < k" for k
      proof -
        have "mid \<le> k" using that mid by linarith
        then show ?thesis using json_take_mono [OF js, of mid k list] False e by simp
      qed
      then have "search_prefix js list max_bytes low (mid - 1) = Some (linear_prefix js list max_bytes n)"
        using less.prems mid by (intro less.hyps) auto
      with step False show ?thesis by simp
    qed
  qed
qed

lemma encode_types_limited_linear:
  assumes "json_lib_ok js"
  shows "encode_types_limited js list max_bytes =
     (let n = linear_prefix js list max_bytes (length list)
      in Some (the (js_to_vec js (take n list)), n))"
proof -
  obtain full where full: "js_to_vec js list = Some full" using json_encodes [OF assms] by blast
  obtain v where v: "js_to_vec js (take (linear_prefix js list max_bytes (length list)) list) = Some v"
    using json_encodes [OF assms] by blast
  show ?thesis
  proof (cases "length full \<le> max_bytes")
    case True
    then have "linear_prefix js list max_bytes (length list) = length list"
      using full by (subst linear_prefix.simps) simp
    with True full show ?thesis by (simp add: encode_types_limited_def)
  next
    case False
    have "search_prefix js list max_bytes 0 (length list)
        = Some (linear_prefix js list max_bytes (length list))"
      using assms by (intro search_prefix_linear) auto
    with False full v show ?thesis by (simp add: encode_types_limited_def Let_def)
  qed
qed

lemma linear_prefix_max:
  assumes "json_lib_ok js" and "length (the (js_to_vec js [])) \<le> max_bytes"
  shows "length (the (js_to_vec js (take (linear_prefix js list max_bytes n) list))) \<le> max_bytes
     \<and> linear_prefix js list max_bytes n \<le> n
     \<and> (\<forall>k. linear_prefix js list max_bytes n < k \<and> k \<le> n \<longrightarrow>
          max_bytes < length (the (js_to_vec js (take k list))))"
proof (induction n)
  case 0
  then show ?case using assms(2) by (simp add: linear_prefix.simps)
next
  case (Suc n)
  then show ?case
    by (cases "length (the (js_to_vec js (take (Suc n) list))) \<le> max_bytes")
       (auto simp: linear_prefix.simps [of _ _ _ "Suc n"] le_Suc_eq)
qed

section \<open>Correctness\<close>

text \<open>
  An instance of the serialiser that needs no escapes, and a node with one local service.
\<close>

definition demo_json :: json_lib where
  "demo_json = \<lparr>js_to_vec = (\<lambda>xs. Some (as_bytes (concat (map (\<lambda>x. CHR 0x22 # x @ [CHR 0x22]) xs)))),
     js_from_slice = (\<lambda>v. if v = [] then Some [] else None), js_error = ''json''\<rparr>"

definition demo_registry_config :: node_config where
  "demo_registry_config = node_config_default
     \<lparr>cfg_services := services_config_default\<lparr>sv_dispatcher := dispatcher_config_default
        \<lparr>dc_local_services := [\<lparr>ls_name = ''web'', ls_port = 80, ls_require_auth = False\<rparr>]\<rparr>\<rparr>\<rparr>"

lemma demo_json_ok: "json_lib_ok demo_json"
  by (simp add: json_lib_ok_def demo_json_def)

lemma demo_name_ok: "is_valid_service_name ''web''"
  by code_simp

lemma demo_local: "local_names demo_registry_config = [''web'']"
  by (simp add: local_names_def local_services_def demo_registry_config_def config_default_defs demo_name_ok)

lemma demo_slots: "clamp (Suc 0) 16 (registry_max_inflight_dht demo_registry_config) = 4"
  by (simp add: clamp_def registry_max_inflight_dht_def demo_registry_config_def config_default_defs)

lemmas demo_run_defs = pump_def Let_def plan_def demo_local demo_slots due_withdrawals_def
  sort_dedup_def due_retries_def plan_types_def registry_new_def

definition demo_started :: registry_actor where
  "demo_started = actor_start demo_registry_config [''web''] 0 0"

definition demo_bootstrap ::"node_config \<times> instant \<times> instant \<times> registry_event" where
  "demo_bootstrap = (demo_registry_config, 1, 1, Command BootstrapCompleted)"

lemma demo_started:
  "ra_state demo_started = registry_new\<lparr>re_backend_ready := [''web'']\<rparr> \<and> ra_jobs demo_started = []"
  by (simp add: demo_started_def actor_start_def replace_backend_ready_def backend_up_def demo_run_defs)

text \<open>
  (C7) The registry announces only what it may: in every run without a panicking job and with fewer
  than \<open>2 ^ 64\<close> resets, a job that a step starts carries the current generation; an announcement is
  made under the service's own key, for a valid name with a ready backend, after the bootstrap, with
  a relay where one is needed, and never for a service already announced; a withdrawal is made for
  a valid name after the bootstrap.
\<close>
theorem started_jobs_sound:
  assumes "orderly (es @ [e])"
    and a: "a = fold (actor_step js) es (actor_start config initial now later)"
    and "j \<in> set (ra_jobs (actor_step js e a)) - set (ra_jobs a)" and "\<not> rj_aborted j"
  shows "job_sound (actor_step js e a) (rj_spec j)"
proof -
  have "orderly es" using assms(1) by (auto simp: orderly_def)
  then have "actor_ok (length (filter is_reset es), a)" unfolding a by (rule actor_reachable)
  moreover have "counter_enabled e (length (filter is_reset es), a)"
    using assms(1) by (auto simp: orderly_def)
  ultimately show ?thesis using assms(3,4) by (rule step_sound)
qed

theorem started_jobs_sound_witness:
  "job_sound (actor_step demo_json demo_bootstrap demo_started) (Announce 0 ''web'' ''/oahd/service/web'')"
proof -
  let ?j = "\<lparr>rj_spec = Announce 0 ''web'' ''/oahd/service/web'', rj_aborted = False\<rparr>"
  have "?j \<in> set (ra_jobs (actor_step demo_json demo_bootstrap demo_started)) - set (ra_jobs demo_started)"
    by (simp add: demo_bootstrap_def demo_started mark_types_dirty_def demo_run_defs
      relay_ready_def start_announce_def provider_key_def)
  moreover have "orderly ([] @ [demo_bootstrap])"
    by (simp add: orderly_def is_reset_def is_panic_def demo_bootstrap_def)
  ultimately have "job_sound (actor_step demo_json demo_bootstrap demo_started) (rj_spec ?j)"
    by (intro started_jobs_sound [where es = "[]"]) (simp_all add: demo_started_def)
  then show ?thesis by simp
qed



text \<open>A run of the demonstration node through its bootstrap and a reset.\<close>

definition demo_registry_run :: "(node_config \<times> instant \<times> instant \<times> registry_event) list" where
  "demo_registry_run = [demo_bootstrap, (demo_registry_config, 2, 2, Command Reset), demo_bootstrap,
     (demo_registry_config, 3, 3, Command (RelayStateChanged True 0))]"

lemma demo_registry_run_orderly: "orderly demo_registry_run"
  by (simp add: orderly_def is_reset_def is_panic_def demo_registry_run_def demo_bootstrap_def)


definition demo_announced :: registry_actor where
  "demo_announced =
     fold (actor_step demo_json) [demo_bootstrap, (demo_registry_config, 2, 2, JobDone 0 (Done (Ok ())))] demo_started"

lemma demo_announced: "re_announced (ra_state demo_announced) = [''web'']"
  by (simp add: demo_announced_def demo_bootstrap_def demo_started mark_types_dirty_def demo_run_defs
      relay_ready_def start_announce_def provider_key_def announce_ok_def remove_nth_def)


text \<open>
  Failed announcements are retried with exponential backoff: after the \<open>k + 1\<close>st failure in a row
  the next attempt is due \<open>5 * 2 ^ k\<close> seconds later, capped at one minute, so never sooner than
  five seconds, and the counter that drives it saturates instead of wrapping.
\<close>
theorem announce_retry_backoff:
  assumes "x \<in> set (re_backend_ready s)" and "re_bootstrapped s" and "re_announce_failures s x = None"
  shows "\<exists>d. hm_get (re_announce_retry_at (fold (announce_err x) (ts @ [now]) s)) x = Some (now + d)
     \<and> d = min (from_secs 5 * 2 ^ length ts) (from_secs 60) \<and> from_secs 5 \<le> d \<and> d \<le> from_secs 60"
proof -
  let ?d = "retry_delay ((sat_inc ^^ Suc (length ts)) 0)"
  have "hm_get (re_announce_retry_at (fold (announce_err x) (ts @ [now]) s)) x = Some (now + ?d)"
    using announce_err_run [where n = 0 and x = x and s = s] assms by simp
  moreover note announce_backoff.lower [of "length ts"] announce_backoff.upper [of "length ts"]
    retry_delay_pow [of "length ts"]
  ultimately show ?thesis
    by (intro exI [of _ ?d]) (simp only: ANNOUNCE_RETRY_INITIAL_def ANNOUNCE_RETRY_MAX_def)
qed

theorem announce_retry_backoff_witness:
  "\<exists>d. hm_get (re_announce_retry_at (fold (announce_err ''web'') ([1, 2] @ [3])
      (registry_new\<lparr>re_backend_ready := [''web''], re_bootstrapped := True\<rparr>))) ''web'' = Some (3 + d)
     \<and> d = from_secs 20"
proof -
  have "''web'' \<in> set (re_backend_ready (registry_new\<lparr>re_backend_ready := [''web''], re_bootstrapped := True\<rparr>))"
    by simp
  moreover have "min (from_secs 5 * 2 ^ length [1 :: nat, 2]) (from_secs 60) = from_secs 20"
    by (simp add: from_secs_def)
  ultimately show ?thesis
    using announce_retry_backoff [of "''web''" _ "[1, 2]" 3] by (auto simp: registry_new_def)
qed

text \<open>
  (C19) The binary search of \<open>encode_types_limited\<close> is exact: it agrees with trying one type less at a
  time from the whole list. Where the empty list fits the limit, so does the result, and no longer
  prefix of the list would.
\<close>
theorem encode_types_limited_optimal:
  assumes "json_lib_ok js"
  shows "\<exists>v n. encode_types_limited js list max_bytes = Some (v, n)
     \<and> n = linear_prefix js list max_bytes (length list) \<and> js_to_vec js (take n list) = Some v
     \<and> (length (the (js_to_vec js [])) \<le> max_bytes \<longrightarrow>
          length v \<le> max_bytes \<and> n \<le> length list
          \<and> (\<forall>k. n < k \<and> k \<le> length list \<longrightarrow> max_bytes < length (the (js_to_vec js (take k list)))))"
proof -
  let ?n = "linear_prefix js list max_bytes (length list)"
  obtain v where "js_to_vec js (take ?n list) = Some v" using json_encodes [OF assms] by blast
  with encode_types_limited_linear [OF assms, of list max_bytes]
    linear_prefix_max [OF assms, of max_bytes list "length list"]
  show ?thesis by (auto simp: Let_def)
qed

theorem encode_types_limited_optimal_witness:
  "\<exists>v. encode_types_limited demo_json [''ab'', ''cd'', ''ef''] 9 = Some (v, 2) \<and> length v \<le> 9"
proof -
  have "linear_prefix demo_json [''ab'', ''cd'', ''ef''] 9 (length [''ab'', ''cd'', ''ef'']) = 2"
    by (simp add: linear_prefix.simps demo_json_def)
  then show ?thesis
    using encode_types_limited_optimal [OF demo_json_ok, of "[''ab'', ''cd'', ''ef'']" 9]
    by (auto simp: demo_json_def)
qed


end
