(* ===== verification/NN_Node.thy ===== *)
theory NN_Node
  imports NN_Command NN_Registry
begin

text \<open>
  The orchestration of a node: the controller of \<open>src/src/controller/node_controller.rs\<close> with its
  authorization workers, and the control commands that \<open>src/src/controller/command.rs\<close> runs in it.

  \<open>node_controller\<close> is the controller's state together with the tasks it spawns: the four
  authorization workers (a queue and the job at hand), the running DHT workers, and the channel to the
  service registry, which also records the commands the registry has received. The components it owns
  are those of the other theories. The configuration is shared by all of them; the gate keeps it too, and
  the invariant says that both agree.

  A turn of the controller, of a worker or of the registry's receiver is one \<open>node_step\<close>; \<open>node_env\<close>
  holds what the calls of the turn return. It yields the \<open>node_action\<close>s of the turn in order.

  The lemmas show that a request reaches the dispatcher only if the gate allowed it, that every request
  and every control command is settled exactly once, that the queues and the permits are bounded, that
  control commands write only where they may, what a reload resets, and that the registry never
  believes in relays the node does not have.
\<close>

section \<open>State\<close>

definition AUTH_WORKERS :: nat where "AUTH_WORKERS = 4"
definition AUTH_QUEUE_CAPACITY :: nat where "AUTH_QUEUE_CAPACITY = 32"
definition COMMAND_QUEUE_CAPACITY :: nat where "COMMAND_QUEUE_CAPACITY = 256"

record auth_job =
  aj_peer :: peer_id
  aj_request_id :: string
  aj_service :: string
  aj_payload :: bytes
  aj_response_tx :: reply_channel

record auth_queue =
  aq_items :: "auth_job list"
  aq_open :: bool
  aq_current :: "auth_job option"

record dht_worker =
  dw_msg :: message
  dw_resp_tx :: reply_channel
  dw_peers :: peer_tracker
  dw_max_record_bytes :: u64

text \<open>The channel to the registry: the commands on their way, and those it has received.\<close>

record service_channel =
  sc_items :: "service_command list"
  sc_received :: "service_command list"
  sc_open :: bool

record node_controller =
  nd_config :: node_config
  nd_my_peer_id :: peer_id
  nd_peers :: peer_tracker
  nd_auth :: auth_gate
  nd_auth_txs :: "auth_queue list"
  nd_auth_next :: u64
  nd_dht_permits :: nat
  nd_workers :: "dht_worker list"
  nd_services :: service_channel
  nd_snapshot :: service_snapshot
  nd_relay :: relay_manager
  nd_bootstrap :: bootstrap_discovery
  nd_record_cache :: "(string, bytes) dht_cache"
  nd_provider_cache :: provider_cache
  nd_running :: bool

text \<open>What the calls of a turn return, and the printers and parsers of the libraries.\<close>

record node_env =
  nv_lib :: auth_lib
  nv_now :: instant
  nv_clock :: "nat \<Rightarrow> instant"
  nv_listen :: "multiaddr \<Rightarrow> (unit, string) result"
  nv_announce :: "(unit, string) result"
  nv_dial :: "multiaddr \<Rightarrow> (unit, network_error) result"
  nv_reload :: "(unit, network_error) result"
  nv_refreshed :: "(nat, network_error) result"
  nv_provide :: "(unit, network_error) result"
  nv_stop :: "(unit, network_error) result"
  nv_remove :: "(unit, network_error) result"
  nv_answers :: dht_answers
  nv_auth :: auth_env
  nv_dispatcher_open :: bool
  nv_to_cbor :: "cbor_value \<Rightarrow> bytes"
  nv_show_peer :: "peer_id \<Rightarrow> string"
  nv_parse_peer :: "string \<Rightarrow> (peer_id, string) result"

text \<open>\<open>Forward\<close> carries the id of the request besides what the dispatcher gets.\<close>

datatype node_action =
    Called dht_call
  | DialAddr multiaddr
  | ListenRelay multiaddr
  | ReloadSwarm
  | RefreshStore
  | DisconnectFrom peer_id
  | StopSwarm
  | Refuse string service_response
  | Forward string inbound_request
  | AnswerControl reply_channel "(bytes, string) result"
  | SaveConfig node_config

section \<open>Construction\<close>

definition node_new :: "auth_lib \<Rightarrow> node_config \<Rightarrow> peer_id \<Rightarrow> node_controller" where
  "node_new lib config my_peer_id =
     \<lparr>nd_config = config, nd_my_peer_id = my_peer_id, nd_peers = peer_tracker_new my_peer_id,
      nd_auth = gate_new lib config,
      nd_auth_txs = replicate AUTH_WORKERS \<lparr>aq_items = [], aq_open = True, aq_current = None\<rparr>,
      nd_auth_next = 0, nd_dht_permits = clamp 1 16 (dispatcher_max_inflight_dht config), nd_workers = [],
      nd_services = \<lparr>sc_items = [], sc_received = [], sc_open = True\<rparr>,
      nd_snapshot = \<lparr>ss_types = [], ss_announced = [], ss_backend_ready = [], ss_bootstrapped = False\<rparr>,
      nd_relay = relay_manager_new my_peer_id, nd_bootstrap = bootstrap_new,
      nd_record_cache = dht_cache_new 1024 (64 * 2 ^ 20), nd_provider_cache = dht_cache_new 1024 (16 * 2 ^ 20),
      nd_running = True\<rparr>"

section \<open>The registry's channel\<close>

definition sc_receive :: "service_channel \<Rightarrow> service_channel" where
  "sc_receive c =
     (case sc_items c of
        [] \<Rightarrow> c
      | x # xs \<Rightarrow> c\<lparr>sc_items := xs, sc_received := sc_received c @ [x]\<rparr>)"

text \<open>\<open>Sender::send\<close> waits for room: the registry takes the oldest command first. A send to a closed
  channel is only logged.\<close>

definition sc_send :: "service_command \<Rightarrow> service_channel \<Rightarrow> service_channel" where
  "sc_send command c =
     (if \<not> sc_open c then c
      else
        (let c = (if length (sc_items c) < COMMAND_QUEUE_CAPACITY then c else sc_receive c)
         in c\<lparr>sc_items := sc_items c @ [command]\<rparr>))"

definition sc_try_send :: "service_command \<Rightarrow> service_channel \<Rightarrow> service_channel \<times> bool" where
  "sc_try_send command c =
     (if sc_open c \<and> length (sc_items c) < COMMAND_QUEUE_CAPACITY
      then (c\<lparr>sc_items := sc_items c @ [command]\<rparr>, True) else (c, False))"

definition send_service :: "service_command \<Rightarrow> node_controller \<Rightarrow> node_controller" where
  "send_service command n = n\<lparr>nd_services := sc_send command (nd_services n)\<rparr>"

definition notify_relay_state :: "node_controller \<Rightarrow> node_controller" where
  "notify_relay_state n =
     send_service (RelayStateChanged (needs_relay (nd_config n)) (length (rm_active (nd_relay n)))) n"

section \<open>Caches\<close>

definition invalidate_caches :: "node_controller \<Rightarrow> node_controller" where
  "invalidate_caches n =
     n\<lparr>nd_record_cache := invalidate_all (nd_record_cache n),
       nd_provider_cache := invalidate_all (nd_provider_cache n),
       nd_auth := gate_invalidate_all (nd_auth n)\<rparr>"

definition invalidate_record_key :: "string \<Rightarrow> node_controller \<Rightarrow> node_controller" where
  "invalidate_record_key key n =
     (let n = n\<lparr>nd_record_cache := invalidate key (nd_record_cache n)\<rparr>;
          n = (if prefix ''/oahd/auth/'' key then n\<lparr>nd_auth := gate_invalidate_all (nd_auth n)\<rparr> else n)
      in if prefix ''/oahd/service/'' key
         then n\<lparr>nd_provider_cache := invalidate key (nd_provider_cache n)\<rparr> else n)"

text \<open>The invalidations among the calls of a DHT worker reach the shared caches.\<close>

fun apply_call :: "dht_call \<Rightarrow> node_controller \<Rightarrow> node_controller" where
  "apply_call (InvalidateProviders key) n = n\<lparr>nd_provider_cache := invalidate key (nd_provider_cache n)\<rparr>"
| "apply_call (InvalidateRecord key) n = n\<lparr>nd_record_cache := invalidate key (nd_record_cache n)\<rparr>"
| "apply_call InvalidateAuth n = n\<lparr>nd_auth := gate_invalidate_all (nd_auth n)\<rparr>"
| "apply_call _ n = n"

section \<open>Authorization of inbound requests\<close>

definition aq_try_send :: "auth_job \<Rightarrow> auth_queue \<Rightarrow> auth_queue \<times> (unit, try_send_error) result" where
  "aq_try_send job q =
     (if \<not> aq_open q then (q, Err QueueClosed)
      else if length (aq_items q) \<ge> AUTH_QUEUE_CAPACITY then (q, Err QueueFull)
      else (q\<lparr>aq_items := aq_items q @ [job]\<rparr>, Ok ()))"

definition enqueue_auth :: "auth_job \<Rightarrow> node_controller \<Rightarrow> node_controller \<times> node_action list" where
  "enqueue_auth job n =
     (let index = unat (nd_auth_next n) mod length (nd_auth_txs n);
          n = n\<lparr>nd_auth_next := nd_auth_next n + 1\<rparr>;
          (q, sent) = aq_try_send job (nd_auth_txs n ! index);
          n = n\<lparr>nd_auth_txs := (nd_auth_txs n)[index := q]\<rparr>
      in (n, case sent of
               Ok _ \<Rightarrow> []
             | Err QueueFull \<Rightarrow> [Refuse (aj_request_id job) (refusal ''authentication overloaded'')]
             | Err QueueClosed \<Rightarrow> [Refuse (aj_request_id job) (refusal ''authentication unavailable'')]))"

text \<open>The worker takes its next job; the other half of its turn settles it.\<close>

definition auth_receive :: "auth_queue \<Rightarrow> auth_queue" where
  "auth_receive q =
     (case (aq_current q, aq_items q) of
        (None, job # jobs) \<Rightarrow> q\<lparr>aq_current := Some job, aq_items := jobs\<rparr>
      | _ \<Rightarrow> q)"

definition forward_auth_job :: "bool \<Rightarrow> auth_job \<Rightarrow> node_action list" where
  "forward_auth_job dispatcher_open job =
     (let inbound = \<lparr>in_service = aj_service job, in_payload = aj_payload job, in_response_tx = aj_response_tx job\<rparr>
      in if dispatcher_open then [Forward (aj_request_id job) inbound]
         else [Refuse (aj_request_id job) (refusal ''service unavailable: channel closed'')])"

fun settle_auth_job :: "bool \<Rightarrow> decision \<Rightarrow> auth_job \<Rightarrow> node_action list" where
  "settle_auth_job dispatcher_open Allow job = forward_auth_job dispatcher_open job"
| "settle_auth_job dispatcher_open AllowUnprotected job = forward_auth_job dispatcher_open job"
| "settle_auth_job dispatcher_open (Deny reason) job =
     [Refuse (aj_request_id job) (refusal (''unauthorized: '' @ reason))]"

definition auth_worker :: "node_env \<Rightarrow> nat \<Rightarrow> node_controller \<Rightarrow> node_controller \<times> node_action list" where
  "auth_worker env i n =
     (if i \<ge> length (nd_auth_txs n) then (n, [])
      else
        (let q = nd_auth_txs n ! i in
         case aq_current q of
           None \<Rightarrow> (n\<lparr>nd_auth_txs := (nd_auth_txs n)[i := auth_receive q]\<rparr>, [])
         | Some job \<Rightarrow>
             (case authorize (nv_auth env) (nv_show_peer env (aj_peer job)) (aj_service job) (nd_auth n) of
                (g, None) \<Rightarrow> (n, [])
              | (g, Some d) \<Rightarrow>
                  (n\<lparr>nd_auth := g, nd_auth_txs := (nd_auth_txs n)[i := q\<lparr>aq_current := None\<rparr>]\<rparr>,
                   settle_auth_job (nv_dispatcher_open env) d job))))"

section \<open>Network events\<close>

definition set_config :: "node_config \<Rightarrow> node_controller \<Rightarrow> node_controller" where
  "set_config config n = n\<lparr>nd_config := config, nd_auth := (nd_auth n)\<lparr>ag_config := config\<rparr>\<rparr>"

definition handle_ping :: "ping_event \<Rightarrow> node_controller \<Rightarrow> node_controller \<times> node_action list" where
  "handle_ping event n =
     (case on_ping event (ping_max_failures (nd_config n)) (nd_peers n) of
        (t, Some peer) \<Rightarrow> (n\<lparr>nd_peers := t\<rparr>, [DisconnectFrom peer])
      | (t, None) \<Rightarrow> (n\<lparr>nd_peers := t\<rparr>, []))"

fun handle_identify :: "node_env \<Rightarrow> identify_event \<Rightarrow> node_controller \<Rightarrow> node_controller \<times> node_action list" where
  "handle_identify env (IdentifyReceived peer_id info) n =
     (if prefix AGENT_NAME (if_agent_version info)
      then case on_identify (if_listen_addrs info) peer_id (nv_now env) (nd_config n) (nd_provider_cache n) of
             (config, cache, saved) \<Rightarrow>
               (set_config config (n\<lparr>nd_provider_cache := cache\<rparr>), if saved then [SaveConfig config] else [])
      else (n, []))"
| "handle_identify env (IdentifyError peer_id error) n = (n, [])"
| "handle_identify env IdentifyOther n = (n, [])"

definition node_announce :: "node_env \<Rightarrow> node_controller \<Rightarrow> node_controller \<times> node_action list" where
  "node_announce env n =
     (case announce_self (nd_config n) (nv_announce env) (nd_bootstrap n) of
        (b, called) \<Rightarrow>
          (n\<lparr>nd_bootstrap := b\<rparr>, if called then [Called (StartProviding BOOTSTRAP_PROVIDER_KEY)] else []))"

definition node_relay_tick :: "node_env \<Rightarrow> node_controller \<Rightarrow> node_controller \<times> node_action list" where
  "node_relay_tick env n =
     (case tick (nd_config n) (nv_listen env) (nv_now env) (nd_relay n) of
        (m, listened) \<Rightarrow> (n\<lparr>nd_relay := m\<rparr>, map ListenRelay listened))"

text \<open>Two operations in sequence.\<close>

definition and_then ::
    "('s \<Rightarrow> 's \<times> 'a list) \<Rightarrow> ('s \<Rightarrow> 's \<times> 'a list) \<Rightarrow> 's \<Rightarrow> 's \<times> 'a list" where
  "and_then f g s = (case f s of (s', xs) \<Rightarrow> (case g s' of (s'', ys) \<Rightarrow> (s'', xs @ ys)))"

definition top_up :: "node_env \<Rightarrow> node_controller \<Rightarrow> node_controller \<times> node_action list" where
  "top_up env = and_then (node_announce env) (node_relay_tick env)"

fun handle_controller_event :: "node_env \<Rightarrow> network_event \<Rightarrow> node_controller \<Rightarrow> node_controller \<times> node_action list" where
  "handle_controller_event env (NePing event) n = handle_ping event n"
| "handle_controller_event env (NeIdentify event) n = handle_identify env event n"
| "handle_controller_event env NeBootstrapCompleted n =
     top_up env (send_service BootstrapCompleted (n\<lparr>nd_bootstrap := bootstrap_reset (nd_bootstrap n)\<rparr>))"
| "handle_controller_event env (NeInboundServiceRequest peer request_id service payload response_tx) n =
     enqueue_auth \<lparr>aj_peer = peer, aj_request_id = request_id, aj_service = service, aj_payload = payload,
       aj_response_tx = response_tx\<rparr> n"
| "handle_controller_event env NeRelay n = (n, [])"
| "handle_controller_event env (NeRelayClient event) n =
     (n\<lparr>nd_relay := on_relay_client_event event (nd_relay n)\<rparr>, [])"
| "handle_controller_event env (NeRelayCircuitReady addr) n =
     (notify_relay_state (n\<lparr>nd_relay := fst (on_circuit_ready addr (nd_relay n))\<rparr>), [])"
| "handle_controller_event env (NeListenerClosed addresses) n =
     (case on_listener_closed (nd_config n) (zip addresses (map (nv_clock env) [0..<length addresses])) (nd_relay n) of
        (m, True) \<Rightarrow> node_relay_tick env (notify_relay_state (n\<lparr>nd_relay := m\<rparr>))
      | (m, False) \<Rightarrow> (n\<lparr>nd_relay := m\<rparr>, []))"

section \<open>Control commands in the controller\<close>

text \<open>\<open>Display\<close> of the standard library's IP addresses.\<close>

definition show_ipv4 :: "u32 \<Rightarrow> string" where
  "show_ipv4 a =
     (let octet = (\<lambda>k. dec (unat (drop_bit k a AND 0xFF)))
      in octet 24 @ ''.'' @ octet 16 @ ''.'' @ octet 8 @ ''.'' @ octet 0)"

definition hex_digit :: "nat \<Rightarrow> char" where
  "hex_digit d = (if d < 10 then char_of (48 + d) else char_of (87 + d))"

fun hex :: "nat \<Rightarrow> string" where
  "hex n = (if n < 16 then [hex_digit n] else hex (n div 16) @ [hex_digit (n mod 16)])"

declare hex.simps [simp del]

definition ipv6_segments :: "128 word \<Rightarrow> nat list" where
  "ipv6_segments a = map (\<lambda>k. unat (drop_bit (112 - 16 * k) a AND 0xFFFF)) [0..<8]"

text \<open>The first of the longest runs of zero segments, as its start and its length.\<close>

fun zero_span :: "nat \<Rightarrow> nat \<times> nat \<Rightarrow> nat \<times> nat \<Rightarrow> nat list \<Rightarrow> nat \<times> nat" where
  "zero_span i current longest [] = longest"
| "zero_span i (start, zeros) longest (s # ss) =
     (if s = 0
      then (let current = (if zeros = 0 then i else start, zeros + 1)
            in zero_span (i + 1) current (if zeros + 1 > snd longest then current else longest) ss)
      else zero_span (i + 1) (0, 0) longest ss)"

fun join_segments :: "nat list \<Rightarrow> string" where
  "join_segments [] = []"
| "join_segments (s # ss) = hex s @ concat (map (\<lambda>s. '':'' @ hex s) ss)"

definition show_ipv6 :: "128 word \<Rightarrow> string" where
  "show_ipv6 a =
     (let segments = ipv6_segments a in
      if take 5 segments = [0, 0, 0, 0, 0] \<and> segments ! 5 = 0xFFFF
      then ''::ffff:'' @ show_ipv4 (ucast a)
      else
        (let (start, zeros) = zero_span 0 (0, 0) (0, 0) segments
         in if zeros > 1 then join_segments (take start segments) @ ''::'' @ join_segments (drop (start + zeros) segments)
            else join_segments segments))"

fun show_ip :: "ip_addr \<Rightarrow> string" where
  "show_ip (V4 a) = show_ipv4 a"
| "show_ip (V6 a) = show_ipv6 a"

text \<open>A command yields the controller, its result and its actions.\<close>

type_synonym command_result = "node_controller \<times> (bytes, string) result \<times> node_action list"

definition cmd_list_services :: "node_env \<Rightarrow> node_controller \<Rightarrow> command_result" where
  "cmd_list_services env n =
     (n\<lparr>nd_services := fst (sc_try_send RefreshTypes (nd_services n))\<rparr>,
      Ok (nv_to_cbor env (CArray (map CText (ss_types (nd_snapshot n))))), [])"

definition cmd_discover_providers :: "node_env \<Rightarrow> string \<Rightarrow> node_controller \<Rightarrow> command_result" where
  "cmd_discover_providers env service n =
     (n, map_ok (\<lambda>ps. nv_to_cbor env (provider_strings (nv_show_peer env) ps)) (fetch_providers (nv_answers env) 0),
      [Called (ReadProviders (''/oahd/service/'' @ service))])"

definition opt_text :: "string option \<Rightarrow> cbor_value" where
  "opt_text v = (case v of None \<Rightarrow> CNull | Some s \<Rightarrow> CText s)"

definition cmd_query_public_ip :: "node_env \<Rightarrow> node_controller \<Rightarrow> command_result" where
  "cmd_query_public_ip env n =
     (let network = cfg_network (nd_config n);
          ip_info = json_object [(''ipv4'', opt_text (map_option show_ip (nc_ipv4_address network))),
                                 (''ipv6'', opt_text (map_option show_ip (nc_ipv6_address network)))]
      in (n, Ok (nv_to_cbor env ip_info), []))"

definition cmd_whoami :: "node_env \<Rightarrow> node_controller \<Rightarrow> command_result" where
  "cmd_whoami env n =
     (let node = cfg_node (nd_config n)
      in (n, Ok (nv_to_cbor env (CMap [(''peer_id'', CText (nv_show_peer env (nd_my_peer_id n))),
                 (''name'', CText (ni_name node)), (''description'', CText (ni_description node))])), []))"

definition cmd_reconnect_bootstrap :: "node_env \<Rightarrow> node_controller \<Rightarrow> command_result" where
  "cmd_reconnect_bootstrap env n =
     (let any_success = list_ex (\<lambda>addr. is_ok (nv_dial env addr)) (bootstrap_nodes (nd_config n))
      in (n, Ok (nv_to_cbor env (json_object [(''success'', CBool any_success)])),
          map DialAddr (bootstrap_nodes (nd_config n))))"

definition cmd_reannounce_services :: "node_env \<Rightarrow> node_controller \<Rightarrow> command_result" where
  "cmd_reannounce_services env n =
     (case sc_try_send Reannounce (nd_services n) of
        (_, False) \<Rightarrow> (n, Err ''registry busy'', [])
      | (c, True) \<Rightarrow>
          (n\<lparr>nd_services := c\<rparr>, Ok (nv_to_cbor env (json_object [(''success'', CBool True)])), []))"

definition failure_report :: "network_error \<Rightarrow> cbor_value" where
  "failure_report e = json_object [(''success'', CBool False), (''error'', CText (show_network_error e))]"

definition cmd_reload_config :: "node_env \<Rightarrow> node_controller \<Rightarrow> command_result" where
  "cmd_reload_config env n =
     (case nv_reload env of
        Ok _ \<Rightarrow>
          (let n = n\<lparr>nd_relay := relay_reset (nd_relay n), nd_bootstrap := bootstrap_reset (nd_bootstrap n)\<rparr>;
               n = send_service Reset n;
               n = n\<lparr>nd_auth := reload (nv_lib env) (nd_auth n)\<rparr>
           in (invalidate_caches n, Ok (nv_to_cbor env (json_object [(''success'', CBool True)])), [ReloadSwarm]))
      | Err e \<Rightarrow> (n, Ok (nv_to_cbor env (failure_report e)), [ReloadSwarm]))"

definition cmd_refresh_cache :: "node_env \<Rightarrow> node_controller \<Rightarrow> command_result" where
  "cmd_refresh_cache env n =
     (let result = (case nv_refreshed env of
                      Ok cleared \<Rightarrow> json_object [(''success'', CBool True), (''cleared'', CNat cleared)]
                    | Err e \<Rightarrow> failure_report e)
      in (invalidate_caches n, Ok (nv_to_cbor env result), [RefreshStore]))"

definition cmd_relay_status :: "node_env \<Rightarrow> node_controller \<Rightarrow> command_result" where
  "cmd_relay_status env n =
     (let peers = (\<lambda>ps. CArray (map (\<lambda>p. CText (nv_show_peer env p)) ps));
          active = peers (rm_active (nd_relay n)); pending = peers (map fst (rm_pending (nd_relay n)))
      in (n, Ok (nv_to_cbor env (json_object
            [(''need_relay'', CBool (needs_relay (nd_config n))), (''target'', CNat RELAY_TARGET),
             (''active'', active), (''pending'', pending),
             (''reachability'', CText (reachability_label (has_public_address (nd_config n))
                (length (rm_active (nd_relay n))))),
             (''active_relays'', active), (''pending_relays'', pending)])), []))"

definition cmd_pq_status :: "node_env \<Rightarrow> node_controller \<Rightarrow> command_result" where
  "cmd_pq_status env n =
     (n, Ok (nv_to_cbor env (json_object
        [(''enabled'', CBool (pq_enabled (nd_config n))), (''transport'', CBool (pq_transport_enabled (nd_config n))),
         (''identity'', CBool (pq_identity_enabled (nd_config n))), (''required'', CBool (pq_required (nd_config n)))])),
      [])"

text \<open>A name that occurs twice is one member of the map of versions.\<close>

definition cmd_auth_status :: "node_env \<Rightarrow> node_controller \<Rightarrow> command_result" where
  "cmd_auth_status env n =
     (let (state, detail) = state_label (ag_state (nd_auth n));
          versions = ag_versions (nd_auth n);
          local_required = filter is_valid_service_name (auth_required_services (nd_config n));
          whitelist_versions = List.map_filter
            (\<lambda>name. map_option (\<lambda>v. (name, CNat (unat v))) (av_whitelists versions name)) (remdups local_required)
      in (n, Ok (nv_to_cbor env (json_object
            ([(''network'', CText (auth_network (nd_config n))), (''state'', CText state),
              (''local_required'', CArray (map CText local_required))]
             @ (case detail of None \<Rightarrow> [] | Some d \<Rightarrow> [(''detail'', CText d)])
             @ (case av_index versions of None \<Rightarrow> [] | Some v \<Rightarrow> [(''index_version'', CNat (unat v))])
             @ [(''whitelist_versions'', json_object whitelist_versions)]))), []))"

definition start_providing_record :: "node_env \<Rightarrow> string \<Rightarrow> (unit, string) result" where
  "start_providing_record env key = map_err (\<lambda>e. ''start_providing failed: '' @ show_network_error e) (nv_provide env)"

definition cmd_add_key :: "node_env \<Rightarrow> string \<Rightarrow> bytes option \<Rightarrow> bool \<Rightarrow> node_controller \<Rightarrow> command_result" where
  "cmd_add_key env key val providing n =
     (let done_ok = Ok (nv_to_cbor env (ack key));
          provide = (\<lambda>n calls.
            (n, rbind (start_providing_record env key) (\<lambda>_. done_ok), calls @ [Called (StartProviding key)]))
      in
      case add_key_check key of
        Err e \<Rightarrow> (n, Err e, [])
      | Ok _ \<Rightarrow>
          (case val of
             Some bs \<Rightarrow>
               (case check_compat_record_size (length bs) (compat_max_record_bytes (nd_config n)) of
                  Err e \<Rightarrow> (n, Err e, [])
                | Ok _ \<Rightarrow>
                    (let put = [Called (PutValue key bs (quorum_for_key key))] in
                     case an_put (nv_answers env) of
                       Err e \<Rightarrow> (n, Err (''put_record failed: '' @ show_network_error e), put)
                     | Ok _ \<Rightarrow>
                         (let n = invalidate_record_key key n
                          in if providing then provide n put else (n, done_ok, put))))
           | None \<Rightarrow>
               if providing then provide n []
               else (n, Err ''at least one of 'value' or 'providing' is required'', [])))"

definition cmd_remove_key :: "node_env \<Rightarrow> string \<Rightarrow> bool \<Rightarrow> bool \<Rightarrow> node_controller \<Rightarrow> command_result" where
  "cmd_remove_key env key providing record n =
     (case add_key_check key of
        Err e \<Rightarrow> (n, Err e, [])
      | Ok _ \<Rightarrow>
          if \<not> providing \<and> \<not> record then (n, Err ''at least one of 'providing' or 'record' is required'', [])
          else
            (let stop = (if providing then [Called (StopProviding key)] else []) in
             case (if providing then nv_stop env else Ok ()) of
               Err e \<Rightarrow> (n, Err (''stop_providing failed: '' @ show_network_error e), stop)
             | Ok _ \<Rightarrow>
                 (let calls = stop @ (if record then [Called (RemoveValue key)] else []) in
                  case (if record then nv_remove env else Ok ()) of
                    Err e \<Rightarrow> (n, Err (''remove_record failed: '' @ show_network_error e), calls)
                  | Ok _ \<Rightarrow>
                      (invalidate_record_key key n,
                       Ok (nv_to_cbor env (json_object [(''success'', CBool True), (''key'', CText key),
                          (''providing'', CBool providing), (''record'', CBool record)])), calls))))"

definition cmd_query_key :: "node_env \<Rightarrow> string \<Rightarrow> node_controller \<Rightarrow> command_result" where
  "cmd_query_key env key n =
     (case query_key (nv_to_cbor env) (nv_show_peer env) (nv_answers env) key of
        (r, calls) \<Rightarrow> (n, r, map Called calls))"

definition cmd_service_request :: "node_env \<Rightarrow> string \<Rightarrow> bytes \<Rightarrow> node_controller \<Rightarrow> command_result" where
  "cmd_service_request env service payload n =
     (case request_service (nv_answers env) (nd_peers n) (nd_my_peer_id n) (service_record_key service)
             \<lparr>sq_service = service, sq_payload = payload\<rparr> of
        (r, calls) \<Rightarrow> (fold apply_call calls n, r, map Called calls))"

definition cmd_service_request_to :: "node_env \<Rightarrow> string \<Rightarrow> string \<Rightarrow> bytes \<Rightarrow> node_controller \<Rightarrow> command_result" where
  "cmd_service_request_to env service peer payload n =
     (case nv_parse_peer env peer of
        Err e \<Rightarrow> (n, Err (''invalid peer id: '' @ e), [])
      | Ok peer_id \<Rightarrow>
          (let request = \<lparr>sq_service = service, sq_payload = payload\<rparr>
           in (n, rbind (map_err show_network_error (an_send (nv_answers env) 0)) response_payload,
               [Called (SendTo peer_id request [])])))"

text \<open>Every command has a result, so the fallback of its caller for a missing one is never used.\<close>

fun run_command :: "node_env \<Rightarrow> message \<Rightarrow> node_controller \<Rightarrow> command_result" where
  "run_command env (ListServices _) n = cmd_list_services env n"
| "run_command env (DiscoverProviders _ service) n = cmd_discover_providers env service n"
| "run_command env (QueryPublicIp _) n = cmd_query_public_ip env n"
| "run_command env (Whoami _) n = cmd_whoami env n"
| "run_command env (ReconnectBootstrap _) n = cmd_reconnect_bootstrap env n"
| "run_command env (ReannounceServices _) n = cmd_reannounce_services env n"
| "run_command env (ReloadConfig _) n = cmd_reload_config env n"
| "run_command env (RefreshCache _) n = cmd_refresh_cache env n"
| "run_command env (RelayStatus _) n = cmd_relay_status env n"
| "run_command env (PqStatus _) n = cmd_pq_status env n"
| "run_command env (AuthStatus _) n = cmd_auth_status env n"
| "run_command env (AddKey _ key val providing) n = cmd_add_key env key val providing n"
| "run_command env (RemoveKey _ key providing record) n = cmd_remove_key env key providing record n"
| "run_command env (QueryKey _ key) n = cmd_query_key env key n"
| "run_command env (ServiceRequest _ service payload) n = cmd_service_request env service payload n"
| "run_command env (ServiceRequestTo _ service peer payload) n = cmd_service_request_to env service peer payload n"
| "run_command env _ n = (n, Err ''command not supported'', [])"

text \<open>A command that reads or writes the DHT gets a worker, which holds a permit; with none left it is
  refused. The others run in the controller.\<close>

definition dispatch_command ::
    "node_env \<Rightarrow> message \<Rightarrow> reply_channel \<Rightarrow> node_controller \<Rightarrow> node_controller \<times> node_action list" where
  "dispatch_command env msg resp_tx n =
     (if can_run_in_dht_worker msg
      then if nd_dht_permits n = 0 then (n, [AnswerControl resp_tx (Err ''node busy: too many DHT commands'')])
           else (n\<lparr>nd_dht_permits := nd_dht_permits n - 1,
                   nd_workers := nd_workers n @ [\<lparr>dw_msg = msg, dw_resp_tx = resp_tx, dw_peers = nd_peers n,
                     dw_max_record_bytes = compat_max_record_bytes (nd_config n)\<rparr>]\<rparr>, [])
      else case run_command env msg n of (n, result, actions) \<Rightarrow> (n, actions @ [AnswerControl resp_tx result]))"

definition dht_worker_run :: "node_env \<Rightarrow> nat \<Rightarrow> node_controller \<Rightarrow> node_controller \<times> node_action list" where
  "dht_worker_run env i n =
     (if i \<ge> length (nd_workers n) then (n, [])
      else
        (let w = nd_workers n ! i in
         case run_dht_command (nv_to_cbor env) (nv_show_peer env) (nv_parse_peer env) (nv_answers env) (dw_peers w)
                (nd_my_peer_id n) (dw_max_record_bytes w) (dw_msg w) of
           (result, calls) \<Rightarrow>
             (fold apply_call calls (n\<lparr>nd_workers := remove_nth i (nd_workers n), nd_dht_permits := nd_dht_permits n + 1\<rparr>),
              map Called calls @ [AnswerControl (dw_resp_tx w) result])))"

section \<open>The controller and its tasks as a system of steps\<close>

datatype node_input =
    NetworkInput network_event
  | ControlInput message reply_channel
  | ServiceTick
  | RelayTick
  | StopSignal
  | AuthTurn nat
  | WorkerTurn nat
  | RegistryTurn
  | SnapshotPublished service_snapshot
  | IndexCacheTurn "(string, index_doc) cache_event"
  | WhitelistCacheTurn "(whitelist_key, whitelist_doc) cache_event"
  | RecordCacheTurn "(string, bytes) cache_event"
  | ProviderCacheTurn "(string, peer_id list) cache_event"

definition node_start :: "auth_lib \<Rightarrow> node_config \<Rightarrow> peer_id \<Rightarrow> node_controller" where
  "node_start lib config my_peer_id = notify_relay_state (node_new lib config my_peer_id)"

fun node_turn :: "node_env \<Rightarrow> node_input \<Rightarrow> node_controller \<Rightarrow> node_controller \<times> node_action list" where
  "node_turn env (NetworkInput event) n = handle_controller_event env event n"
| "node_turn env (ControlInput msg resp_tx) n = dispatch_command env msg resp_tx n"
| "node_turn env ServiceTick n =
     (n\<lparr>nd_services := fst (sc_try_send service_command.Tick (nd_services n))\<rparr>, [])"
| "node_turn env RelayTick n = top_up env n"
| "node_turn env StopSignal n = (n\<lparr>nd_running := False\<rparr>, [StopSwarm])"
| "node_turn env (AuthTurn i) n = auth_worker env i n"
| "node_turn env (WorkerTurn i) n = dht_worker_run env i n"
| "node_turn env RegistryTurn n = (n\<lparr>nd_services := sc_receive (nd_services n)\<rparr>, [])"
| "node_turn env (SnapshotPublished snapshot) n = (n\<lparr>nd_snapshot := snapshot\<rparr>, [])"
| "node_turn env (IndexCacheTurn e) n = (n\<lparr>nd_auth := gate_step (nv_lib env) (GIndexStep e) (nd_auth n)\<rparr>, [])"
| "node_turn env (WhitelistCacheTurn e) n =
     (n\<lparr>nd_auth := gate_step (nv_lib env) (GWhitelistStep e) (nd_auth n)\<rparr>, [])"
| "node_turn env (RecordCacheTurn e) n = (n\<lparr>nd_record_cache := cache_step e (nd_record_cache n)\<rparr>, [])"
| "node_turn env (ProviderCacheTurn e) n = (n\<lparr>nd_provider_cache := cache_step e (nd_provider_cache n)\<rparr>, [])"

text \<open>After the stop signal the loop has returned.\<close>

definition node_step :: "node_env \<Rightarrow> node_input \<Rightarrow> node_controller \<Rightarrow> node_controller \<times> node_action list" where
  "node_step env input n = (if nd_running n then node_turn env input n else (n, []))"

section \<open>What each operation leaves alone\<close>

lemma send_service_fields [simp]:
  "nd_config (send_service c n) = nd_config n" "nd_auth (send_service c n) = nd_auth n"
  "nd_auth_txs (send_service c n) = nd_auth_txs n" "nd_dht_permits (send_service c n) = nd_dht_permits n"
  "nd_workers (send_service c n) = nd_workers n" "nd_relay (send_service c n) = nd_relay n"
  "nd_record_cache (send_service c n) = nd_record_cache n" "nd_provider_cache (send_service c n) = nd_provider_cache n"
  "nd_bootstrap (send_service c n) = nd_bootstrap n" "nd_running (send_service c n) = nd_running n"
  "nd_services (send_service c n) = sc_send c (nd_services n)"
  by (simp_all add: send_service_def)

lemma notify_relay_state_fields [simp]:
  "nd_config (notify_relay_state n) = nd_config n" "nd_auth (notify_relay_state n) = nd_auth n"
  "nd_auth_txs (notify_relay_state n) = nd_auth_txs n" "nd_dht_permits (notify_relay_state n) = nd_dht_permits n"
  "nd_workers (notify_relay_state n) = nd_workers n" "nd_relay (notify_relay_state n) = nd_relay n"
  "nd_record_cache (notify_relay_state n) = nd_record_cache n"
  "nd_provider_cache (notify_relay_state n) = nd_provider_cache n"
  "nd_running (notify_relay_state n) = nd_running n"
  "nd_services (notify_relay_state n) =
     sc_send (RelayStateChanged (needs_relay (nd_config n)) (length (rm_active (nd_relay n)))) (nd_services n)"
  by (simp_all add: notify_relay_state_def)

lemma invalidate_caches_fields [simp]:
  "nd_config (invalidate_caches n) = nd_config n" "nd_auth (invalidate_caches n) = gate_invalidate_all (nd_auth n)"
  "nd_auth_txs (invalidate_caches n) = nd_auth_txs n" "nd_dht_permits (invalidate_caches n) = nd_dht_permits n"
  "nd_workers (invalidate_caches n) = nd_workers n" "nd_relay (invalidate_caches n) = nd_relay n"
  "nd_services (invalidate_caches n) = nd_services n" "nd_bootstrap (invalidate_caches n) = nd_bootstrap n"
  "nd_record_cache (invalidate_caches n) = invalidate_all (nd_record_cache n)"
  "nd_provider_cache (invalidate_caches n) = invalidate_all (nd_provider_cache n)"
  by (simp_all add: invalidate_caches_def)

lemma invalidate_record_key_fields [simp]:
  "nd_config (invalidate_record_key key n) = nd_config n"
  "nd_auth_txs (invalidate_record_key key n) = nd_auth_txs n"
  "nd_dht_permits (invalidate_record_key key n) = nd_dht_permits n"
  "nd_workers (invalidate_record_key key n) = nd_workers n" "nd_relay (invalidate_record_key key n) = nd_relay n"
  "nd_services (invalidate_record_key key n) = nd_services n"
  "nd_record_cache (invalidate_record_key key n) = invalidate key (nd_record_cache n)"
  "nd_auth (invalidate_record_key key n) =
     (if prefix ''/oahd/auth/'' key then gate_invalidate_all (nd_auth n) else nd_auth n)"
  "nd_provider_cache (invalidate_record_key key n) =
     (if prefix ''/oahd/service/'' key then invalidate key (nd_provider_cache n) else nd_provider_cache n)"
  by (simp_all add: invalidate_record_key_def Let_def)

lemma apply_call_fields [simp]:
  "nd_config (apply_call c n) = nd_config n" "nd_auth_txs (apply_call c n) = nd_auth_txs n"
  "nd_dht_permits (apply_call c n) = nd_dht_permits n" "nd_workers (apply_call c n) = nd_workers n"
  "nd_relay (apply_call c n) = nd_relay n" "nd_services (apply_call c n) = nd_services n"
  by (cases c; simp)+

lemma apply_calls_fields [simp]:
  "nd_config (fold apply_call cs n) = nd_config n" "nd_auth_txs (fold apply_call cs n) = nd_auth_txs n"
  "nd_dht_permits (fold apply_call cs n) = nd_dht_permits n" "nd_workers (fold apply_call cs n) = nd_workers n"
  "nd_relay (fold apply_call cs n) = nd_relay n" "nd_services (fold apply_call cs n) = nd_services n"
  by (induction cs arbitrary: n; simp)+

lemma set_config_fields [simp]:
  "nd_config (set_config c n) = c" "nd_auth (set_config c n) = (nd_auth n)\<lparr>ag_config := c\<rparr>"
  "nd_auth_txs (set_config c n) = nd_auth_txs n" "nd_dht_permits (set_config c n) = nd_dht_permits n"
  "nd_workers (set_config c n) = nd_workers n" "nd_relay (set_config c n) = nd_relay n"
  "nd_services (set_config c n) = nd_services n" "nd_record_cache (set_config c n) = nd_record_cache n"
  "nd_provider_cache (set_config c n) = nd_provider_cache n"
  by (simp_all add: set_config_def)

text \<open>The commands that run in the controller leave the queues, the workers and the configuration alone.\<close>

lemmas command_defs = cmd_list_services_def cmd_discover_providers_def cmd_query_public_ip_def cmd_whoami_def
  cmd_reconnect_bootstrap_def cmd_reannounce_services_def cmd_reload_config_def cmd_refresh_cache_def
  cmd_relay_status_def cmd_pq_status_def cmd_auth_status_def cmd_add_key_def cmd_remove_key_def cmd_query_key_def
  cmd_service_request_def cmd_service_request_to_def

definition same_desk :: "node_controller \<Rightarrow> node_controller \<Rightarrow> bool" where
  "same_desk n n' \<longleftrightarrow> nd_config n' = nd_config n \<and> nd_auth_txs n' = nd_auth_txs n
     \<and> nd_dht_permits n' = nd_dht_permits n \<and> nd_workers n' = nd_workers n"

lemma run_command_desk: "same_desk n (fst (run_command env msg n))"
  by (cases msg) (auto simp: same_desk_def command_defs Let_def case_prod_unfold split: result.split option.split bool.split)

lemma tick_active: "rm_active (fst (tick config listen_on now m)) = rm_active m"
proof -
  have expire: "rm_active (expire_pending config now m) = rm_active m"
  proof -
    have "rm_active (fold (\<lambda>p m. record_failure config p now (m\<lparr>rm_pending := hm_del p (rm_pending m)\<rparr>)) ps m)
        = rm_active m" for ps
      by (induction ps arbitrary: m) simp_all
    then show ?thesis by (simp add: expire_pending_def)
  qed
  have "rm_active (fst (tick_loop config listen_on now desired cs m)) = rm_active m" for desired cs m
    by (induction config listen_on now desired cs m rule: tick_loop.induct)
      (auto simp: Let_def split: result.split prod.split option.split)
  with expire show ?thesis by (simp add: tick_def Let_def)
qed

lemma closed_active:
  "\<not> snd (on_listener_closed config addrs m) \<Longrightarrow> rm_active (fst (on_listener_closed config addrs m)) = rm_active m"
  by (induction config addrs m rule: on_listener_closed.induct)
    (auto simp: Let_def removeAll_id split: if_splits option.splits)

lemma top_up_fields [simp]:
  "nd_config (fst (top_up env n)) = nd_config n" "nd_auth (fst (top_up env n)) = nd_auth n"
  "nd_auth_txs (fst (top_up env n)) = nd_auth_txs n" "nd_dht_permits (fst (top_up env n)) = nd_dht_permits n"
  "nd_workers (fst (top_up env n)) = nd_workers n" "nd_services (fst (top_up env n)) = nd_services n"
  "nd_record_cache (fst (top_up env n)) = nd_record_cache n"
  "nd_provider_cache (fst (top_up env n)) = nd_provider_cache n"
  "nd_relay (fst (top_up env n)) = fst (tick (nd_config n) (nv_listen env) (nv_now env) (nd_relay n))"
  by (simp_all add: top_up_def and_then_def node_announce_def node_relay_tick_def case_prod_unfold)

lemma node_relay_tick_fields [simp]:
  "nd_config (fst (node_relay_tick env n)) = nd_config n" "nd_auth (fst (node_relay_tick env n)) = nd_auth n"
  "nd_auth_txs (fst (node_relay_tick env n)) = nd_auth_txs n"
  "nd_dht_permits (fst (node_relay_tick env n)) = nd_dht_permits n"
  "nd_workers (fst (node_relay_tick env n)) = nd_workers n" "nd_services (fst (node_relay_tick env n)) = nd_services n"
  "nd_record_cache (fst (node_relay_tick env n)) = nd_record_cache n"
  "nd_provider_cache (fst (node_relay_tick env n)) = nd_provider_cache n"
  "nd_relay (fst (node_relay_tick env n)) = fst (tick (nd_config n) (nv_listen env) (nv_now env) (nd_relay n))"
  by (simp_all add: node_relay_tick_def case_prod_unfold)

section \<open>Requests and commands are accounted for\<close>

fun inbound_of :: "node_input \<Rightarrow> string multiset" where
  "inbound_of (NetworkInput (NeInboundServiceRequest peer request_id service payload tx)) = {#request_id#}"
| "inbound_of _ = {#}"

fun settled :: "node_action \<Rightarrow> string option" where
  "settled (Refuse request_id response) = Some request_id"
| "settled (Forward request_id inbound) = Some request_id"
| "settled _ = None"

definition settled_in :: "node_action list \<Rightarrow> string multiset" where
  "settled_in acts = mset (List.map_filter settled acts)"

definition queue_ids :: "auth_queue \<Rightarrow> string list" where
  "queue_ids q = (case aq_current q of None \<Rightarrow> [] | Some job \<Rightarrow> [aj_request_id job]) @ map aj_request_id (aq_items q)"

definition held_requests :: "node_controller \<Rightarrow> string multiset" where
  "held_requests n = mset (concat (map queue_ids (nd_auth_txs n)))"

fun control_of :: "node_input \<Rightarrow> reply_channel multiset" where
  "control_of (ControlInput msg resp_tx) = {#resp_tx#}"
| "control_of _ = {#}"

fun control_answer :: "node_action \<Rightarrow> reply_channel option" where
  "control_answer (AnswerControl resp_tx result) = Some resp_tx"
| "control_answer _ = None"

definition answered_in :: "node_action list \<Rightarrow> reply_channel multiset" where
  "answered_in acts = mset (List.map_filter control_answer acts)"

definition running_commands :: "node_controller \<Rightarrow> reply_channel multiset" where
  "running_commands n = mset (map dw_resp_tx (nd_workers n))"

lemma settled_in_simps [simp]:
  "settled_in [] = {#}" "settled_in (xs @ ys) = settled_in xs + settled_in ys"
  "settled_in (x # xs) = (case settled x of None \<Rightarrow> {#} | Some i \<Rightarrow> {#i#}) + settled_in xs"
  by (simp_all add: settled_in_def List.map_filter_def split: option.split)

lemma answered_in_simps [simp]:
  "answered_in [] = {#}" "answered_in (xs @ ys) = answered_in xs + answered_in ys"
  "answered_in (x # xs) = (case control_answer x of None \<Rightarrow> {#} | Some c \<Rightarrow> {#c#}) + answered_in xs"
  by (simp_all add: answered_in_def List.map_filter_def split: option.split)

text \<open>Actions that settle neither a request nor a command.\<close>

fun silent :: "node_action \<Rightarrow> bool" where
  "silent (Refuse request_id response) = False"
| "silent (Forward request_id inbound) = False"
| "silent (AnswerControl resp_tx result) = False"
| "silent _ = True"

lemma silent_in:
  assumes "list_all silent acts"
  shows "settled_in acts = {#}" and "answered_in acts = {#}"
proof -
  have "settled a = None \<and> control_answer a = None" if "silent a" for a using that by (cases a) simp_all
  then show "settled_in acts = {#}" "answered_in acts = {#}" using assms by (induction acts) auto
qed

lemma top_up_silent [simp]: "list_all silent (snd (top_up env n))"
  by (auto simp: top_up_def and_then_def node_announce_def node_relay_tick_def case_prod_unfold list_all_iff)

lemma run_command_silent: "list_all silent (snd (snd (run_command env msg n)))"
  by (cases msg) (auto simp: command_defs Let_def case_prod_unfold list_all_iff split: result.split option.split bool.split)

lemma held_update:
  assumes "i < length txs"
  shows "mset (concat (map f (txs[i := q]))) + mset (f (txs ! i)) = mset (concat (map f txs)) + mset (f q)"
proof -
  have "txs = take i txs @ txs ! i # drop (Suc i) txs" using assms by (rule id_take_nth_drop)
  then have "mset (concat (map f txs)) = mset (concat (map f (take i txs @ txs ! i # drop (Suc i) txs)))" by simp
  moreover have "txs[i := q] = take i txs @ q # drop (Suc i) txs" using assms by (rule upd_conv_take_nth_drop)
  ultimately show ?thesis by simp
qed

definition accounts :: "node_input \<Rightarrow> node_controller \<Rightarrow> node_controller \<times> node_action list \<Rightarrow> bool" where
  "accounts i n r \<longleftrightarrow>
     inbound_of i + held_requests n = settled_in (snd r) + held_requests (fst r)
     \<and> control_of i + running_commands n = answered_in (snd r) + running_commands (fst r)
     \<and> nd_dht_permits (fst r) + length (nd_workers (fst r)) = nd_dht_permits n + length (nd_workers n)"

lemma accounts_quiet:
  assumes "inbound_of i = {#}" "control_of i = {#}" "list_all silent (snd r)"
    and "nd_auth_txs (fst r) = nd_auth_txs n" "nd_workers (fst r) = nd_workers n"
    "nd_dht_permits (fst r) = nd_dht_permits n"
  shows "accounts i n r"
  using assms by (simp add: accounts_def silent_in held_requests_def running_commands_def)

lemma enqueue_accounts:
  assumes "nd_auth_txs n \<noteq> []"
  shows "accounts (NetworkInput (NeInboundServiceRequest peer request_id service payload tx)) n
    (enqueue_auth \<lparr>aj_peer = peer, aj_request_id = request_id, aj_service = service, aj_payload = payload,
       aj_response_tx = tx\<rparr> n)"
proof -
  let ?i = "unat (nd_auth_next n) mod length (nd_auth_txs n)"
  let ?q = "nd_auth_txs n ! ?i"
  let ?job = "\<lparr>aj_peer = peer, aj_request_id = request_id, aj_service = service, aj_payload = payload, aj_response_tx = tx\<rparr>"
  have i: "?i < length (nd_auth_txs n)" using assms by simp
  have "mset (concat (map queue_ids ((nd_auth_txs n)[?i := ?q\<lparr>aq_items := aq_items ?q @ [?job]\<rparr>])))
      = add_mset request_id (mset (concat (map queue_ids (nd_auth_txs n))))"
    using held_update [OF i, of queue_ids "?q\<lparr>aq_items := aq_items ?q @ [?job]\<rparr>"]
    by (simp add: queue_ids_def split: option.splits)
  then show ?thesis
    by (auto simp: accounts_def enqueue_auth_def aq_try_send_def Let_def held_requests_def running_commands_def)
qed

lemma forward_settles: "settled_in (settle_auth_job open' d job) = {#aj_request_id job#}"
  and forward_answers: "answered_in (settle_auth_job open' d job) = {#}"
  by (cases d; simp add: forward_auth_job_def Let_def)+

lemma auth_worker_accounts: "accounts (AuthTurn i) n (auth_worker env i n)"
proof (cases "i < length (nd_auth_txs n)")
  case True
  let ?q = "nd_auth_txs n ! i"
  show ?thesis
  proof (cases "aq_current ?q")
    case None
    have "mset (queue_ids (auth_receive ?q)) = mset (queue_ids ?q)"
      using None by (simp add: auth_receive_def queue_ids_def split: list.split)
    with held_update [OF True, of queue_ids "auth_receive ?q"] None True show ?thesis
      by (simp add: auth_worker_def accounts_def held_requests_def running_commands_def)
  next
    case (Some job)
    have "mset (queue_ids ?q) = add_mset (aj_request_id job) (mset (queue_ids (?q\<lparr>aq_current := None\<rparr>)))"
      using Some by (simp add: queue_ids_def)
    with held_update [OF True, of queue_ids "?q\<lparr>aq_current := None\<rparr>"] Some True show ?thesis
      by (auto simp: auth_worker_def accounts_def held_requests_def running_commands_def forward_settles
          forward_answers split: prod.split option.split)
  qed
qed (simp add: auth_worker_def accounts_quiet)

lemma dispatch_accounts: "accounts (ControlInput msg resp_tx) n (dispatch_command env msg resp_tx n)"
proof (cases "can_run_in_dht_worker msg")
  case True
  then show ?thesis by (simp add: dispatch_command_def accounts_def held_requests_def running_commands_def)
next
  case False
  with run_command_desk [of n env msg] silent_in [OF run_command_silent [of env msg n]] show ?thesis
    by (simp add: dispatch_command_def accounts_def same_desk_def held_requests_def running_commands_def
        case_prod_unfold)
qed

lemma remove_nth_mset:
  "i < length xs \<Longrightarrow> mset (map f xs) = add_mset (f (xs ! i)) (mset (map f (remove_nth i xs)))"
proof -
  assume i: "i < length xs"
  have "mset (map f xs) = mset (map f (take i xs @ xs ! i # drop (Suc i) xs))"
    using id_take_nth_drop [OF i] by simp
  then show ?thesis by (simp add: remove_nth_def)
qed

lemma worker_accounts: "accounts (WorkerTurn i) n (dht_worker_run env i n)"
proof (cases "i < length (nd_workers n)")
  case True
  let ?w = "nd_workers n ! i"
  have "list_all silent (map Called calls)" for calls by (simp add: list_all_iff)
  note quiet = silent_in [OF this]
  have "length (remove_nth i (nd_workers n)) = length (nd_workers n) - 1" using True by (simp add: remove_nth_def)
  with True quiet remove_nth_mset [OF True, of dw_resp_tx] show ?thesis
    by (auto simp: dht_worker_run_def accounts_def held_requests_def running_commands_def Let_def split: prod.split)
qed (simp add: dht_worker_run_def accounts_quiet)

lemma event_accounts:
  assumes "nd_auth_txs n \<noteq> []"
  shows "accounts (NetworkInput e) n (handle_controller_event env e n)"
proof (cases e)
  case (NeInboundServiceRequest peer request_id service payload tx)
  with enqueue_accounts [OF assms] show ?thesis by simp
next
  case (NeIdentify ev)
  then show ?thesis
    by (cases ev) (auto intro!: accounts_quiet split: prod.split)
next
  case (NeListenerClosed addrs)
  then show ?thesis
    by (auto intro!: accounts_quiet simp: node_relay_tick_def list_all_iff split: prod.split bool.split)
qed (auto intro!: accounts_quiet simp: handle_ping_def split: prod.split option.split)

lemma node_turn_accounts:
  assumes "nd_auth_txs n \<noteq> []"
  shows "accounts i n (node_turn env i n)"
proof (cases i)
  case (NetworkInput e)
  with event_accounts [OF assms] show ?thesis by simp
qed (simp_all add: dispatch_accounts auth_worker_accounts worker_accounts accounts_quiet)

section \<open>The invariant of the node\<close>

text \<open>The configuration differs from the initial one in the bootstrap nodes at most.\<close>

definition config_from :: "node_config \<Rightarrow> node_config \<Rightarrow> bool" where
  "config_from config c \<longleftrightarrow> (\<exists>nodes. c = set_bootstrap_nodes nodes config)"

lemma config_from_refl [simp]: "config_from config config"
proof -
  have "config = set_bootstrap_nodes (bootstrap_nodes config) config"
    by (simp add: set_bootstrap_nodes_def bootstrap_nodes_def)
  then show ?thesis unfolding config_from_def by (rule exI)
qed

lemma config_from_set [simp]: "config_from config c \<Longrightarrow> config_from config (set_bootstrap_nodes nodes c)"
  by (auto simp: config_from_def set_bootstrap_nodes_def)

lemma config_from_same:
  assumes "config_from config c"
  shows "compat_max_record_bytes c = compat_max_record_bytes config" and "needs_relay c = needs_relay config"
    and "service_requires_auth c = service_requires_auth config" and "allow_bootstrap c = allow_bootstrap config"
    and "cfg_network c = cfg_network config"
  using assms
  by (auto simp: config_from_def set_bootstrap_nodes_def compat_max_record_bytes_def needs_relay_def
      service_requires_auth_def local_services_def allow_bootstrap_def fun_eq_iff)

lemma on_identify_config:
  "config_from config c \<Longrightarrow> config_from config (fst (on_identify addrs peer now c cache))"
  by (auto simp: on_identify_def Let_def split: prod.split option.split)

definition gate_agrees :: "auth_lib \<Rightarrow> node_controller \<Rightarrow> bool" where
  "gate_agrees lib n \<longleftrightarrow> gate_inv lib (nd_auth n) \<and> ag_config (nd_auth n) = nd_config n"

lemma gate_inv_invalidate [intro]: "gate_inv lib g \<Longrightarrow> gate_inv lib (gate_invalidate_all g)"
  using gate_inv_step [of lib g GInvalidateAll] by simp

lemma gate_inv_config [intro]: "gate_inv lib g \<Longrightarrow> gate_inv lib (g\<lparr>ag_config := c\<rparr>)"
  using gate_inv_step [of lib g "GSetConfig c"] by simp

lemma gate_invalidate_config [simp]: "ag_config (gate_invalidate_all g) = ag_config g"
  by (simp add: gate_invalidate_all_def split: option.split)

lemma reload_config [simp]: "ag_config (reload lib g) = ag_config g"
  by (simp add: reload_def Let_def)

lemma authorize_config: "ag_config (fst (authorize env target service g)) = ag_config g"
proof -
  have lookup: "ag_config (fst (authorize_lookup env service net ca g)) = ag_config g" for net ca
    by (simp add: authorize_lookup_def Let_def split: prod.split option.split result.split)
  have whitelist: "ag_config (fst (authorize_whitelist env target service key ca g)) = ag_config g" for key ca g
    by (simp add: authorize_whitelist_def split: prod.split option.split result.split)
  show ?thesis
    using lookup by (auto simp: authorize_def authorize_index_def whitelist split: auth_state.split option.split
        prod.split sum.split) (metis fst_conv)+
qed

lemma apply_calls_gate: "gate_agrees lib n \<Longrightarrow> gate_agrees lib (fold apply_call calls n)"
proof (induction calls arbitrary: n)
  case (Cons c calls)
  from Cons.prems have "gate_agrees lib (apply_call c n)" by (cases c) (auto simp: gate_agrees_def)
  with Cons.IH show ?case by simp
qed simp

lemma gate_agrees_fields:
  "nd_auth n' = nd_auth n \<Longrightarrow> nd_config n' = nd_config n \<Longrightarrow> gate_agrees lib n' = gate_agrees lib n"
  by (simp add: gate_agrees_def)

lemma run_command_gate:
  assumes "nv_lib env = lib" and "gate_agrees lib n"
  shows "gate_agrees lib (fst (run_command env msg n))"
  using assms apply_calls_gate [OF assms(2)] gate_inv_reload
  by (cases msg) (auto simp: command_defs gate_agrees_def Let_def case_prod_unfold split: result.split option.split bool.split)

lemma event_gate:
  assumes "gate_agrees lib n"
  shows "gate_agrees lib (fst (handle_controller_event env e n))"
proof (cases e)
  case (NeIdentify ev)
  with assms show ?thesis
    by (cases ev) (auto simp: gate_agrees_def split: prod.split)
next
  case (NeListenerClosed addrs)
  with assms show ?thesis by (auto simp: gate_agrees_def split: prod.split bool.split)
qed (use assms in \<open>auto simp: gate_agrees_def handle_ping_def enqueue_auth_def Let_def split: prod.split option.split\<close>)

text \<open>What the environment promises: the caches of the gate are filled by their fetchers.\<close>

fun node_enabled :: "auth_lib \<Rightarrow> node_env \<times> node_input \<Rightarrow> node_controller \<Rightarrow> bool" where
  "node_enabled lib (env, AuthTurn i) n \<longleftrightarrow> nv_lib env = lib \<and> nd_running n
     \<and> (\<forall>job. i < length (nd_auth_txs n) \<and> aq_current (nd_auth_txs n ! i) = Some job \<longrightarrow>
          gate_enabled lib (GAuthorize (nv_auth env) (nv_show_peer env (aj_peer job)) (aj_service job)) (nd_auth n))"
| "node_enabled lib (env, IndexCacheTurn e) n \<longleftrightarrow> nv_lib env = lib \<and> nd_running n
     \<and> gate_enabled lib (GIndexStep e) (nd_auth n)"
| "node_enabled lib (env, WhitelistCacheTurn e) n \<longleftrightarrow> nv_lib env = lib \<and> nd_running n
     \<and> gate_enabled lib (GWhitelistStep e) (nd_auth n)"
| "node_enabled lib (env, i) n \<longleftrightarrow> nv_lib env = lib \<and> nd_running n"

lemma node_enabledD: "node_enabled lib (env, i) n \<Longrightarrow> nv_lib env = lib \<and> nd_running n"
  by (cases i) simp_all

lemma gate_turn:
  assumes "node_enabled lib (env, i) n" and "gate_agrees lib n"
  shows "gate_agrees lib (fst (node_turn env i n))"
proof (cases i)
  case (AuthTurn k)
  show ?thesis
  proof (cases "k < length (nd_auth_txs n) \<and> aq_current (nd_auth_txs n ! k) \<noteq> None")
    case True
    then obtain job where job: "k < length (nd_auth_txs n)" "aq_current (nd_auth_txs n ! k) = Some job" by auto
    let ?e = "GAuthorize (nv_auth env) (nv_show_peer env (aj_peer job)) (aj_service job)"
    from assms job AuthTurn have "gate_enabled lib ?e (nd_auth n)" by (simp del: gate_enabled.simps)
    from gate_inv_step [OF _ this] assms(2)
      authorize_config [of "nv_auth env" "nv_show_peer env (aj_peer job)" "aj_service job" "nd_auth n"] job AuthTurn
    show ?thesis by (auto simp: auth_worker_def gate_agrees_def Let_def split: prod.split option.split)
  next
    case False
    with AuthTurn assms(2) show ?thesis by (auto simp: auth_worker_def gate_agrees_def Let_def)
  qed
next
  case (ControlInput msg tx)
  with assms run_command_gate [of env lib n msg] node_enabledD [OF assms(1)] show ?thesis
    by (auto simp: dispatch_command_def gate_agrees_def split: prod.split)
next
  case (NetworkInput e)
  with event_gate [OF assms(2)] show ?thesis by simp
next
  case (WorkerTurn k)
  have "gate_agrees lib (n\<lparr>nd_workers := ws, nd_dht_permits := ps\<rparr>)" for ws ps
    using assms(2) by (simp add: gate_agrees_def)
  from apply_calls_gate [OF this] WorkerTurn assms(2) show ?thesis
    by (simp add: dht_worker_run_def Let_def split: prod.split)
next
  case (IndexCacheTurn e)
  with assms gate_inv_step [of lib "nd_auth n" "GIndexStep e"] show ?thesis
    by (auto simp: gate_agrees_def on_caches_def)
next
  case (WhitelistCacheTurn e)
  with assms gate_inv_step [of lib "nd_auth n" "GWhitelistStep e"] show ?thesis
    by (auto simp: gate_agrees_def on_caches_def)
qed (use assms(2) in \<open>simp_all add: gate_agrees_def\<close>)

text \<open>Everything the registry has been sent, in order; what it makes of it about relays.\<close>

definition sc_history :: "service_channel \<Rightarrow> service_command list" where
  "sc_history c = sc_received c @ sc_items c"

fun told_step :: "service_command \<Rightarrow> bool \<times> nat \<Rightarrow> bool \<times> nat" where
  "told_step (RelayStateChanged need active) b = (need, active)"
| "told_step Reset b = (fst b, 0)"
| "told_step _ b = b"

definition told :: "service_command list \<Rightarrow> bool \<times> nat" where
  "told cs = fold told_step cs (False, 0)"

lemma told_snoc [simp]: "told (cs @ [c]) = told_step c (told cs)"
  by (simp add: told_def)

definition channel_ok :: "service_channel \<Rightarrow> bool" where
  "channel_ok c \<longleftrightarrow> sc_open c \<and> length (sc_items c) \<le> COMMAND_QUEUE_CAPACITY"

lemma sc_receive_history [simp]: "sc_history (sc_receive c) = sc_history c"
  by (simp add: sc_history_def sc_receive_def split: list.split)

lemma channel_ok_receive [simp]: "channel_ok c \<Longrightarrow> channel_ok (sc_receive c)"
  by (auto simp: channel_ok_def sc_receive_def split: list.split)

lemma sc_send_history: "channel_ok c \<Longrightarrow> sc_history (sc_send x c) = sc_history c @ [x]"
  using sc_receive_history [of c] by (auto simp: sc_send_def channel_ok_def sc_history_def Let_def)

lemma channel_ok_send [simp]: "channel_ok c \<Longrightarrow> channel_ok (sc_send x c)"
  by (auto simp: channel_ok_def sc_send_def sc_receive_def Let_def COMMAND_QUEUE_CAPACITY_def split: list.split)

lemma sc_try_send_told:
  assumes "channel_ok c" and "\<And>b. told_step x b = b"
  shows "channel_ok (fst (sc_try_send x c))" and "told (sc_history (fst (sc_try_send x c))) = told (sc_history c)"
proof -
  show "channel_ok (fst (sc_try_send x c))" using assms(1) by (simp add: channel_ok_def sc_try_send_def)
  have "sc_history (fst (sc_try_send x c)) \<in> {sc_history c, sc_history c @ [x]}"
    by (simp add: sc_try_send_def sc_history_def)
  then show "told (sc_history (fst (sc_try_send x c))) = told (sc_history c)"
    using assms(2) by (elim insertE; simp)
qed

text \<open>The registry knows whether relays are needed, and believes in no more of them than there are.\<close>

definition belief_ok :: "node_controller \<Rightarrow> bool" where
  "belief_ok n \<longleftrightarrow> channel_ok (nd_services n)
     \<and> fst (told (sc_history (nd_services n))) = needs_relay (nd_config n)
     \<and> snd (told (sc_history (nd_services n))) \<le> length (rm_active (nd_relay n))"

lemma belief_ok_fields:
  "nd_services n' = nd_services n \<Longrightarrow> needs_relay (nd_config n') = needs_relay (nd_config n)
     \<Longrightarrow> rm_active (nd_relay n') = rm_active (nd_relay n) \<Longrightarrow> belief_ok n' = belief_ok n"
  by (simp add: belief_ok_def)

lemma belief_notify:
  "channel_ok (nd_services n) \<Longrightarrow> belief_ok (notify_relay_state n)"
  by (simp add: belief_ok_def sc_send_history)

lemma run_command_belief:
  assumes "belief_ok n"
  shows "belief_ok (fst (run_command env msg n))"
proof (cases msg)
  case (ListServices i)
  with assms sc_try_send_told [of "nd_services n" RefreshTypes] show ?thesis
    by (auto simp: cmd_list_services_def belief_ok_def)
next
  case (ReannounceServices i)
  with assms sc_try_send_told [of "nd_services n" Reannounce] show ?thesis
    by (auto simp: cmd_reannounce_services_def belief_ok_def split: prod.split bool.split)
next
  case (ReloadConfig i)
  with assms show ?thesis
    by (auto simp: cmd_reload_config_def belief_ok_def sc_send_history Let_def split: result.split)
qed (use assms in \<open>auto simp: command_defs belief_ok_def Let_def case_prod_unfold split: result.split option.split bool.split\<close>)

lemma confirm_active: "length (rm_active m) \<le> length (rm_active (confirm p m))"
  by (simp add: confirm_def List.insert_def)

lemma event_belief:
  assumes "belief_ok n"
  shows "belief_ok (fst (handle_controller_event env e n))"
proof (cases e)
  case (NeIdentify ev)
  show ?thesis
  proof (cases ev)
    case (IdentifyReceived peer info)
    have "needs_relay (fst (on_identify addrs peer now (nd_config n) cache)) = needs_relay (nd_config n)" for addrs now cache
      using config_from_same(2) [OF on_identify_config [OF config_from_refl]] .
    with NeIdentify IdentifyReceived assms show ?thesis
      by (auto simp: belief_ok_def split: prod.split) (metis fst_conv)+
  qed (use NeIdentify assms in simp_all)
next
  case NeBootstrapCompleted
  with assms show ?thesis by (simp add: belief_ok_def sc_send_history tick_active)
next
  case (NeRelayClient ev)
  with assms confirm_active show ?thesis
    by (cases ev) (auto simp: belief_ok_def intro: order_trans)
next
  case (NeRelayCircuitReady addr)
  with assms belief_notify show ?thesis by (simp add: belief_ok_def sc_send_history)
next
  case (NeListenerClosed addrs)
  let ?r = "on_listener_closed (nd_config n) (zip addrs (map (nv_clock env) [0..<length addrs])) (nd_relay n)"
  show ?thesis
  proof (cases "snd ?r")
    case True
    with NeListenerClosed assms show ?thesis
      by (auto simp: belief_ok_def sc_send_history tick_active split: prod.split bool.split)
  next
    case False
    with NeListenerClosed assms closed_active [of "nd_config n" "zip addrs (map (nv_clock env) [0..<length addrs])" "nd_relay n"]
    show ?thesis by (cases ?r) (simp add: belief_ok_def)
  qed
qed (use assms in \<open>auto simp: belief_ok_def handle_ping_def enqueue_auth_def Let_def split: prod.split option.split\<close>)

lemma belief_turn:
  assumes "belief_ok n"
  shows "belief_ok (fst (node_turn env i n))"
proof (cases i)
  case (NetworkInput e)
  with event_belief [OF assms] show ?thesis by simp
next
  case (ControlInput msg tx)
  with assms run_command_belief [OF assms, of env msg] show ?thesis
    by (auto simp: dispatch_command_def belief_ok_def split: prod.split)
next
  case ServiceTick
  with assms sc_try_send_told [of "nd_services n" service_command.Tick] show ?thesis
    by (simp add: belief_ok_def)
next
  case (AuthTurn k)
  with assms show ?thesis by (auto simp: auth_worker_def belief_ok_def Let_def split: prod.split option.split)
next
  case (WorkerTurn k)
  with assms show ?thesis by (auto simp: dht_worker_run_def belief_ok_def Let_def split: prod.split)
qed (use assms in \<open>simp_all add: belief_ok_def tick_active\<close>)

definition auth_queues_ok :: "node_controller \<Rightarrow> bool" where
  "auth_queues_ok n \<longleftrightarrow> length (nd_auth_txs n) = AUTH_WORKERS
     \<and> (\<forall>q \<in> set (nd_auth_txs n). length (aq_items q) \<le> AUTH_QUEUE_CAPACITY)"

lemma auth_queues_ok_update:
  "auth_queues_ok n \<Longrightarrow> length (aq_items q) \<le> AUTH_QUEUE_CAPACITY \<Longrightarrow> auth_queues_ok (n\<lparr>nd_auth_txs := (nd_auth_txs n)[i := q]\<rparr>)"
  by (auto simp: auth_queues_ok_def dest: set_update_subset_insert [THEN subsetD])

lemma auth_queues_ok_nth:
  "auth_queues_ok n \<Longrightarrow> i < length (nd_auth_txs n) \<Longrightarrow> length (aq_items (nd_auth_txs n ! i)) \<le> AUTH_QUEUE_CAPACITY"
  by (simp add: auth_queues_ok_def)

lemma auth_queues_ok_fields: "nd_auth_txs n' = nd_auth_txs n \<Longrightarrow> auth_queues_ok n' = auth_queues_ok n"
  by (simp add: auth_queues_ok_def)

lemma enqueue_queues:
  assumes "auth_queues_ok n"
  shows "auth_queues_ok (fst (enqueue_auth job n))"
proof -
  let ?i = "unat (nd_auth_next n) mod length (nd_auth_txs n)"
  have i: "?i < length (nd_auth_txs n)" using assms by (simp add: auth_queues_ok_def AUTH_WORKERS_def)
  have "length (aq_items (fst (aq_try_send job (nd_auth_txs n ! ?i)))) \<le> AUTH_QUEUE_CAPACITY"
    using auth_queues_ok_nth [OF assms i] by (simp add: aq_try_send_def)
  from auth_queues_ok_update [OF assms this, of ?i] show ?thesis
    by (simp add: enqueue_auth_def Let_def case_prod_unfold auth_queues_ok_def)
qed

lemma auth_worker_queues:
  assumes "auth_queues_ok n"
  shows "auth_queues_ok (fst (auth_worker env i n))"
proof (cases "i < length (nd_auth_txs n)")
  case True
  let ?q = "nd_auth_txs n ! i"
  note bound = auth_queues_ok_nth [OF assms True]
  then have "length (aq_items (auth_receive ?q)) \<le> AUTH_QUEUE_CAPACITY"
    by (auto simp: auth_receive_def split: option.split list.split)
  from auth_queues_ok_update [OF assms this, of i] auth_queues_ok_update [OF assms, of "?q\<lparr>aq_current := None\<rparr>" i] bound assms
  show ?thesis by (auto simp: auth_worker_def auth_queues_ok_def Let_def split: prod.split option.split)
qed (simp add: auth_worker_def assms)

lemma event_queues:
  assumes "auth_queues_ok n"
  shows "auth_queues_ok (fst (handle_controller_event env e n))"
proof (cases e)
  case (NeInboundServiceRequest peer request_id service payload tx)
  with enqueue_queues [OF assms] show ?thesis by simp
next
  case (NeIdentify ev)
  with assms show ?thesis by (cases ev) (auto simp: auth_queues_ok_def split: prod.split)
next
  case (NeListenerClosed addrs)
  with assms show ?thesis by (auto simp: auth_queues_ok_def split: prod.split bool.split)
qed (use assms in \<open>auto simp: auth_queues_ok_def handle_ping_def split: prod.split option.split\<close>)

lemma queues_turn:
  assumes "auth_queues_ok n"
  shows "auth_queues_ok (fst (node_turn env i n))"
proof (cases i)
  case (NetworkInput e)
  with event_queues [OF assms] show ?thesis by simp
next
  case (ControlInput msg tx)
  with assms run_command_desk [of n env msg] show ?thesis
    by (auto simp: dispatch_command_def auth_queues_ok_def same_desk_def split: prod.split)
next
  case (AuthTurn k)
  with auth_worker_queues [OF assms] show ?thesis by simp
next
  case (WorkerTurn k)
  with assms show ?thesis by (auto simp: dht_worker_run_def auth_queues_ok_def Let_def split: prod.split)
qed (use assms in \<open>simp_all add: auth_queues_ok_def\<close>)

text \<open>The components the node owns keep their own invariants.\<close>

definition parts_ok :: "node_controller \<Rightarrow> bool" where
  "parts_ok n \<longleftrightarrow> relay_inv (nd_relay n) \<and> cache_inv (nd_record_cache n) \<and> cache_inv (nd_provider_cache n)"

lemma cache_inv_invalidate [intro]: "cache_inv c \<Longrightarrow> cache_inv (invalidate key c)"
  using cache.keeps [of c "Invalidate key"] by simp

lemma cache_inv_invalidate_all [intro]: "cache_inv c \<Longrightarrow> cache_inv (invalidate_all c)"
  using cache.keeps [of c InvalidateAll] by simp

lemma cache_inv_step [intro]: "cache_inv c \<Longrightarrow> cache_inv (cache_step e c)"
  by (rule cache.keeps)

lemma relay_inv_tick [intro]: "relay_inv m \<Longrightarrow> relay_inv (fst (tick config listen_on now m))"
  by (rule tick_inv)

lemma on_identify_cache: "cache_inv cache \<Longrightarrow> cache_inv (fst (snd (on_identify addrs peer now c cache)))"
  using cache.keeps [of cache "Ensure BOOTSTRAP_PROVIDER_KEY"]
    cache.keeps [of "refresh BOOTSTRAP_PROVIDER_KEY cache" "Touch BOOTSTRAP_PROVIDER_KEY now"]
  by (auto simp: on_identify_def peek_def Let_def case_prod_unfold split: prod.split option.split)

lemma apply_calls_parts: "parts_ok n \<Longrightarrow> parts_ok (fold apply_call calls n)"
proof (induction calls arbitrary: n)
  case (Cons c calls)
  from Cons.prems have "parts_ok (apply_call c n)" by (cases c) (auto simp: parts_ok_def)
  with Cons.IH show ?case by simp
qed simp

lemma run_command_parts:
  assumes "parts_ok n"
  shows "parts_ok (fst (run_command env msg n))"
  using assms apply_calls_parts [OF assms]
  by (cases msg) (auto simp: command_defs parts_ok_def Let_def case_prod_unfold split: result.split option.split bool.split)

lemma event_parts:
  assumes "parts_ok n"
  shows "parts_ok (fst (handle_controller_event env e n))"
proof (cases e)
  case (NeIdentify ev)
  show ?thesis
  proof (cases ev)
    case (IdentifyReceived peer info)
    with NeIdentify assms
      on_identify_cache [of "nd_provider_cache n" "if_listen_addrs info" peer "nv_now env" "nd_config n"]
    show ?thesis by (auto simp: parts_ok_def split: prod.split)
  qed (use NeIdentify assms in simp_all)
next
  case (NeListenerClosed addrs)
  let ?r = "on_listener_closed (nd_config n) (zip addrs (map (nv_clock env) [0..<length addrs])) (nd_relay n)"
  have "relay_inv (fst ?r)" using assms by (simp add: parts_ok_def relay_inv_closed)
  with NeListenerClosed assms show ?thesis by (cases ?r; cases "snd ?r") (auto simp: parts_ok_def)
next
  case (NeRelayClient ev)
  with assms show ?thesis by (cases ev) (auto simp: parts_ok_def relay_inv_confirm)
next
  case (NeRelayCircuitReady addr)
  with assms show ?thesis
    by (auto simp: parts_ok_def on_circuit_ready_def relay_inv_confirm split: option.split)
qed (use assms in \<open>auto simp: parts_ok_def handle_ping_def enqueue_auth_def Let_def split: prod.split option.split\<close>)

lemma parts_turn:
  assumes "parts_ok n"
  shows "parts_ok (fst (node_turn env i n))"
proof (cases i)
  case (NetworkInput e)
  with event_parts [OF assms] show ?thesis by simp
next
  case (ControlInput msg tx)
  with assms run_command_parts [OF assms, of env msg] show ?thesis
    by (auto simp: dispatch_command_def parts_ok_def split: prod.split)
next
  case (AuthTurn k)
  with assms show ?thesis by (auto simp: auth_worker_def parts_ok_def Let_def split: prod.split option.split)
next
  case (WorkerTurn k)
  have "parts_ok (n\<lparr>nd_workers := ws, nd_dht_permits := ps\<rparr>)" for ws ps
    using assms by (simp add: parts_ok_def)
  from apply_calls_parts [OF this] WorkerTurn assms show ?thesis
    by (simp add: dht_worker_run_def Let_def split: prod.split)
qed (use assms in \<open>auto simp: parts_ok_def\<close>)

text \<open>Where the node may write in the DHT, and how much. Besides the keys of control commands it provides
  only the bootstrap key, if it is configured to.\<close>

fun write_ok :: "node_config \<Rightarrow> dht_call \<Rightarrow> bool" where
  "write_ok config (PutValue key bs quorum) \<longleftrightarrow>
     is_writable_key key \<and> length bs \<le> unat (compat_max_record_bytes config)"
| "write_ok config (StartProviding key) \<longleftrightarrow>
     is_writable_key key \<or> key = BOOTSTRAP_PROVIDER_KEY \<and> allow_bootstrap config"
| "write_ok config (StopProviding key) \<longleftrightarrow> is_writable_key key"
| "write_ok config (RemoveValue key) \<longleftrightarrow> is_writable_key key"
| "write_ok config c \<longleftrightarrow> True"

fun confined :: "node_config \<Rightarrow> node_action \<Rightarrow> bool" where
  "confined config (Called c) = write_ok config c"
| "confined config a = True"

definition limits_ok :: "node_config \<Rightarrow> node_controller \<Rightarrow> bool" where
  "limits_ok config n \<longleftrightarrow> config_from config (nd_config n)
     \<and> (\<forall>w \<in> set (nd_workers n). dw_max_record_bytes w = compat_max_record_bytes config)"

lemma not_write_ok: "\<not> is_write c \<Longrightarrow> write_ok config c"
  by (cases c) simp_all

lemma calls_ok:
  "list_all (\<lambda>c. \<not> is_write c) calls \<Longrightarrow> list_all (confined config) (map Called calls)"
  by (auto simp: list_all_iff not_write_ok)

lemma set_remove_nth: "set (remove_nth i xs) \<subseteq> set xs"
  by (auto simp: remove_nth_def dest: in_set_takeD in_set_dropD)

lemma announce_writes:
  assumes "config_from config (nd_config n)"
  shows "list_all (confined config) (snd (node_announce env n))"
proof -
  have "snd (announce_self (nd_config n) answer b) \<Longrightarrow> allow_bootstrap config" for answer b
    using config_from_same(4) [OF assms] by (auto simp: announce_self_def Let_def split: if_splits)
  then show ?thesis by (auto simp: node_announce_def split: prod.split) (metis snd_conv)
qed

lemma top_up_writes:
  assumes "config_from config (nd_config n)"
  shows "list_all (confined config) (snd (top_up env n))"
  using announce_writes [OF assms, of env]
  by (auto simp: top_up_def and_then_def node_relay_tick_def list_all_iff split: prod.split)

lemma query_key_no_write: "list_all (\<lambda>c. \<not> is_write c) (snd (query_key to_cbor show_peer ans key))"
  by (simp add: query_key_def Let_def split: result.split)

lemma run_command_writes:
  assumes "config_from config (nd_config n)"
  shows "list_all (confined config) (snd (snd (run_command env msg n)))"
proof (cases msg)
  case (AddKey i key val providing)
  with config_from_same(1) [OF assms] show ?thesis
    by (auto simp: cmd_add_key_def add_key_check_def check_compat_record_size_def Let_def
        split: result.splits option.splits if_splits)
next
  case (RemoveKey i key providing stored)
  then show ?thesis
    by (auto simp: cmd_remove_key_def add_key_check_def Let_def split: result.splits if_splits)
next
  case (QueryKey i key)
  with calls_ok [OF query_key_no_write] show ?thesis by (simp add: cmd_query_key_def case_prod_unfold)
next
  case (ServiceRequest i service payload)
  with calls_ok [OF request_rounds_no_write] show ?thesis
    by (simp add: cmd_service_request_def request_service_def case_prod_unfold del: request_rounds.simps)
qed (auto simp: command_defs Let_def case_prod_unfold list_all_iff split: result.split bool.split)

lemma worker_run_writes:
  assumes "limits_ok config n"
  shows "list_all (confined config) (snd (dht_worker_run env i n))"
proof (cases "i < length (nd_workers n)")
  case True
  let ?w = "nd_workers n ! i"
  obtain r calls where run: "run_dht_command (nv_to_cbor env) (nv_show_peer env) (nv_parse_peer env) (nv_answers env)
      (dw_peers ?w) (nd_my_peer_id n) (dw_max_record_bytes ?w) (dw_msg ?w) = (r, calls)" by fastforce
  have "write_ok config c" if "c \<in> set calls" for c
  proof (cases "is_write c")
    case True
    from worker_writes [OF run that this] assms \<open>i < _\<close> show ?thesis by (auto simp: limits_ok_def)
  qed (rule not_write_ok)
  with run True show ?thesis by (auto simp: dht_worker_run_def list_all_iff)
qed (simp add: dht_worker_run_def)

lemma event_writes:
  assumes "config_from config (nd_config n)"
  shows "list_all (confined config) (snd (handle_controller_event env e n))"
proof (cases e)
  case (NeIdentify ev)
  then show ?thesis by (cases ev) (auto split: prod.split)
next
  case NeBootstrapCompleted
  with top_up_writes [of config] assms show ?thesis by simp
next
  case (NeListenerClosed addrs)
  then show ?thesis by (auto simp: node_relay_tick_def list_all_iff split: prod.split bool.split)
qed (auto simp: handle_ping_def enqueue_auth_def Let_def split: prod.split option.split result.split try_send_error.split)

lemma settle_writes: "list_all (confined config) (settle_auth_job open' d job)"
  by (cases d) (simp_all add: forward_auth_job_def Let_def)

lemma writes_turn:
  assumes "limits_ok config n"
  shows "list_all (confined config) (snd (node_turn env i n))"
proof -
  have c: "config_from config (nd_config n)" using assms by (simp add: limits_ok_def)
  show ?thesis
  proof (cases i)
    case (ControlInput msg tx)
    with run_command_writes [OF c, of env msg] show ?thesis
      by (auto simp: dispatch_command_def split: prod.split)
  next
    case (AuthTurn k)
    then show ?thesis by (auto simp: auth_worker_def settle_writes Let_def split: prod.split option.split)
  qed (simp_all add: event_writes c top_up_writes worker_run_writes assms)
qed

lemma event_config:
  assumes "limits_ok config n"
  shows "limits_ok config (fst (handle_controller_event env e n))"
proof (cases e)
  case (NeIdentify ev)
  show ?thesis
  proof (cases ev)
    case (IdentifyReceived peer info)
    with NeIdentify assms
      on_identify_config [of config "nd_config n" "if_listen_addrs info" peer "nv_now env" "nd_provider_cache n"]
    show ?thesis by (auto simp: limits_ok_def split: prod.split)
  qed (use NeIdentify assms in simp_all)
next
  case (NeListenerClosed addrs)
  with assms show ?thesis by (auto simp: limits_ok_def split: prod.split bool.split)
qed (use assms in \<open>auto simp: limits_ok_def handle_ping_def enqueue_auth_def Let_def split: prod.split option.split\<close>)

lemma limits_turn:
  assumes "limits_ok config n"
  shows "limits_ok config (fst (node_turn env i n))"
proof (cases i)
  case (NetworkInput e)
  with event_config [OF assms] show ?thesis by simp
next
  case (ControlInput msg tx)
  with assms run_command_desk [of n env msg] show ?thesis
    by (auto simp: dispatch_command_def limits_ok_def same_desk_def config_from_same(1) split: prod.split)
next
  case (AuthTurn k)
  with assms show ?thesis by (auto simp: auth_worker_def limits_ok_def Let_def split: prod.split option.split)
next
  case (WorkerTurn k)
  with assms set_remove_nth [of k "nd_workers n"] show ?thesis
    by (auto simp: dht_worker_run_def limits_ok_def Let_def split: prod.split)
qed (use assms in \<open>simp_all add: limits_ok_def\<close>)

section \<open>Every run of the node\<close>

definition node_ok :: "auth_lib \<Rightarrow> node_config \<Rightarrow> node_controller \<Rightarrow> bool" where
  "node_ok lib config n \<longleftrightarrow> limits_ok config n \<and> gate_agrees lib n \<and> belief_ok n \<and> auth_queues_ok n \<and> parts_ok n"

lemma node_ok_turn:
  "node_ok lib config n \<Longrightarrow> node_enabled lib (env, i) n \<Longrightarrow> node_ok lib config (fst (node_turn env i n))"
  by (simp add: node_ok_def limits_turn gate_turn belief_turn queues_turn parts_turn)

lemma node_ok_start: "node_ok lib config (node_start lib config me)"
proof -
  have "gate_inv lib (gate_new lib config)" by (rule gate.inv_init)
  then have "gate_agrees lib (node_start lib config me)"
    by (simp add: gate_agrees_def node_start_def node_new_def gate_new_def Let_def)
  moreover have "belief_ok (node_start lib config me)"
    unfolding node_start_def by (rule belief_notify) (simp add: channel_ok_def node_new_def)
  ultimately show ?thesis
    by (simp add: node_ok_def node_start_def node_new_def limits_ok_def auth_queues_ok_def parts_ok_def cache.start)
qed

text \<open>A run: the node, the ids of the requests and the channels of the commands it got, and its actions.\<close>

type_synonym node_run = "node_controller \<times> string multiset \<times> reply_channel multiset \<times> node_action list"

definition run_node :: "node_env \<times> node_input \<Rightarrow> node_run \<Rightarrow> node_run" where
  "run_node = (\<lambda>(env, i) (n, rs, cs, acts).
     (case node_step env i n of (n', as) \<Rightarrow> (n', rs + inbound_of i, cs + control_of i, acts @ as)))"

definition node_promises :: "auth_lib \<Rightarrow> node_env \<times> node_input \<Rightarrow> node_run \<Rightarrow> bool" where
  "node_promises lib e r = node_enabled lib e (fst r)"

definition node_run_start :: "auth_lib \<Rightarrow> node_config \<Rightarrow> peer_id \<Rightarrow> node_run" where
  "node_run_start lib config me = (node_start lib config me, {#}, {#}, [])"

definition node_run_inv :: "auth_lib \<Rightarrow> node_config \<Rightarrow> node_run \<Rightarrow> bool" where
  "node_run_inv lib config = (\<lambda>(n, rs, cs, acts). node_ok lib config n
     \<and> rs = settled_in acts + held_requests n \<and> cs = answered_in acts + running_commands n
     \<and> nd_dht_permits n + length (nd_workers n) = clamp 1 16 (dispatcher_max_inflight_dht config)
     \<and> list_all (confined config) acts)"

interpretation node_runs: guarded_system "node_run_start lib config me" "node_promises lib" run_node
  "node_run_inv lib config" for lib config me
proof
  show "node_run_inv lib config (node_run_start lib config me)"
    by (simp add: node_run_start_def node_run_inv_def node_ok_start)
      (simp add: node_start_def node_new_def held_requests_def running_commands_def queue_ids_def)
  fix r e
  assume inv: "node_run_inv lib config r" and enabled: "node_promises lib e r"
  obtain env i where e: "e = (env, i)" by (cases e)
  obtain n rs cs acts where r: "r = (n, rs, cs, acts)" by (metis surj_pair)
  from inv r have ok: "node_ok lib config n" "rs = settled_in acts + held_requests n"
    "cs = answered_in acts + running_commands n"
    "nd_dht_permits n + length (nd_workers n) = clamp 1 16 (dispatcher_max_inflight_dht config)"
    "list_all (confined config) acts" by (simp_all add: node_run_inv_def)
  from enabled e r have en: "node_enabled lib (env, i) n" by (simp add: node_promises_def)
  have step: "node_step env i n = node_turn env i n"
    using node_enabledD [OF en] by (simp add: node_step_def)
  have "nd_auth_txs n \<noteq> []" using ok(1) by (auto simp: node_ok_def auth_queues_ok_def AUTH_WORKERS_def)
  note acc = node_turn_accounts [OF this, of i env, unfolded accounts_def]
  obtain n' as where turn: "node_turn env i n = (n', as)" by fastforce
  have run: "run_node e r = (n', rs + inbound_of i, cs + control_of i, acts @ as)"
    by (simp add: e r run_node_def step turn)
  have "list_all (confined config) as" using writes_turn [of config n env i] ok(1) turn by (simp add: node_ok_def)
  moreover have "node_ok lib config n'" using node_ok_turn [OF ok(1) en] turn by simp
  ultimately show "node_run_inv lib config (run_node e r)"
    using ok acc unfolding run node_run_inv_def by (simp add: turn ac_simps)
qed

section \<open>Towards the properties\<close>

lemma no_forward_event: "Forward request_id req \<notin> set (snd (handle_controller_event env e n))"
proof (cases e)
  case (NeIdentify ev)
  then show ?thesis by (cases ev) (auto split: prod.split)
qed (auto simp: handle_ping_def enqueue_auth_def top_up_def and_then_def node_announce_def node_relay_tick_def
      case_prod_unfold Let_def split: option.split bool.split result.split try_send_error.split)

lemma forward_origin:
  assumes "node_turn env i n = (n', as)" and "Forward request_id req \<in> set as"
  shows "\<exists>k. i = AuthTurn k"
proof -
  have not_silent: "Forward request_id req \<notin> set xs" if "list_all silent xs" for xs
    using that by (auto simp: list_all_iff)
  show ?thesis
  proof (cases i)
    case (NetworkInput e)
    with assms no_forward_event show ?thesis by (metis node_turn.simps(1) snd_conv)
  next
    case (ControlInput msg tx)
    with assms not_silent [OF run_command_silent [of env msg n]] show ?thesis
      by (auto simp: dispatch_command_def split: if_splits prod.splits)
  next
    case RelayTick
    with assms not_silent [OF top_up_silent [of env n]] show ?thesis by auto
  next
    case (WorkerTurn k)
    with assms show ?thesis by (auto simp: dht_worker_run_def Let_def split: if_splits prod.splits)
  qed (use assms in auto)
qed

lemma held_bounded:
  assumes "auth_queues_ok n"
  shows "size (held_requests n) \<le> AUTH_WORKERS * (AUTH_QUEUE_CAPACITY + 1)"
proof -
  have "length (queue_ids q) \<le> AUTH_QUEUE_CAPACITY + 1" if "q \<in> set (nd_auth_txs n)" for q
    using assms that by (auto simp: auth_queues_ok_def queue_ids_def split: option.split)
  then have "sum_list (map (length \<circ> queue_ids) (nd_auth_txs n)) \<le> length (nd_auth_txs n) * (AUTH_QUEUE_CAPACITY + 1)"
    using sum_list_mono [of "nd_auth_txs n" "length \<circ> queue_ids" "\<lambda>_. AUTH_QUEUE_CAPACITY + 1"]
    by (simp add: sum_list_triv comp_def)
  with assms show ?thesis by (simp add: held_requests_def length_concat auth_queues_ok_def comp_def)
qed

text \<open>The registry's own state follows what it has been told: no other step touches its view of relays.\<close>

definition relay_view :: "registry_state \<Rightarrow> bool \<times> nat" where
  "relay_view s = (re_need_relay s, re_active_relays s)"

lemma plan_withdrawals_view: "relay_view (fst (plan_withdrawals due (s, slots, jobs))) = relay_view s"
  by (induction due arbitrary: s slots jobs) (auto simp: relay_view_def)

lemma plan_retries_view: "relay_view (fst (plan_retries retries (s, slots, jobs))) = relay_view s"
  by (induction retries arbitrary: s slots jobs) (auto simp: relay_view_def start_announce_def)

lemma plan_local_view: "relay_view (fst (plan_local now names (s, slots, jobs))) = relay_view s"
  by (induction names arbitrary: s slots jobs) (auto simp: relay_view_def start_announce_def)

lemma plan_types_view: "relay_view (fst (plan_types now (s, slots, jobs))) = relay_view s"
  by (auto simp: plan_types_def relay_view_def Let_def split: reconcile_state.split option.split)

lemma plan_view: "relay_view (fst (plan config now slots s)) = relay_view s"
proof -
  obtain s1 n1 j1 where w: "plan_withdrawals (due_withdrawals now s) (s, slots, []) = (s1, n1, j1)" by (metis surj_pair)
  obtain s2 n2 j2 where r: "plan_retries (due_retries now s1) (s1, n1, j1) = (s2, n2, j2)" by (metis surj_pair)
  obtain s3 n3 j3 where l: "plan_local now (local_names config) (s2, n2, j2) = (s3, n3, j3)" by (metis surj_pair)
  have views: "relay_view s1 = relay_view s" "relay_view s2 = relay_view s1" "relay_view s3 = relay_view s2"
    using plan_withdrawals_view [of "due_withdrawals now s" s slots "[]"]
      plan_retries_view [of "due_retries now s1" s1 n1 j1] plan_local_view [of now "local_names config" s2 n2 j2]
    by (simp_all add: w r l)
  then show ?thesis by (simp add: plan_def w r l plan_types_view)
qed

lemma pump_view [simp]: "relay_view (ra_state (pump config now a)) = relay_view (ra_state a)"
  using plan_view [of config now "clamp 1 16 (registry_max_inflight_dht config) - length (ra_jobs a)" "ra_state a"]
  by (simp add: pump_def Let_def split: prod.split) (metis fst_conv)

lemma publish_state [simp]: "ra_state (publish a) = ra_state a"
  by (simp add: publish_def)

lemma replace_ready_view [simp]: "relay_view (replace_backend_ready ready now s) = relay_view s"
  using replace_backend_ready_fields [where ready = ready and now = now and s = s] by (simp add: relay_view_def same_core_def)

lemma apply_result_view [simp]: "relay_view (apply_result js config r now s) = relay_view s"
  by (cases r)
    (auto simp: relay_view_def announce_ok_def announce_err_def withdraw_ok_def withdraw_err_def types_read_def
      reconcile_idle_def mark_types_dirty_def Let_def split: result.split option.split prod.split)

lemma handle_view [simp]: "relay_view (handle c now s) = told_step c (relay_view s)"
  by (cases c) (auto simp: relay_view_def mark_types_dirty_def relay_changed_def relay_gained_def relay_lost_def Let_def)

definition commands_in :: "(node_config \<times> instant \<times> instant \<times> registry_event) list \<Rightarrow> service_command list" where
  "commands_in es =
     List.map_filter (\<lambda>(config, now, later, e). case e of registry_event.Command c \<Rightarrow> Some c | _ \<Rightarrow> None) es"

lemma actor_step_view:
  "relay_view (ra_state (actor_step js e a)) = fold told_step (commands_in [e]) (relay_view (ra_state a))"
proof -
  obtain config now later ev where e: "e = (config, now, later, ev)" by (metis surj_pair)
  show ?thesis unfolding e
    by (cases ev) (auto simp: commands_in_def map_filter_simps Let_def split: option.split)
qed

lemma registry_view:
  "relay_view (ra_state (fold (actor_step js) es (actor_start config ready now later))) = told (commands_in es)"
proof -
  have "relay_view (ra_state (fold (actor_step js) es a)) = fold told_step (commands_in es) (relay_view (ra_state a))" for a
  proof (induction es arbitrary: a)
    case (Cons e es)
    have "commands_in (e # es) = commands_in [e] @ commands_in es"
      by (simp add: commands_in_def List.map_filter_def)
    with Cons.IH actor_step_view [of js e a] show ?case by simp
  qed (simp add: commands_in_def map_filter_simps)
  moreover have "relay_view (ra_state (actor_start config ready now later)) = (False, 0)"
    by (simp add: actor_start_def) (simp add: relay_view_def registry_new_def)
  ultimately show ?thesis by (simp add: told_def)
qed

text \<open>A refusal never reports success.\<close>

fun failing :: "node_action \<Rightarrow> bool" where
  "failing (Refuse request_id response) \<longleftrightarrow> \<not> sr_success response"
| "failing a \<longleftrightarrow> True"

lemma silent_failing: "list_all silent xs \<Longrightarrow> list_all failing xs"
proof -
  have "failing x" if "silent x" for x using that by (cases x) simp_all
  then show "list_all silent xs \<Longrightarrow> list_all failing xs" by (auto simp: list_all_iff)
qed

lemma turn_failing: "list_all failing (snd (node_turn env i n))"
proof (cases i)
  case (NetworkInput e)
  show ?thesis
  proof (cases e)
    case (NeIdentify ev)
    with NetworkInput show ?thesis by (cases ev) (auto split: prod.split)
  next
    case (NeInboundServiceRequest peer request_id service payload tx)
    with NetworkInput show ?thesis by (auto simp: enqueue_auth_def aq_try_send_def refusal_def Let_def)
  qed (auto simp: NetworkInput handle_ping_def node_relay_tick_def list_all_iff
        silent_failing [OF top_up_silent, unfolded list_all_iff] split: prod.split option.split bool.split)
next
  case (ControlInput msg tx)
  with silent_failing [OF run_command_silent [of env msg n]] show ?thesis
    by (auto simp: dispatch_command_def split: prod.split)
next
  case (AuthTurn k)
  have "list_all failing (settle_auth_job open' d job)" for open' d job
    by (cases d) (simp_all add: forward_auth_job_def refusal_def Let_def)
  with AuthTurn show ?thesis by (auto simp: auth_worker_def Let_def split: prod.split option.split)
next
  case (WorkerTurn k)
  then show ?thesis by (auto simp: dht_worker_run_def list_all_iff Let_def split: prod.split)
qed (simp_all add: silent_failing)

lemma refuse_fails:
  assumes "Refuse request_id response \<in> set (snd (node_step env i n))"
  shows "\<not> sr_success response"
proof -
  have "list_all failing (snd (node_step env i n))" by (simp add: node_step_def turn_failing)
  with assms show ?thesis by (auto simp: list_all_iff)
qed

text \<open>The way of a request through an idle worker.\<close>

definition with_queue :: "nat \<Rightarrow> auth_queue \<Rightarrow> node_controller \<Rightarrow> node_controller" where
  "with_queue k q n = n\<lparr>nd_auth_next := nd_auth_next n + 1, nd_auth_txs := (nd_auth_txs n)[k := q]\<rparr>"

lemma idle_worker:
  fixes job
  assumes "nd_running n" "k = unat (nd_auth_next n) mod length (nd_auth_txs n)" "nd_auth_txs n \<noteq> []"
    "nd_auth_txs n ! k = \<lparr>aq_items = [], aq_open = True, aq_current = None\<rparr>"
  defines "n1 \<equiv> with_queue k \<lparr>aq_items = [job], aq_open = True, aq_current = None\<rparr> n"
  defines "n2 \<equiv> with_queue k \<lparr>aq_items = [], aq_open = True, aq_current = Some job\<rparr> n"
  shows "node_step env (NetworkInput (NeInboundServiceRequest (aj_peer job) (aj_request_id job) (aj_service job)
      (aj_payload job) (aj_response_tx job))) n = (n1, [])"
    and "node_step env (AuthTurn k) n1 = (n2, [])"
    and "authorize (nv_auth env) (nv_show_peer env (aj_peer job)) (aj_service job) (nd_auth n) = (g, Some d) \<Longrightarrow>
      node_step env (AuthTurn k) n2 =
        ((with_queue k \<lparr>aq_items = [], aq_open = True, aq_current = None\<rparr> n)\<lparr>nd_auth := g\<rparr>,
         settle_auth_job (nv_dispatcher_open env) d job)"
proof -
  have k: "k < length (nd_auth_txs n)" using assms(2,3) by simp
  show "node_step env (NetworkInput (NeInboundServiceRequest (aj_peer job) (aj_request_id job) (aj_service job)
      (aj_payload job) (aj_response_tx job))) n = (n1, [])"
    using assms(1-4)
    by (cases job) (simp add: n1_def with_queue_def node_step_def enqueue_auth_def aq_try_send_def AUTH_QUEUE_CAPACITY_def Let_def)
  show "node_step env (AuthTurn k) n1 = (n2, [])"
    using assms(1) k by (simp add: n1_def n2_def with_queue_def node_step_def auth_worker_def auth_receive_def Let_def)
  show "authorize (nv_auth env) (nv_show_peer env (aj_peer job)) (aj_service job) (nd_auth n) = (g, Some d) \<Longrightarrow>
      node_step env (AuthTurn k) n2 =
        ((with_queue k \<lparr>aq_items = [], aq_open = True, aq_current = None\<rparr> n)\<lparr>nd_auth := g\<rparr>,
         settle_auth_job (nv_dispatcher_open env) d job)"
    using assms(1) k by (simp add: n2_def with_queue_def node_step_def auth_worker_def Let_def)
qed

section \<open>Properties\<close>

text \<open>
  (C1) Only what the gate allowed reaches the dispatcher. In every run of the node, if a turn hands a
  request to the dispatcher, a worker held that very request, and either authentication is off, or the
  service does not require it, or the authority has signed an unexpired index and a whitelist that
  names the requesting peer, or it has signed an unexpired index without the service.
\<close>
theorem forwarded_requests_authorized:
  assumes "valid_run (node_promises lib) run_node es (node_run_start lib config me)"
    and "fold run_node es (node_run_start lib config me) = (n, rs, cs, acts)"
    and "node_enabled lib (env, i) n" and "node_step env i n = (n', as)" and "Forward request_id req \<in> set as"
  shows "\<exists>k job. i = AuthTurn k \<and> k < AUTH_WORKERS \<and> aq_current (nd_auth_txs n ! k) = Some job
     \<and> aj_request_id job = request_id
     \<and> req = \<lparr>in_service = aj_service job, in_payload = aj_payload job, in_response_tx = aj_response_tx job\<rparr>
     \<and> (ag_state (nd_auth n) = Disabled
        \<or> (\<exists>net. ag_state (nd_auth n) = Active net
             \<and> (service_requires_auth config (aj_service job) \<longrightarrow>
                  entitled lib net (aj_service job) (nv_show_peer env (aj_peer job)) (ev_now_unix (nv_auth env))
                  \<or> unlisted lib net (aj_service job) (ev_now_unix (nv_auth env)))))"
proof -
  from node_runs.inv_reachable [OF assms(1)] assms(2) have ok: "node_ok lib config n" by (simp add: node_run_inv_def)
  from assms(4) node_enabledD [OF assms(3)] have turn: "node_turn env i n = (n', as)" by (simp add: node_step_def)
  obtain k where k: "i = AuthTurn k" using forward_origin [OF turn assms(5)] by blast
  with turn assms(5) obtain job d g where job: "k < length (nd_auth_txs n)" "aq_current (nd_auth_txs n ! k) = Some job"
      "authorize (nv_auth env) (nv_show_peer env (aj_peer job)) (aj_service job) (nd_auth n) = (g, Some d)"
      "Forward request_id req \<in> set (settle_auth_job (nv_dispatcher_open env) d job)"
    by (auto simp: auth_worker_def Let_def split: if_splits option.splits prod.splits)
  from job(4) have fwd: "d = Allow \<or> d = AllowUnprotected" "aj_request_id job = request_id"
      "req = \<lparr>in_service = aj_service job, in_payload = aj_payload job, in_response_tx = aj_response_tx job\<rparr>"
    by (cases d; simp add: forward_auth_job_def Let_def split: if_splits)+
  from ok have gate: "gate_inv lib (nd_auth n)" "ag_config (nd_auth n) = nd_config n"
    and requires: "service_requires_auth (nd_config n) = service_requires_auth config"
    and workers: "length (nd_auth_txs n) = AUTH_WORKERS"
    by (simp_all add: node_ok_def gate_agrees_def limits_ok_def config_from_same(3) auth_queues_ok_def)
  from assms(3) k job(1,2)
  have "gate_enabled lib (GAuthorize (nv_auth env) (nv_show_peer env (aj_peer job)) (aj_service job)) (nd_auth n)"
    by (simp del: gate_enabled.simps)
  from authorize_sound(2,3) [OF gate(1) this job(3)] fwd(1) gate(2) requires
  have "ag_state (nd_auth n) = Disabled \<or> (\<exists>net. ag_state (nd_auth n) = Active net
      \<and> (service_requires_auth config (aj_service job) \<longrightarrow>
           entitled lib net (aj_service job) (nv_show_peer env (aj_peer job)) (ev_now_unix (nv_auth env))
           \<or> unlisted lib net (aj_service job) (ev_now_unix (nv_auth env))))"
    by auto
  with k job(1,2) fwd workers show ?thesis by auto
qed

text \<open>
  (C9) Every inbound request is settled exactly once: after any run the requests that came in are those
  that were refused or handed to the dispatcher, and those a worker or its queue still holds, each as
  often as it came. At most 132 are held.
\<close>
theorem inbound_requests_settled_once:
  assumes "valid_run (node_promises lib) run_node es (node_run_start lib config me)"
    and "fold run_node es (node_run_start lib config me) = (n, rs, cs, acts)"
  shows "rs = settled_in acts + held_requests n \<and> size (held_requests n) \<le> AUTH_WORKERS * (AUTH_QUEUE_CAPACITY + 1)"
proof -
  from node_runs.inv_reachable [OF assms(1)] assms(2) have "rs = settled_in acts + held_requests n"
    "auth_queues_ok n" by (simp_all add: node_run_inv_def node_ok_def)
  with held_bounded show ?thesis by blast
qed

text \<open>
  (C10) Every control command is answered exactly once: after any run the channels of the commands that
  came in are those that have been answered and those of the running workers, and the workers and the
  free permits together are the configured number, between 1 and 16.
\<close>
theorem control_commands_answered_once:
  assumes "valid_run (node_promises lib) run_node es (node_run_start lib config me)"
    and "fold run_node es (node_run_start lib config me) = (n, rs, cs, acts)"
  shows "cs = answered_in acts + running_commands n
     \<and> nd_dht_permits n + size (running_commands n) = clamp 1 16 (dispatcher_max_inflight_dht config)"
  using node_runs.inv_reachable [OF assms(1)] assms(2) by (simp add: node_run_inv_def running_commands_def)


text \<open>
  (C12) The registry never believes in relays the node does not have. Take any run of the node and any
  run of the registry in which it received the commands the node sent, among whatever else happened to
  it. Then it knows whether the node needs relays, it counts at most the relays in use, and it takes the
  node for reachable only if the node needs no relay or has one.
\<close>
theorem registry_relays_sound:
  assumes "valid_run (node_promises lib) run_node es (node_run_start lib config me)"
    and "fold run_node es (node_run_start lib config me) = (n, rs, cs, acts)"
    and "commands_in events = sc_received (nd_services n)" and "sc_items (nd_services n) = []"
    and "s = ra_state (fold (actor_step js) events (actor_start config0 ready now later))"
  shows "re_need_relay s = needs_relay config \<and> re_active_relays s \<le> length (rm_active (nd_relay n))
     \<and> (relay_ready s \<longrightarrow> \<not> needs_relay config \<or> rm_active (nd_relay n) \<noteq> [])"
proof -
  from node_runs.inv_reachable [OF assms(1)] assms(2) have "belief_ok n" "config_from config (nd_config n)"
    by (simp_all add: node_run_inv_def node_ok_def limits_ok_def)
  moreover have view: "relay_view s = told (sc_history (nd_services n))"
    using registry_view [of js events config0 ready now later] assms(3-5) by (simp add: sc_history_def)
  ultimately have "re_need_relay s = needs_relay config" "re_active_relays s \<le> length (rm_active (nd_relay n))"
    by (simp_all add: belief_ok_def relay_view_def config_from_same(2) flip: view)
  then show ?thesis by (auto simp: relay_ready_def)
qed


text \<open>
  (C3) An inbound request is served end to end. A plain request that the actor accepts becomes an event of
  the controller; with an idle worker, a gate that allows it and room at its backend, it passes the
  controller and the router, is written to the backend under a fresh id, and the backend's reply to that
  id comes back to the peer on the channel of its request, unchanged.
\<close>
theorem inbound_request_served:
  assumes "\<not> pq_required (en_config ea)"
    and node: "nd_running n" "k = unat (nd_auth_next n) mod length (nd_auth_txs n)" "nd_auth_txs n \<noteq> []"
    "nd_auth_txs n ! k = \<lparr>aq_items = [], aq_open = True, aq_current = None\<rparr>"
    and gate: "authorize (nv_auth env) (nv_show_peer env peer) service (nd_auth n) = (g, Some verdict)"
    "verdict = Allow \<or> verdict = AllowUnprotected" "nv_dispatcher_open env"
    and router: "ds_backends d service = Some q" "bq_open q" "length (bq_items q) < BACKEND_QUEUE_CAPACITY"
    and backend: "bk_phase b = Serving" "send_frame cb (Ok ()) (Request id' (bk_service b) payload) = Ok ()"
    and req: "req = \<lparr>in_service = service, in_payload = payload, in_response_tx = en_tx ea\<rparr>"
    and response: "response = \<lparr>sr_success = True, sr_data = data\<rparr>"
  shows "\<exists>a1 a2 n1 n2 n3 d1 b1 b2.
     swarm_step ea (SwarmInput (SwServiceReq (RrRequest peer connection \<lparr>sq_service = service, sq_payload = payload\<rparr> channel))) a
       = (a1, [Notify (NeInboundServiceRequest peer (en_uuid ea) service payload (en_tx ea)), AwaitHandler (en_uuid ea) (en_tx ea)])
     \<and> node_step env (NetworkInput (NeInboundServiceRequest peer (en_uuid ea) service payload (en_tx ea))) n = (n1, [])
     \<and> node_step env (AuthTurn k) n1 = (n2, []) \<and> node_step env (AuthTurn k) n2 = (n3, [Forward (en_uuid ea) req])
     \<and> route parse_peer (Inbound req) d = (d1, []) \<and> ds_backends d1 service = Some (q\<lparr>bq_items := bq_items q @ [CmdRequest req]\<rparr>)
     \<and> backend_step cb (backend_input.Command (Some (CmdRequest req)) id' (Ok ())) b = (b1, [Written (Request id' (bk_service b) payload)])
     \<and> backend_step cb (Frame (Some (Ok (Reply id' True (Some data) None)))) b1 = (b2, [Answer (en_tx ea) (Ok response)])
     \<and> swarm_step ea' (CommandInput (ServiceSendResponse (en_uuid ea) (handler_response (Some (Ok response))))) a1
         = (a2, [RespondPlain channel response])"
proof -
  define job where "job = \<lparr>aj_peer = peer, aj_request_id = en_uuid ea, aj_service = service, aj_payload = payload,
    aj_response_tx = en_tx ea\<rparr>"
  note idle = idle_worker [OF node, of env job]
  have "settle_auth_job (nv_dispatcher_open env) verdict job = [Forward (en_uuid ea) req]"
    using gate(2,3) by (auto simp: forward_auth_job_def req job_def)
  note n3 = idle(3) [of g verdict, unfolded this]
  have n1: "node_step env (NetworkInput (NeInboundServiceRequest peer (en_uuid ea) service payload (en_tx ea))) n
      = (with_queue k \<lparr>aq_items = [job], aq_open = True, aq_current = None\<rparr> n, [])"
    and gate': "authorize (nv_auth env) (nv_show_peer env (aj_peer job)) (aj_service job) (nd_auth n) = (g, Some verdict)"
    using idle(1) gate(1) by (simp_all add: job_def)
  have a1: "\<exists>a1. swarm_step ea (SwarmInput (SwServiceReq (RrRequest peer connection
        \<lparr>sq_service = service, sq_payload = payload\<rparr> channel))) a
      = (a1, [Notify (NeInboundServiceRequest peer (en_uuid ea) service payload (en_tx ea)), AwaitHandler (en_uuid ea) (en_tx ea)])
     \<and> (\<exists>a2. swarm_step ea' (CommandInput (ServiceSendResponse (en_uuid ea) (handler_response (Some (Ok response))))) a1
          = (a2, [RespondPlain channel response]))"
    using assms(1) by (simp add: accept_inbound_def cmd_send_response_def respond_pending_def handler_response_def)
  have d1: "\<exists>d1. route parse_peer (Inbound req) d = (d1, [])
      \<and> ds_backends d1 service = Some (q\<lparr>bq_items := bq_items q @ [CmdRequest req]\<rparr>)"
    using router by (simp add: on_inbound_def queue_cmd_def try_send_def req)
  have b1: "\<exists>b1. backend_step cb (backend_input.Command (Some (CmdRequest req)) id' (Ok ())) b = (b1, [Written (Request id' (bk_service b) payload)])
      \<and> (\<exists>b2. backend_step cb (Frame (Some (Ok (Reply id' True (Some data) None)))) b1 = (b2, [Answer (en_tx ea) (Ok response)]))"
    using backend by (simp add: req response Let_def)
  from n1 idle(2) n3 [OF gate'] a1 d1 b1 show ?thesis by blast
qed

text \<open>
  A refused request is answered to its peer once, with the reason. When the node refuses a request,
  the actor answers the request's channel with the refusal; the message that follows when the request's
  sender is dropped finds nothing to answer.
\<close>
theorem refused_request_answered_once:
  assumes "hm_get (sa_pending_inbound a) request_id = Some entry" and "ie_pending entry = InPlain channel"
    and "node_step env i n = (n', as)" and "Refuse request_id response \<in> set as"
  shows "\<not> sr_success response
     \<and> (\<exists>a1. swarm_step ea (CommandInput (ServiceSendResponse request_id response)) a = (a1, [RespondPlain channel response])
         \<and> swarm_step ea' (CommandInput (ServiceSendResponse request_id (handler_response None))) a1 = (a1, []))"
proof -
  have "\<not> sr_success response" using refuse_fails [of request_id response env i n] assms(3,4) by simp
  with assms(1,2) show ?thesis by (simp add: cmd_send_response_def respond_pending_def)
qed

section \<open>Instances\<close>

text \<open>The node of the gate's example: alice calls the service \<open>db\<close>, which the authority allows; then a
  control command writes a record and provides its key.\<close>

definition demo_node_env :: node_env where
  "demo_node_env =
     \<lparr>nv_lib = demo_lib, nv_now = 0, nv_clock = (\<lambda>_. 0), nv_listen = (\<lambda>_. Ok ()), nv_announce = Ok (),
      nv_dial = (\<lambda>_. Ok ()), nv_reload = Ok (), nv_refreshed = Ok 0, nv_provide = Ok (), nv_stop = Ok (),
      nv_remove = Ok (), nv_answers = demo_answers, nv_auth = demo_auth_env, nv_dispatcher_open = True,
      nv_to_cbor = (\<lambda>_. [246]), nv_show_peer = (\<lambda>_. ''alice''), nv_parse_peer = (\<lambda>_. Ok [7])\<rparr>"

definition demo_job :: auth_job where
  "demo_job = \<lparr>aj_peer = [5], aj_request_id = ''r7'', aj_service = ''db'', aj_payload = [6], aj_response_tx = 5\<rparr>"

definition demo_forward :: node_action where
  "demo_forward = Forward ''r7'' \<lparr>in_service = ''db'', in_payload = [6], in_response_tx = 5\<rparr>"

definition demo_arrives :: "node_env \<times> node_input" where
  "demo_arrives = (demo_node_env, NetworkInput (NeInboundServiceRequest [5] ''r7'' ''db'' [6] 5))"

definition demo_add :: "node_env \<times> node_input" where
  "demo_add = (demo_node_env, ControlInput (AddKey 3 ''/oahd/service/x'' (Some [7]) True) 8)"

definition demo_node :: node_controller where
  "demo_node = node_start demo_lib demo_config [9]"

definition demo_at :: "auth_job list \<Rightarrow> auth_job option \<Rightarrow> node_controller" where
  "demo_at items current = with_queue 0 \<lparr>aq_items = items, aq_open = True, aq_current = current\<rparr> demo_node"

lemma demo_node_fields:
  "nd_running demo_node" "nd_auth_next demo_node = 0" "nd_auth demo_node = gate_new demo_lib demo_config"
  "nd_auth_txs demo_node = replicate 4 \<lparr>aq_items = [], aq_open = True, aq_current = None\<rparr>"
  by (simp_all add: demo_node_def node_start_def notify_relay_state_def send_service_def node_new_def AUTH_WORKERS_def)

lemma demo_env_fields [simp]:
  "nv_lib demo_node_env = demo_lib" "nv_auth demo_node_env = demo_auth_env" "nv_show_peer demo_node_env = (\<lambda>_. ''alice'')"
  "nv_dispatcher_open demo_node_env" "nv_reload demo_node_env = Ok ()"
  by (simp_all add: demo_node_env_def)

lemma demo_gate: "\<exists>g. authorize demo_auth_env ''alice'' ''db'' (nd_auth demo_node) = (g, Some Allow)"
  using demo_authorize by (metis demo_node_fields(3) prod.collapse)

lemma demo_node_steps:
  "node_step demo_node_env (NetworkInput (NeInboundServiceRequest [5] ''r7'' ''db'' [6] 5)) demo_node = (demo_at [demo_job] None, [])"
  "node_step demo_node_env (AuthTurn 0) (demo_at [demo_job] None) = (demo_at [] (Some demo_job), [])"
  "\<exists>g. node_step demo_node_env (AuthTurn 0) (demo_at [] (Some demo_job)) = ((demo_at [] None)\<lparr>nd_auth := g\<rparr>, [demo_forward])"
proof -
  obtain g where g: "authorize demo_auth_env ''alice'' ''db'' (nd_auth demo_node) = (g, Some Allow)" using demo_gate ..
  have idle: "0 = unat (nd_auth_next demo_node) mod length (nd_auth_txs demo_node)" "nd_auth_txs demo_node \<noteq> []"
    "nd_auth_txs demo_node ! 0 = \<lparr>aq_items = [], aq_open = True, aq_current = None\<rparr>"
    by (simp_all add: demo_node_fields)
  note w = idle_worker [OF demo_node_fields(1) idle, of demo_node_env demo_job]
  show "node_step demo_node_env (NetworkInput (NeInboundServiceRequest [5] ''r7'' ''db'' [6] 5)) demo_node = (demo_at [demo_job] None, [])"
    using w(1) by (simp add: demo_at_def) (simp add: demo_job_def)
  show "node_step demo_node_env (AuthTurn 0) (demo_at [demo_job] None) = (demo_at [] (Some demo_job), [])"
    using w(2) by (simp add: demo_at_def)
  have "authorize (nv_auth demo_node_env) (nv_show_peer demo_node_env (aj_peer demo_job)) (aj_service demo_job) (nd_auth demo_node)
      = (g, Some Allow)" using g by (simp add: demo_job_def)
  from w(3) [OF this]
  show "\<exists>g. node_step demo_node_env (AuthTurn 0) (demo_at [] (Some demo_job)) = ((demo_at [] None)\<lparr>nd_auth := g\<rparr>, [demo_forward])"
    by (auto simp: demo_at_def forward_auth_job_def demo_forward_def) (simp_all add: demo_job_def)
qed

lemma demo_at_fields [simp]:
  "nd_running (demo_at items current)" "nd_auth (demo_at items current) = gate_new demo_lib demo_config"
  "nd_auth_txs (demo_at items current) ! 0 = \<lparr>aq_items = items, aq_open = True, aq_current = current\<rparr>"
  "length (nd_auth_txs (demo_at items current)) = 4"
  by (simp_all add: demo_at_def with_queue_def demo_node_fields)

lemma demo_turn_enabled:
  "node_enabled demo_lib (demo_node_env, AuthTurn 0) (demo_at [demo_job] None)"
  "node_enabled demo_lib (demo_node_env, AuthTurn 0) (demo_at [] (Some demo_job))"
  using demo_enabled by (auto simp: demo_job_def simp del: gate_enabled.simps)

lemma demo_run_taken:
  "valid_run (node_promises demo_lib) run_node [demo_arrives, (demo_node_env, AuthTurn 0)] (node_run_start demo_lib demo_config [9])"
  "fold run_node [demo_arrives, (demo_node_env, AuthTurn 0)] (node_run_start demo_lib demo_config [9])
     = (demo_at [] (Some demo_job), {#''r7''#}, {#}, [])"
  using demo_turn_enabled(1)
  by (simp_all add: node_run_start_def run_node_def node_promises_def demo_arrives_def demo_node_steps demo_node_fields
      flip: demo_node_def)

theorem forwarded_requests_authorized_witness:
  "demo_forward \<in> set (snd (node_step demo_node_env (AuthTurn 0) (demo_at [] (Some demo_job))))
   \<and> (entitled demo_lib demo_net ''db'' ''alice'' (ev_now_unix demo_auth_env)
      \<or> unlisted demo_lib demo_net ''db'' (ev_now_unix demo_auth_env))"
proof -
  obtain g where step: "node_step demo_node_env (AuthTurn 0) (demo_at [] (Some demo_job))
      = ((demo_at [] None)\<lparr>nd_auth := g\<rparr>, [demo_forward])" using demo_node_steps(3) ..
  have "service_requires_auth demo_config ''db''"
    using demo_requires(1) by (simp add: gate_new_def Let_def)
  with forwarded_requests_authorized [OF demo_run_taken demo_turn_enabled(2) step] step show ?thesis
    by (auto simp: demo_forward_def demo_gate_state)
qed

text \<open>The whole run: the request is forwarded, the record written and provided, the command answered.\<close>

definition demo_node_run :: "(node_env \<times> node_input) list" where
  "demo_node_run = [demo_arrives, (demo_node_env, AuthTurn 0), (demo_node_env, AuthTurn 0), demo_add]"

definition demo_calls_made :: "node_action list" where
  "demo_calls_made = [Called (PutValue ''/oahd/service/x'' [7] QuorumOne), Called (StartProviding ''/oahd/service/x'')]"

lemma demo_add_step:
  assumes "nd_running n" and "nd_config n = demo_config"
  shows "node_step demo_node_env (snd demo_add) n
     = (invalidate_record_key ''/oahd/service/x'' n, demo_calls_made @ [AnswerControl 8 (Ok [246])])"
proof -
  have "\<not> 1 > unat (compat_max_record_bytes demo_config)"
    by (simp add: compat_max_record_bytes_def demo_config_def node_config_default_def compat_config_default_def
        default_compat_max_record_bytes_def OLD_COMPAT_RECORD_BYTES_def OLD_KAD_PACKET_BYTES_def)
  with assms show ?thesis
    by (simp add: node_step_def demo_add_def dispatch_command_def cmd_add_key_def add_key_check_def is_writable_key_def
        check_compat_record_size_def demo_node_env_def demo_answers_def start_providing_record_def demo_calls_made_def
        quorum_for_key_def Let_def)
qed

lemma demo_node_config: "nd_config demo_node = demo_config"
  by (simp add: demo_node_def node_start_def node_new_def)

lemma demo_whole_run:
  "valid_run (node_promises demo_lib) run_node demo_node_run (node_run_start demo_lib demo_config [9])"
  "\<exists>n. fold run_node demo_node_run (node_run_start demo_lib demo_config [9])
     = (n, {#''r7''#}, {#8#}, demo_forward # demo_calls_made @ [AnswerControl 8 (Ok [246])])"
proof -
  obtain g where step: "node_step demo_node_env (AuthTurn 0) (demo_at [] (Some demo_job))
      = ((demo_at [] None)\<lparr>nd_auth := g\<rparr>, [demo_forward])" using demo_node_steps(3) ..
  let ?n = "(demo_at [] None)\<lparr>nd_auth := g\<rparr>"
  have "nd_config ?n = demo_config" by (simp add: demo_at_def with_queue_def demo_node_config)
  then have add: "node_step demo_node_env (snd demo_add) ?n
     = (invalidate_record_key ''/oahd/service/x'' ?n, demo_calls_made @ [AnswerControl 8 (Ok [246])])"
    by (intro demo_add_step) simp_all
  have snd_add: "demo_add = (demo_node_env, snd demo_add)" by (simp add: demo_add_def)
  have kinds: "control_of (snd demo_add) = {#8#}" "inbound_of (snd demo_add) = {#}"
    "node_enabled demo_lib (demo_node_env, snd demo_add) m = nd_running m" for m by (simp_all add: demo_add_def)
  have run: "run_node demo_arrives (node_run_start demo_lib demo_config [9]) = (demo_at [demo_job] None, {#''r7''#}, {#}, [])"
    by (simp add: run_node_def node_run_start_def demo_arrives_def demo_node_steps flip: demo_node_def)
  have pair: "run_node (env, i) (n, rs, cs, acts) =
      (case node_step env i n of (n', as) \<Rightarrow> (n', rs + inbound_of i, cs + control_of i, acts @ as))" for env i n rs cs acts
    by (simp add: run_node_def)
  have arrives: "node_promises demo_lib demo_arrives (node_run_start demo_lib demo_config [9])"
    by (simp add: node_promises_def node_run_start_def demo_arrives_def demo_node_fields flip: demo_node_def)
  show "valid_run (node_promises demo_lib) run_node demo_node_run (node_run_start demo_lib demo_config [9])"
    unfolding demo_node_run_def using demo_turn_enabled arrives
    by (subst snd_add)
      (simp add: node_promises_def run pair demo_node_steps(2) step kinds del: node_enabled.simps)
  show "\<exists>n. fold run_node demo_node_run (node_run_start demo_lib demo_config [9])
     = (n, {#''r7''#}, {#8#}, demo_forward # demo_calls_made @ [AnswerControl 8 (Ok [246])])"
    unfolding demo_node_run_def by (subst snd_add) (simp add: run pair demo_node_steps(2) step kinds add)
qed

theorem inbound_requests_settled_once_witness:
  "\<exists>n acts. fold run_node demo_node_run (node_run_start demo_lib demo_config [9]) = (n, {#''r7''#}, {#8#}, acts)
     \<and> {#''r7''#} = settled_in acts + held_requests n \<and> settled_in acts = {#''r7''#}"
proof -
  obtain n where run: "fold run_node demo_node_run (node_run_start demo_lib demo_config [9])
     = (n, {#''r7''#}, {#8#}, demo_forward # demo_calls_made @ [AnswerControl 8 (Ok [246])])" using demo_whole_run(2) ..
  with inbound_requests_settled_once [OF demo_whole_run(1) run] show ?thesis
    by (simp add: demo_forward_def demo_calls_made_def)
qed

theorem control_commands_answered_once_witness:
  "\<exists>n acts. fold run_node demo_node_run (node_run_start demo_lib demo_config [9]) = (n, {#''r7''#}, {#8#}, acts)
     \<and> {#8#} = answered_in acts + running_commands n \<and> answered_in acts = {#8#}"
proof -
  obtain n where run: "fold run_node demo_node_run (node_run_start demo_lib demo_config [9])
     = (n, {#''r7''#}, {#8#}, demo_forward # demo_calls_made @ [AnswerControl 8 (Ok [246])])" using demo_whole_run(2) ..
  with control_commands_answered_once [OF demo_whole_run(1) run] show ?thesis
    by (simp add: demo_forward_def demo_calls_made_def)
qed


text \<open>The registry takes the first notification of the node.\<close>

definition demo_told :: "(node_config \<times> instant \<times> instant \<times> registry_event) list" where
  "demo_told = [(demo_config, 1, 1, registry_event.Command (RelayStateChanged (needs_relay demo_config) 0))]"

theorem registry_relays_sound_witness:
  "re_need_relay (ra_state (fold (actor_step demo_json) demo_told (actor_start demo_config [] 0 0))) = needs_relay demo_config"
proof -
  let ?run = "[(demo_node_env, RegistryTurn)]"
  let ?n = "demo_node\<lparr>nd_services := sc_receive (nd_services demo_node)\<rparr>"
  have valid: "valid_run (node_promises demo_lib) run_node ?run (node_run_start demo_lib demo_config [9])"
    by (simp add: node_promises_def node_run_start_def demo_node_fields flip: demo_node_def)
  have run: "fold run_node ?run (node_run_start demo_lib demo_config [9]) = (?n, {#}, {#}, [])"
    by (simp add: run_node_def node_run_start_def node_step_def demo_node_fields flip: demo_node_def)
  have ch: "nd_services demo_node = \<lparr>sc_items = [RelayStateChanged (needs_relay demo_config) 0], sc_received = [], sc_open = True\<rparr>"
    by (simp add: demo_node_def node_start_def notify_relay_state_def send_service_def node_new_def sc_send_def
        COMMAND_QUEUE_CAPACITY_def relay_manager_new_def)
  have "commands_in demo_told = sc_received (nd_services ?n)" "sc_items (nd_services ?n) = []"
    by (simp_all add: ch sc_receive_def demo_told_def commands_in_def map_filter_simps)
  from registry_relays_sound [OF valid run this refl, of demo_json demo_config "[]" 0 0] show ?thesis by simp
qed


text \<open>An actor that takes plain requests, and the answers the peer gets.\<close>

definition demo_plain_env :: actor_env where
  "demo_plain_env = demo_swarm_env\<lparr>en_config := node_config_default\<lparr>cfg_crypto :=
     \<lparr>cc_pq_transport_enabled = False, cc_pq_identity_enabled = False, cc_pq_required = False\<rparr>\<rparr>\<rparr>"

theorem inbound_request_served_witness:
  "\<exists>a1 a2. swarm_step demo_plain_env (SwarmInput (SwServiceReq (RrRequest [5] 2 \<lparr>sq_service = ''db'', sq_payload = [6]\<rparr> 44))) demo_actor
       = (a1, [Notify (NeInboundServiceRequest [5] ''u'' ''db'' [6] 5), AwaitHandler ''u'' 5])
     \<and> swarm_step demo_plain_env (CommandInput (ServiceSendResponse ''u''
         (handler_response (Some (Ok \<lparr>sr_success = True, sr_data = [42]\<rparr>))))) a1
         = (a2, [RespondPlain 44 \<lparr>sr_success = True, sr_data = [42]\<rparr>])"
proof -
  obtain g where g: "authorize (nv_auth demo_node_env) (nv_show_peer demo_node_env [5]) ''db'' (nd_auth demo_node)
      = (g, Some Allow)" using demo_gate by auto
  have plain: "\<not> pq_required (en_config demo_plain_env)" and env: "en_tx demo_plain_env = 5" "en_uuid demo_plain_env = ''u''"
    by (simp_all add: demo_plain_env_def demo_swarm_env_def pq_required_def)
  have idle: "0 = unat (nd_auth_next demo_node) mod length (nd_auth_txs demo_node)" "nd_auth_txs demo_node \<noteq> []"
    "nd_auth_txs demo_node ! 0 = \<lparr>aq_items = [], aq_open = True, aq_current = None\<rparr>"
    by (simp_all add: demo_node_fields)
  let ?b = "(backend_new ''db'')\<lparr>bk_phase := Serving\<rparr>"
  let ?d = "demo_dispatcher\<lparr>ds_backends := [''db'' \<mapsto> \<lparr>bq_items = [], bq_open = True\<rparr>]\<rparr>"
  let ?q = "\<lparr>bq_items = [], bq_open = True\<rparr>"
  have queue: "ds_backends ?d ''db'' = Some ?q" "bq_open ?q" "length (bq_items ?q) < BACKEND_QUEUE_CAPACITY"
    by (simp_all add: BACKEND_QUEUE_CAPACITY_def)
  have serving: "bk_phase ?b = Serving" "send_frame demo_wire (Ok ()) (Request 3 (bk_service ?b) [6]) = Ok ()"
    by (simp_all add: send_frame_def codec_encode_def encode_frame_def demo_wire_def MAX_FRAME_def Let_def)
  from inbound_request_served [OF plain demo_node_fields(1) idle g disjI1 [OF refl] demo_env_fields(4) queue serving
      refl refl, of 2 44 demo_actor "\<lambda>_. None" "[42]" demo_plain_env]
  show ?thesis unfolding env by blast
qed

theorem refused_request_answered_once_witness:
  "\<exists>a1. swarm_step demo_plain_env (CommandInput (ServiceSendResponse ''r7'' (refusal ''service unavailable: channel closed'')))
       (demo_actor\<lparr>sa_pending_inbound := [(''r7'', \<lparr>ie_connection_id = 2, ie_peer = [5], ie_pending = InPlain 44\<rparr>)]\<rparr>)
     = (a1, [RespondPlain 44 (refusal ''service unavailable: channel closed'')])"
proof -
  let ?a = "demo_actor\<lparr>sa_pending_inbound := [(''r7'', \<lparr>ie_connection_id = 2, ie_peer = [5], ie_pending = InPlain 44\<rparr>)]\<rparr>"
  let ?env = "demo_node_env\<lparr>nv_dispatcher_open := False\<rparr>"
  obtain g where g: "authorize (nv_auth ?env) (nv_show_peer ?env (aj_peer demo_job)) (aj_service demo_job) (nd_auth demo_node)
      = (g, Some Allow)" using demo_gate by (auto simp: demo_job_def)
  have idle: "0 = unat (nd_auth_next demo_node) mod length (nd_auth_txs demo_node)" "nd_auth_txs demo_node \<noteq> []"
    "nd_auth_txs demo_node ! 0 = \<lparr>aq_items = [], aq_open = True, aq_current = None\<rparr>"
    by (simp_all add: demo_node_fields)
  have pending: "hm_get (sa_pending_inbound ?a) ''r7'' = Some \<lparr>ie_connection_id = 2, ie_peer = [5], ie_pending = InPlain 44\<rparr>"
    by simp
  have refused: "Refuse ''r7'' (refusal ''service unavailable: channel closed'')
      \<in> set (settle_auth_job (nv_dispatcher_open ?env) Allow demo_job)"
    by (simp add: forward_auth_job_def demo_job_def)
  from refused_request_answered_once [OF pending _ idle_worker(3) [OF demo_node_fields(1) idle g] refused,
      of 44 demo_plain_env demo_plain_env] show ?thesis by auto
qed

end
