(* ===== verification/NN_Files.thy ===== *)
theory NN_Files
  imports NN_Config
begin

text \<open>
  Files and paths: what the code uses of \<open>std::fs\<close> and \<open>std::path\<close>, and \<open>src/src/paths.rs\<close>.

  A file system maps paths to contents. Each call takes the fault the operating system injects into
  it, if any; a read reports \<open>NotFound\<close> of an absent file only, and a write may stop anywhere. \<open>fs::rename\<close> replaces its target, as its documentation says.
\<close>

section \<open>The file system\<close>

datatype fs_error = FsNotFound | FsAlreadyExists | FsOther string

type_synonym files = "string \<rightharpoonup> bytes"

datatype write_fault = OpenFails fs_error | WriteStops nat fs_error

definition fs_read :: "string option \<Rightarrow> string \<Rightarrow> files \<Rightarrow> (bytes, fs_error) result" where
  "fs_read fault path fs =
     (case fault of
        Some e \<Rightarrow> Err (FsOther e)
      | None \<Rightarrow> (case fs path of None \<Rightarrow> Err FsNotFound | Some data \<Rightarrow> Ok data))"

definition fs_write :: "write_fault option \<Rightarrow> string \<Rightarrow> bytes \<Rightarrow> files \<Rightarrow> files \<times> (unit, fs_error) result" where
  "fs_write fault path data fs =
     (case fault of
        None \<Rightarrow> (fs(path \<mapsto> data), Ok ())
      | Some (OpenFails e) \<Rightarrow> (fs, Err e)
      | Some (WriteStops n e) \<Rightarrow> (fs(path \<mapsto> take n data), Err e))"

definition fs_append :: "write_fault option \<Rightarrow> string \<Rightarrow> bytes \<Rightarrow> files \<Rightarrow> files \<times> (unit, fs_error) result" where
  "fs_append fault path data fs =
     (let old = (case fs path of None \<Rightarrow> [] | Some d \<Rightarrow> d) in
      case fault of
        None \<Rightarrow> (fs(path \<mapsto> old @ data), Ok ())
      | Some (OpenFails e) \<Rightarrow> (fs, Err e)
      | Some (WriteStops n e) \<Rightarrow> (fs(path \<mapsto> old @ take n data), Err e))"

definition fs_rename :: "fs_error option \<Rightarrow> string \<Rightarrow> string \<Rightarrow> files \<Rightarrow> files \<times> (unit, fs_error) result" where
  "fs_rename fault src dst fs =
     (case fault of
        Some e \<Rightarrow> (fs, Err e)
      | None \<Rightarrow>
          (case fs src of
             None \<Rightarrow> (fs, Err FsNotFound)
           | Some data \<Rightarrow> (fs(src := None, dst \<mapsto> data), Ok ())))"

definition fs_remove :: "fs_error option \<Rightarrow> string \<Rightarrow> files \<Rightarrow> files \<times> (unit, fs_error) result" where
  "fs_remove fault path fs =
     (case fault of
        Some e \<Rightarrow> (fs, Err e)
      | None \<Rightarrow> if fs path = None then (fs, Err FsNotFound) else (fs(path := None), Ok ()))"

lemma fs_write_other: "p \<noteq> path \<Longrightarrow> fst (fs_write fault path data fs) p = fs p"
  by (simp add: fs_write_def split: option.split write_fault.split)

lemma fs_write_Ok: "fs_write fault path data fs = (fs', Ok ()) \<longleftrightarrow> fault = None \<and> fs' = fs(path \<mapsto> data)"
  by (auto simp: fs_write_def split: option.split write_fault.split)

lemma fs_remove_other: "p \<noteq> path \<Longrightarrow> fst (fs_remove fault path fs) p = fs p"
  by (simp add: fs_remove_def split: option.split)

lemma fs_rename_Ok:
  "fs_rename fault src dst fs = (fs', Ok ()) \<longleftrightarrow>
     fault = None \<and> (\<exists>data. fs src = Some data \<and> fs' = fs(src := None, dst \<mapsto> data))"
  by (auto simp: fs_rename_def split: option.split)

lemma fs_rename_Err: "snd (fs_rename fault src dst fs) = Err e \<Longrightarrow> fst (fs_rename fault src dst fs) = fs"
  by (auto simp: fs_rename_def split: option.splits)

section \<open>Paths\<close>

text \<open>The last component of a path and what comes before it.\<close>

definition file_name :: "string \<Rightarrow> string" where
  "file_name path = rev (takeWhile (\<lambda>c. c \<noteq> CHR ''/'') (rev path))"

definition parent_prefix :: "string \<Rightarrow> string" where
  "parent_prefix path = rev (dropWhile (\<lambda>c. c \<noteq> CHR ''/'') (rev path))"

text \<open>A name is split at its last dot, unless nothing precedes it.\<close>

definition file_stem :: "string \<Rightarrow> string" where
  "file_stem name =
     (let before = rev (tl (dropWhile (\<lambda>c. c \<noteq> CHR ''.'') (rev name)))
      in if name = ''..'' \<or> before = [] then name else before)"

definition with_extension :: "string \<Rightarrow> string \<Rightarrow> string" where
  "with_extension path ext = parent_prefix path @ file_stem (file_name path) @ ''.'' @ ext"

definition path_join :: "string \<Rightarrow> string \<Rightarrow> string" where
  "path_join base name = (if base = [] \<or> last base = CHR ''/'' then base @ name else base @ ''/'' @ name)"

lemma path_join_split: "\<exists>dir. path_join base name = dir @ name \<and> (dir = [] \<or> last dir = CHR ''/'')"
  by (simp add: path_join_def)

lemma with_extension_join:
  assumes "dir = [] \<or> last dir = CHR ''/''" and "CHR ''/'' \<notin> set name"
  shows "with_extension (dir @ name) ext = dir @ file_stem name @ ''.'' @ ext"
proof -
  have "dropWhile (\<lambda>c. c \<noteq> CHR ''/'') (rev (dir @ name)) = rev dir"
    and "takeWhile (\<lambda>c. c \<noteq> CHR ''/'') (rev (dir @ name)) = rev name"
  proof -
    have all: "\<And>c. c \<in> set (rev name) \<Longrightarrow> c \<noteq> CHR ''/''" using assms(2) by auto
    show "dropWhile (\<lambda>c. c \<noteq> CHR ''/'') (rev (dir @ name)) = rev dir"
      using assms(1) all by (cases dir rule: rev_cases) (auto simp: dropWhile_append3 dropWhile_append)
    show "takeWhile (\<lambda>c. c \<noteq> CHR ''/'') (rev (dir @ name)) = rev name"
      using assms(1) all by (cases dir rule: rev_cases) (auto simp: takeWhile_append)
  qed
  then show ?thesis by (simp add: with_extension_def parent_prefix_def file_name_def)
qed

section \<open>Where the files are\<close>

datatype fail_type = FtConfig | FtKeypair | FtLog

text \<open>\<open>vars\<close> are the environment variables of the process.\<close>

definition dir_from :: "(string \<rightharpoonup> string) \<Rightarrow> string \<Rightarrow> string" where
  "dir_from vars var = (case vars var of Some path \<Rightarrow> if path \<noteq> [] then path else ''./'' | None \<Rightarrow> ''./'')"

definition config_path :: "(string \<rightharpoonup> string) \<Rightarrow> string" where
  "config_path vars = dir_from vars ''NEXUSNET_CONFIG_PATH''"

definition keypair_path :: "(string \<rightharpoonup> string) \<Rightarrow> string" where
  "keypair_path vars = dir_from vars ''NEXUSNET_KEYPAIR_PATH''"

definition log_path :: "(string \<rightharpoonup> string) \<Rightarrow> string" where
  "log_path vars = dir_from vars ''NEXUSNET_LOG_PATH''"

definition fail_path_gener :: "(string \<rightharpoonup> string) \<Rightarrow> fail_type \<Rightarrow> string \<Rightarrow> string" where
  "fail_path_gener vars fail_type fail_name =
     (let base = (case fail_type of
                    FtConfig \<Rightarrow> config_path vars
                  | FtKeypair \<Rightarrow> keypair_path vars
                  | FtLog \<Rightarrow> log_path vars)
      in path_join base fail_name)"

lemma fail_path_split:
  "\<exists>dir. fail_path_gener vars fail_type name = dir @ name \<and> (dir = [] \<or> last dir = CHR ''/'')"
  by (simp add: fail_path_gener_def path_join_split)

end
