(* ===== verification/NN_Identity.thy ===== *)
theory NN_Identity
  imports NN_Files NN_Pq
begin

text \<open>
  The node identity on disk: \<open>KeyManager\<close> of \<open>src/src/network/identity.rs\<close> and the part of \<open>main\<close>
  that loads it.

  The protobuf codec of libp2p's keypairs is the parameter \<open>identity_lib\<close>; the random seeds
  of the keys a start would generate and the faults of its file operations are in \<open>start_env\<close>. A process killed inside
  \<open>atomic_write\<close> leaves the files that the call leaves when its write or its rename fails there.
  The theorems follow any sequence of starts over the same files.
\<close>

section \<open>External library, faults\<close>

record identity_lib =
  il_decode :: "bytes \<Rightarrow> (keypair, string) result"
  il_encode :: "keypair \<Rightarrow> (bytes, string) result"
  il_peer_id :: "keypair \<Rightarrow> peer_id"

record aw_faults =
  aw_write :: "write_fault option"
  aw_rename :: "fs_error option"
  aw_remove :: "fs_error option"

record start_env =
  se_keypair :: keypair
  se_kem_seed :: bytes
  se_sig_seed :: bytes
  se_x_seed :: bytes
  se_read :: "string option"
  se_pq_read :: "string option"
  se_save :: aw_faults
  se_pq_save :: aw_faults

section \<open>The key manager\<close>

datatype identity_error = DecodingError string | IoFailed fs_error

record key_manager =
  km_keypair :: keypair
  km_path :: string
  km_pq_path :: string
  km_pq_keys :: "pq_keys option"

definition atomic_write :: "aw_faults \<Rightarrow> string \<Rightarrow> bytes \<Rightarrow> files \<Rightarrow> files \<times> (unit, fs_error) result" where
  "atomic_write faults path data fs =
     (let temp_path = with_extension path ''tmp'' in
      case fs_write (aw_write faults) temp_path data fs of
        (fs, Err e) \<Rightarrow> (fs, Err e)
      | (fs, Ok _) \<Rightarrow>
          (case fs_rename (aw_rename faults) temp_path path fs of
             (fs, Err e) \<Rightarrow> (fst (fs_remove (aw_remove faults) temp_path fs), Err e)
           | (fs, Ok _) \<Rightarrow> (fs, Ok ())))"

definition load_pq_keys :: "pq_lib \<Rightarrow> string option \<Rightarrow> string \<Rightarrow> files \<Rightarrow> pq_keys option" where
  "load_pq_keys lib fault pq_path fs =
     (case fs_read fault pq_path fs of
        Err _ \<Rightarrow> None
      | Ok bytes \<Rightarrow> (case keys_from_bytes lib bytes of Ok keys \<Rightarrow> Some keys | Err _ \<Rightarrow> None))"

definition load_keypair ::
    "identity_lib \<Rightarrow> start_env \<Rightarrow> string \<Rightarrow> files \<Rightarrow> files \<times> (keypair, identity_error) result" where
  "load_keypair il env path fs =
     (case fs_read (se_read env) path fs of
        Ok bytes \<Rightarrow>
          (case il_decode il bytes of
             Ok keypair \<Rightarrow> (fs, Ok keypair)
           | Err e \<Rightarrow> (fs, Err (DecodingError e)))
      | Err FsNotFound \<Rightarrow>
          (let keypair = se_keypair env in
           case il_encode il keypair of
             Err e \<Rightarrow> (fs, Err (DecodingError e))
           | Ok encoded \<Rightarrow>
               (case atomic_write (se_save env) path encoded fs of
                  (fs, Err e) \<Rightarrow> (fs, Err (IoFailed e))
                | (fs, Ok _) \<Rightarrow> (fs, Ok keypair)))
      | Err e \<Rightarrow> (fs, Err (IoFailed e)))"

definition load_or_create ::
    "identity_lib \<Rightarrow> pq_lib \<Rightarrow> start_env \<Rightarrow> string \<Rightarrow> files \<Rightarrow> files \<times> (key_manager, identity_error) result" where
  "load_or_create il lib env path fs =
     (let pq_path = with_extension path ''pq.bin'' in
      case load_keypair il env path fs of
        (fs, Err e) \<Rightarrow> (fs, Err e)
      | (fs, Ok keypair) \<Rightarrow>
          (fs, Ok \<lparr>km_keypair = keypair, km_path = path, km_pq_path = pq_path,
                   km_pq_keys = load_pq_keys lib (se_pq_read env) pq_path fs\<rparr>))"

definition has_pq_keys :: "key_manager \<Rightarrow> bool" where
  "has_pq_keys km \<longleftrightarrow> km_pq_keys km \<noteq> None"

definition take_pq_keys :: "key_manager \<Rightarrow> key_manager \<times> pq_keys option" where
  "take_pq_keys km = (km\<lparr>km_pq_keys := None\<rparr>, km_pq_keys km)"

definition km_peer_id :: "identity_lib \<Rightarrow> key_manager \<Rightarrow> peer_id" where
  "km_peer_id il km = il_peer_id il (km_keypair km)"

definition new_pq_keys :: "pq_lib \<Rightarrow> start_env \<Rightarrow> pq_keys" where
  "new_pq_keys lib env = pq_generate lib (se_kem_seed env) (se_sig_seed env) (se_x_seed env)"

definition ensure_pq_keys ::
    "pq_lib \<Rightarrow> start_env \<Rightarrow> key_manager \<Rightarrow> files \<Rightarrow> files \<times> key_manager \<times> (unit, fs_error) result" where
  "ensure_pq_keys lib env km fs =
     (if has_pq_keys km then (fs, km, Ok ())
      else
        let keys = new_pq_keys lib env in
        case atomic_write (se_pq_save env) (km_pq_path km) (keys_to_bytes keys) fs of
          (fs, Err e) \<Rightarrow> (fs, km, Err e)
        | (fs, Ok _) \<Rightarrow> (fs, km\<lparr>km_pq_keys := Some keys\<rparr>, Ok ()))"

text \<open>What \<open>main\<close> does with them: a failure of \<open>ensure_pq_keys\<close> is only logged.\<close>

definition start_keys ::
    "identity_lib \<Rightarrow> pq_lib \<Rightarrow> (string \<rightharpoonup> string) \<Rightarrow> node_config \<Rightarrow> start_env \<Rightarrow> files
      \<Rightarrow> files \<times> (key_manager, identity_error) result" where
  "start_keys il lib vars config env fs =
     (case load_or_create il lib env (fail_path_gener vars FtKeypair ''keypair.bin'') fs of
        (fs, Err e) \<Rightarrow> (fs, Err e)
      | (fs, Ok km) \<Rightarrow>
          if pq_enabled config
          then (case ensure_pq_keys lib env km fs of (fs, km, _) \<Rightarrow> (fs, Ok km))
          else (fs, Ok km))"

fun run_starts ::
    "identity_lib \<Rightarrow> pq_lib \<Rightarrow> (string \<rightharpoonup> string) \<Rightarrow> (node_config \<times> start_env) list \<Rightarrow> files
      \<Rightarrow> files \<times> (key_manager, identity_error) result list" where
  "run_starts il lib vars [] fs = (fs, [])"
| "run_starts il lib vars ((config, env) # starts) fs =
     (case start_keys il lib vars config env fs of
        (fs, r) \<Rightarrow> (case run_starts il lib vars starts fs of (fs, rs) \<Rightarrow> (fs, r # rs)))"

section \<open>Atomic writes\<close>

text \<open>Whatever fails, a target that is not its own temporary file has its old content or all of the
  new one, and nothing but the target and the temporary file changes.\<close>

lemma atomic_write_cases:
  assumes "with_extension path ''tmp'' \<noteq> path"
  shows "(snd (atomic_write faults path data fs) = Ok () \<and> fst (atomic_write faults path data fs) path = Some data)
     \<or> ((\<exists>e. snd (atomic_write faults path data fs) = Err e) \<and> fst (atomic_write faults path data fs) path = fs path)"
  using assms
  by (auto simp: atomic_write_def fs_write_def fs_rename_def fs_remove_def Let_def
      split: option.split write_fault.split)

lemma atomic_write_other:
  assumes "p \<noteq> path" and "p \<noteq> with_extension path ''tmp''"
  shows "fst (atomic_write faults path data fs) p = fs p"
  using assms
  by (auto simp: atomic_write_def fs_write_def fs_rename_def fs_remove_def Let_def
      split: option.split write_fault.split)

lemma atomic_write_stored:
  assumes "atomic_write faults path data fs = (fs', Ok u)"
  shows "fs' path = Some data"
  using assms
  by (auto simp: atomic_write_def fs_write_def fs_rename_def Let_def
      split: option.splits write_fault.splits)

lemma atomic_write_Ok:
  assumes "aw_write faults = None" and "aw_rename faults = None"
  shows "snd (atomic_write faults path data fs) = Ok ()"
  using assms by (simp add: atomic_write_def fs_write_def fs_rename_def Let_def)

section \<open>The paths are apart\<close>

definition key_path :: "(string \<rightharpoonup> string) \<Rightarrow> string" where
  "key_path vars = fail_path_gener vars FtKeypair ''keypair.bin''"

definition pq_key_path :: "(string \<rightharpoonup> string) \<Rightarrow> string" where
  "pq_key_path vars = with_extension (key_path vars) ''pq.bin''"

lemma key_paths_apart:
  "pq_key_path vars \<noteq> key_path vars"
  "with_extension (key_path vars) ''tmp'' \<noteq> key_path vars"
  "with_extension (key_path vars) ''tmp'' \<noteq> pq_key_path vars"
  "with_extension (pq_key_path vars) ''tmp'' \<noteq> pq_key_path vars"
  "with_extension (pq_key_path vars) ''tmp'' \<noteq> key_path vars"
proof -
  obtain dir where dir: "key_path vars = dir @ ''keypair.bin''" "dir = [] \<or> last dir = CHR ''/''"
    using fail_path_split unfolding key_path_def by blast
  have ext: "with_extension (key_path vars) e = dir @ ''keypair'' @ ''.'' @ e" for e
    using with_extension_join [OF dir(2), of "''keypair.bin''" e] by (simp add: dir(1) file_stem_def Let_def)
  then have pq: "pq_key_path vars = dir @ ''keypair.pq.bin''" by (simp add: pq_key_path_def)
  have pq_tmp: "with_extension (pq_key_path vars) ''tmp'' = dir @ ''keypair.pq.tmp''"
    using with_extension_join [OF dir(2), of "''keypair.pq.bin''" "''tmp''"] by (simp add: pq file_stem_def Let_def)
  show "pq_key_path vars \<noteq> key_path vars"
    "with_extension (key_path vars) ''tmp'' \<noteq> key_path vars"
    "with_extension (key_path vars) ''tmp'' \<noteq> pq_key_path vars"
    "with_extension (pq_key_path vars) ''tmp'' \<noteq> pq_key_path vars"
    "with_extension (pq_key_path vars) ''tmp'' \<noteq> key_path vars"
    unfolding ext pq_tmp by (simp_all add: dir(1) pq)
qed

section \<open>What a start leaves on disk\<close>

definition keypair_stored :: "identity_lib \<Rightarrow> (string \<rightharpoonup> string) \<Rightarrow> keypair \<Rightarrow> files \<Rightarrow> bool" where
  "keypair_stored il vars kp fs \<longleftrightarrow> (\<exists>data. fs (key_path vars) = Some data \<and> il_decode il data = Ok kp)"

definition pq_keys_stored :: "pq_lib \<Rightarrow> (string \<rightharpoonup> string) \<Rightarrow> pq_keys \<Rightarrow> files \<Rightarrow> bool" where
  "pq_keys_stored lib vars k fs \<longleftrightarrow> (\<exists>data. fs (pq_key_path vars) = Some data \<and> keys_from_bytes lib data = Ok k)"

text \<open>The codec of libp2p reads back what it wrote, and generated keys have their documented sizes.\<close>

definition identity_libs_ok :: "identity_lib \<Rightarrow> pq_lib \<Rightarrow> bool" where
  "identity_libs_ok il lib \<longleftrightarrow>
     (\<forall>kp data. il_encode il kp = Ok data \<longrightarrow> il_decode il data = Ok kp) \<and> key_sizes_ok lib \<and> keygen_ok lib"

lemma load_keypair_Ok:
  assumes "identity_libs_ok il lib" and "load_keypair il env (key_path vars) fs = (fs', Ok kp)"
  shows "keypair_stored il vars kp fs'"
  using assms
  by (auto simp: load_keypair_def keypair_stored_def identity_libs_ok_def fs_read_def Let_def
      split: result.splits option.splits prod.splits fs_error.splits dest: atomic_write_stored)

lemma load_keypair_stored:
  assumes "keypair_stored il vars kp fs"
  shows "load_keypair il env (key_path vars) fs =
     (fs, case se_read env of None \<Rightarrow> Ok kp | Some e \<Rightarrow> Err (IoFailed (FsOther e)))"
  using assms by (auto simp: keypair_stored_def load_keypair_def fs_read_def split: option.split)

lemma load_keypair_pq_file:
  "fst (load_keypair il env (key_path vars) fs) (pq_key_path vars) = fs (pq_key_path vars)"
proof -
  have "fs' (pq_key_path vars) = fs (pq_key_path vars)"
    if "atomic_write (se_save env) (key_path vars) data fs = (fs', r)" for data fs' r
    using atomic_write_other [OF key_paths_apart(1) key_paths_apart(3) [of vars, symmetric],
      of "se_save env" data fs] that by simp
  then show ?thesis by (auto simp: load_keypair_def Let_def split: result.split prod.split fs_error.split)
qed

lemma ensure_pq_keys_key_file:
  assumes "km_pq_path km = pq_key_path vars"
  shows "fst (ensure_pq_keys lib env km fs) (key_path vars) = fs (key_path vars)"
    and "km_keypair (fst (snd (ensure_pq_keys lib env km fs))) = km_keypair km"
  using assms
    atomic_write_other [OF key_paths_apart(1) [of vars, symmetric] key_paths_apart(5) [of vars, symmetric],
      of "se_pq_save env" "keys_to_bytes (new_pq_keys lib env)" fs]
  by (auto simp: ensure_pq_keys_def Let_def split: result.split prod.split)

lemma ensure_pq_keys_stored:
  assumes "identity_libs_ok il lib" and "length (se_x_seed env) = X25519_LEN"
    and "km_pq_path km = pq_key_path vars"
    and "\<And>k. km_pq_keys km = Some k \<Longrightarrow> pq_keys_stored lib vars k fs"
    and "ensure_pq_keys lib env km fs = (fs', km', r)" and "km_pq_keys km' = Some k"
  shows "pq_keys_stored lib vars k fs'"
proof -
  have "keys_paired lib (new_pq_keys lib env)"
    using assms(2) by (auto simp: keys_paired_def new_pq_keys_def pq_generate_def Let_def split: prod.splits)
  then have "keys_from_bytes lib (keys_to_bytes (new_pq_keys lib env)) = Ok (new_pq_keys lib env)"
    using assms(1) keys_from_to_bytes [of lib "new_pq_keys lib env" "[]"] keys_paired_valid
    by (auto simp: identity_libs_ok_def)
  then show ?thesis
    using assms(3-6)
    by (auto simp: ensure_pq_keys_def has_pq_keys_def pq_keys_stored_def Let_def
        split: if_splits prod.splits result.splits dest: atomic_write_stored)
qed

lemma load_pq_keys_stored: "load_pq_keys lib fault (pq_key_path vars) fs = Some k \<Longrightarrow> pq_keys_stored lib vars k fs"
  by (auto simp: load_pq_keys_def pq_keys_stored_def fs_read_def split: result.splits option.splits)

lemma load_stored_pq_keys: "pq_keys_stored lib vars k fs \<Longrightarrow> load_pq_keys lib None (pq_key_path vars) fs = Some k"
  by (auto simp: load_pq_keys_def pq_keys_stored_def fs_read_def)

section \<open>Restarts\<close>

definition loaded_manager ::
    "pq_lib \<Rightarrow> (string \<rightharpoonup> string) \<Rightarrow> start_env \<Rightarrow> keypair \<Rightarrow> files \<Rightarrow> key_manager" where
  "loaded_manager lib vars env kp fs =
     \<lparr>km_keypair = kp, km_path = key_path vars, km_pq_path = pq_key_path vars,
      km_pq_keys = load_pq_keys lib (se_pq_read env) (pq_key_path vars) fs\<rparr>"

lemma loaded_manager_simps [simp]:
  "km_keypair (loaded_manager lib vars env kp fs) = kp"
  "km_pq_path (loaded_manager lib vars env kp fs) = pq_key_path vars"
  "km_pq_keys (loaded_manager lib vars env kp fs) = load_pq_keys lib (se_pq_read env) (pq_key_path vars) fs"
  by (simp_all add: loaded_manager_def)

lemma start_keys_unfold:
  "start_keys il lib vars config env fs =
     (case load_keypair il env (key_path vars) fs of
        (fs, Err e) \<Rightarrow> (fs, Err e)
      | (fs, Ok kp) \<Rightarrow>
          (let km = loaded_manager lib vars env kp fs in
           if pq_enabled config
           then (fst (ensure_pq_keys lib env km fs), Ok (fst (snd (ensure_pq_keys lib env km fs))))
           else (fs, Ok km)))"
  by (simp add: start_keys_def load_or_create_def key_path_def [symmetric] pq_key_path_def [symmetric]
      loaded_manager_def Let_def case_prod_unfold split: prod.split result.split)

lemma start_keys_stores:
  assumes "identity_libs_ok il lib" and "length (se_x_seed env) = X25519_LEN"
    and "start_keys il lib vars config env fs = (fs', Ok km)"
  shows "keypair_stored il vars (km_keypair km) fs'"
    and "km_pq_keys km = Some k \<Longrightarrow> pq_keys_stored lib vars k fs'"
proof -
  obtain fs1 kp where loaded: "load_keypair il env (key_path vars) fs = (fs1, Ok kp)"
    using assms(3) by (auto simp: start_keys_unfold split: prod.splits result.splits)
  define km1 where "km1 = loaded_manager lib vars env kp fs1"
  have path: "km_pq_path km1 = pq_key_path vars" and kp: "km_keypair km1 = kp" by (simp_all add: km1_def)
  have pq: "pq_keys_stored lib vars k fs1" if "km_pq_keys km1 = Some k" for k
    using that by (simp add: km1_def load_pq_keys_stored)
  have rest: "(fs', Ok km) = (if pq_enabled config
      then (fst (ensure_pq_keys lib env km1 fs1), Ok (fst (snd (ensure_pq_keys lib env km1 fs1)))) else (fs1, Ok km1))"
    using assms(3) loaded by (auto simp: start_keys_unfold km1_def Let_def split: if_splits)
  have stored: "keypair_stored il vars kp fs1" by (rule load_keypair_Ok [OF assms(1) loaded])
  show "keypair_stored il vars (km_keypair km) fs'"
    using rest stored ensure_pq_keys_key_file [OF path, of lib env fs1] kp
    by (simp add: keypair_stored_def split: if_splits)
  obtain fs2 km2 r where ensured: "ensure_pq_keys lib env km1 fs1 = (fs2, km2, r)" by (metis prod_cases3)
  show "pq_keys_stored lib vars k fs'" if "km_pq_keys km = Some k"
    using rest that pq [of k] ensure_pq_keys_stored [OF assms(1,2) path pq ensured, of k]
    by (simp add: ensured split: if_splits)
qed

lemma start_keys_stored:
  assumes "keypair_stored il vars kp fs"
  shows "case start_keys il lib vars config env fs of
      (fs', Ok km) \<Rightarrow> se_read env = None \<and> km_keypair km = kp \<and> keypair_stored il vars kp fs'
    | (fs', Err e) \<Rightarrow> (\<exists>msg. se_read env = Some msg \<and> e = IoFailed (FsOther msg)) \<and> fs' = fs"
  using assms load_keypair_stored [OF assms, of env]
    ensure_pq_keys_key_file [of "loaded_manager lib vars env kp fs" vars lib env fs]
  by (simp add: start_keys_unfold keypair_stored_def Let_def split: option.split)

lemma start_keys_pq_stored:
  assumes "keypair_stored il vars kp fs" and "pq_keys_stored lib vars k fs" and "se_pq_read env = None"
  shows "fst (start_keys il lib vars config env fs) = fs"
    and "snd (start_keys il lib vars config env fs) = Ok km \<Longrightarrow> km_pq_keys km = Some k"
  using load_keypair_stored [OF assms(1), of env] load_stored_pq_keys [OF assms(2)] assms(3)
  by (auto simp: start_keys_unfold ensure_pq_keys_def has_pq_keys_def Let_def split: option.splits if_splits)

lemma run_starts_kept:
  assumes "keypair_stored il vars kp fs" and "run_starts il lib vars starts fs = (fs', rs)"
  shows "list_all2 (\<lambda>(config, env) r. case r of
             Ok km \<Rightarrow> se_read env = None \<and> km_keypair km = kp
           | Err e \<Rightarrow> \<exists>msg. se_read env = Some msg \<and> e = IoFailed (FsOther msg)) starts rs
     \<and> keypair_stored il vars kp fs'"
  using assms
proof (induction starts arbitrary: fs rs)
  case (Cons start starts)
  obtain config env where start: "start = (config, env)" by (cases start)
  obtain fs1 r where r: "start_keys il lib vars config env fs = (fs1, r)" by (cases "start_keys il lib vars config env fs")
  obtain rs' where rs: "rs = r # rs'" "run_starts il lib vars starts fs1 = (fs', rs')"
    using Cons.prems(2) by (auto simp: start r split: prod.splits)
  have "keypair_stored il vars kp fs1"
    using start_keys_stored [OF Cons.prems(1), where lib = lib and config = config and env = env] Cons.prems(1) by (simp add: r split: result.splits)
  then show ?case
    using Cons.IH [OF _ rs(2)] start_keys_stored [OF Cons.prems(1), where lib = lib and config = config and env = env]
    by (simp add: start r rs(1) split: result.splits)
qed simp

lemma run_starts_pq_kept:
  assumes "keypair_stored il vars kp fs" and "pq_keys_stored lib vars k fs"
    and "\<forall>(config, env) \<in> set starts. se_pq_read env = None"
    and "run_starts il lib vars starts fs = (fs', rs)" and "Ok km \<in> set rs"
  shows "km_pq_keys km = Some k"
  using assms(3-)
proof (induction starts arbitrary: rs)
  case (Cons start starts)
  obtain config env where start: "start = (config, env)" by (cases start)
  obtain fs1 r where r: "start_keys il lib vars config env fs = (fs1, r)" by (cases "start_keys il lib vars config env fs")
  have fs1: "fs1 = fs" and km: "r = Ok km \<Longrightarrow> km_pq_keys km = Some k"
    using start_keys_pq_stored [OF assms(1,2), of env config] Cons.prems(1) by (auto simp: start r)
  obtain rs' where rs: "rs = r # rs'" "run_starts il lib vars starts fs = (fs', rs')"
    using Cons.prems(2) by (auto simp: start r fs1 split: prod.splits)
  then show ?case using Cons.IH [OF _ rs(2)] Cons.prems(1,3) km by auto
qed simp

lemma run_starts_append:
  "run_starts il lib vars (xs @ ys) fs =
     (case run_starts il lib vars xs fs of
        (fs1, rs) \<Rightarrow> (case run_starts il lib vars ys fs1 of (fs2, rs') \<Rightarrow> (fs2, rs @ rs')))"
  by (induction xs arbitrary: fs) (auto split: prod.split)

lemma run_starts_length: "length (snd (run_starts il lib vars xs fs)) = length xs"
  by (induction xs arbitrary: fs) (auto simp: case_prod_unfold)

text \<open>A run seen from one of its starts: what came before, its outcome, what comes after.\<close>

lemma run_starts_at:
  assumes "run_starts il lib vars starts fs = (fs', rs)" and "i < length starts" and "starts ! i = (config, env)"
  obtains fs1 fs2 where "start_keys il lib vars config env fs1 = (fs2, rs ! i)"
    and "run_starts il lib vars (drop (Suc i) starts) fs2 = (fs', drop (Suc i) rs)"
proof -
  obtain fs1 rs1 where before: "run_starts il lib vars (take i starts) fs = (fs1, rs1)"
    by (cases "run_starts il lib vars (take i starts) fs")
  obtain fs2 r where r: "start_keys il lib vars config env fs1 = (fs2, r)"
    by (cases "start_keys il lib vars config env fs1")
  obtain fs3 rs2 where later: "run_starts il lib vars (drop (Suc i) starts) fs2 = (fs3, rs2)"
    by (cases "run_starts il lib vars (drop (Suc i) starts) fs2")
  have starts: "starts = take i starts @ (config, env) # drop (Suc i) starts"
    using assms(2,3) by (metis id_take_nth_drop)
  have rs1: "length rs1 = i" using before assms(2) run_starts_length [of il lib vars "take i starts" fs] by simp
  have "(fs', rs) = (fs3, rs1 @ r # rs2)"
    using assms(1) by (subst (asm) starts) (simp add: run_starts_append before r later)
  then show thesis using that r later rs1 by (simp add: nth_append)
qed

text \<open>(C24) The identity survives restarts. Take any sequence of starts over the same files, each with
  its own configuration and its own failing or interrupted file operations. Once a start has returned a
  key manager, every later start returns the same key pair and \<open>PeerId\<close>, or fails because the key file
  cannot be read; with the post-quantum keys readable, the later starts have those of the earlier one.\<close>
theorem identity_survives_restarts:
  assumes "identity_libs_ok il lib"
    and "\<forall>(config, env) \<in> set starts. length (se_x_seed env) = X25519_LEN"
    and "run_starts il lib vars starts fs = (fs', rs)"
    and "i < j" and "j < length starts" and "rs ! i = Ok km"
  shows "case rs ! j of
      Ok km' \<Rightarrow> km_keypair km' = km_keypair km \<and> km_peer_id il km' = km_peer_id il km
        \<and> ((\<forall>(config, env) \<in> set starts. se_pq_read env = None)
            \<longrightarrow> km_pq_keys km \<noteq> None \<longrightarrow> km_pq_keys km' = km_pq_keys km)
    | Err e \<Rightarrow> \<exists>msg. se_read (snd (starts ! j)) = Some msg \<and> e = IoFailed (FsOther msg)"
proof -
  obtain config env where start: "starts ! i = (config, env)" by (cases "starts ! i")
  have i: "i < length starts" using assms(4,5) by simp
  obtain fs1 fs2 where first: "start_keys il lib vars config env fs1 = (fs2, Ok km)"
      and later: "run_starts il lib vars (drop (Suc i) starts) fs2 = (fs', drop (Suc i) rs)"
    by (rule run_starts_at [OF assms(3) i start]) (simp add: assms(6))
  have seed: "length (se_x_seed env) = X25519_LEN"
    using assms(2) nth_mem [OF i] start by (auto dest!: bspec)
  note stored = start_keys_stores [OF assms(1) seed first]
  have n: "j - Suc i < length (drop (Suc i) starts)" "Suc i + (j - Suc i) = j" using assms(4,5) by simp_all
  have rs: "j < length rs" using assms(3,5) run_starts_length [of il lib vars starts fs] by simp
  have kept: "case rs ! j of
      Ok km' \<Rightarrow> se_read (snd (starts ! j)) = None \<and> km_keypair km' = km_keypair km
    | Err e \<Rightarrow> \<exists>msg. se_read (snd (starts ! j)) = Some msg \<and> e = IoFailed (FsOther msg)"
    using list_all2_nthD [OF conjunct1 [OF run_starts_kept [OF stored(1) later]] n(1)] n rs i
    by (simp add: case_prod_unfold)
  have pq: "km_pq_keys km' = km_pq_keys km"
    if km': "rs ! j = Ok km'" and reads: "\<forall>(config, env) \<in> set starts. se_pq_read env = None"
      and some: "km_pq_keys km \<noteq> None" for km'
  proof -
    obtain k where k: "km_pq_keys km = Some k" using some by blast
    have "drop (Suc i) rs ! (j - Suc i) = Ok km'" using km' n rs by simp
    then have "Ok km' \<in> set (drop (Suc i) rs)" using n rs by (metis length_drop nth_mem diff_less_mono assms(4) Suc_leI)
    moreover have "\<forall>(config, env) \<in> set (drop (Suc i) starts). se_pq_read env = None"
      using reads by (auto dest: in_set_dropD)
    ultimately show ?thesis
      using run_starts_pq_kept [OF stored(1) stored(2) [OF k] _ later] k by simp
  qed
  show ?thesis using kept pq by (cases "rs ! j") (simp_all add: km_peer_id_def)
qed

definition demo_il :: identity_lib where
  "demo_il = \<lparr>il_decode = (\<lambda>b. if b = [] then Err ''empty'' else Ok b),
     il_encode = (\<lambda>kp. if kp = [] then Err ''empty'' else Ok kp), il_peer_id = (\<lambda>kp. kp)\<rparr>"

definition demo_aw :: aw_faults where
  "demo_aw = \<lparr>aw_write = None, aw_rename = None, aw_remove = None\<rparr>"

definition demo_start :: "keypair \<Rightarrow> start_env" where
  "demo_start kp = \<lparr>se_keypair = kp, se_kem_seed = [], se_sig_seed = [], se_x_seed = replicate X25519_LEN 7,
     se_read = None, se_pq_read = None, se_save = demo_aw, se_pq_save = demo_aw\<rparr>"

definition demo_keys_config :: node_config where
  "demo_keys_config = node_config_default\<lparr>cfg_crypto := crypto_config_default\<lparr>cc_pq_transport_enabled := True\<rparr>\<rparr>"

lemma demo_il_ok: "identity_libs_ok demo_il demo_pq"
  using demo_pq_ok by (simp add: identity_libs_ok_def demo_il_def pq_lib_ok_def)

lemma demo_keys_config_enabled: "pq_enabled demo_keys_config"
  by (simp add: pq_enabled_def pq_transport_enabled_def demo_keys_config_def)

lemma demo_paths:
  "key_path Map.empty = ''./keypair.bin''" "pq_key_path Map.empty = ''./keypair.pq.bin''"
  by (simp_all add: key_path_def pq_key_path_def fail_path_gener_def keypair_path_def dir_from_def path_join_def
      with_extension_def parent_prefix_def file_name_def file_stem_def Let_def)

lemma demo_first_start:
  "\<exists>fs km. start_keys demo_il demo_pq Map.empty demo_keys_config (demo_start [4]) Map.empty = (fs, Ok km)
     \<and> km_keypair km = [4] \<and> km_pq_keys km = Some (new_pq_keys demo_pq (demo_start [4]))"
  by (simp add: start_keys_unfold demo_keys_config_enabled load_keypair_def fs_read_def demo_il_def demo_start_def
      demo_aw_def atomic_write_def fs_write_def fs_rename_def ensure_pq_keys_def has_pq_keys_def load_pq_keys_def
      demo_paths with_extension_def parent_prefix_def file_name_def file_stem_def Let_def)

text \<open>Two starts from an empty directory, the second drawing other random values.\<close>
theorem identity_survives_restarts_witness:
  "\<exists>fs rs km. run_starts demo_il demo_pq Map.empty
        [(demo_keys_config, demo_start [4]), (demo_keys_config, demo_start [5])] Map.empty = (fs, rs)
     \<and> rs ! 0 = Ok km \<and> km_pq_keys km \<noteq> None
     \<and> (case rs ! 1 of Ok km' \<Rightarrow> km_keypair km' = [4] \<and> km_pq_keys km' = km_pq_keys km | Err e \<Rightarrow> False)"
proof -
  let ?starts = "[(demo_keys_config, demo_start [4]), (demo_keys_config, demo_start [5])]"
  obtain fs1 km where first:
      "start_keys demo_il demo_pq Map.empty demo_keys_config (demo_start [4]) Map.empty = (fs1, Ok km)"
      and km: "km_keypair km = [4]" "km_pq_keys km \<noteq> None"
    using demo_first_start by auto
  obtain fs rs where run: "run_starts demo_il demo_pq Map.empty ?starts Map.empty = (fs, rs)"
    by (cases "run_starts demo_il demo_pq Map.empty ?starts Map.empty")
  have ok: "rs ! 0 = Ok km" using run first by (auto split: prod.splits)
  have seeds: "\<forall>(config, env) \<in> set ?starts. length (se_x_seed env) = X25519_LEN" by (simp add: demo_start_def)
  have "case rs ! 1 of Ok km' \<Rightarrow> km_keypair km' = [4] \<and> km_pq_keys km' = km_pq_keys km | Err e \<Rightarrow> False"
    using identity_survives_restarts [OF demo_il_ok seeds run _ _ ok, of 1] km
    by (auto simp: demo_start_def split: result.splits)
  then show ?thesis using run ok km by blast
qed


definition demo_pq_fault :: start_env where
  "demo_pq_fault = (demo_start [5])\<lparr>se_pq_read := Some ''too many open files'', se_x_seed := replicate X25519_LEN 8\<rparr>"


end
