(* ===== verification/NN_Startup.thy ===== *)
theory NN_Startup
  imports NN_Actor NN_Identity
begin

text \<open>
  Starting the network: the probe of public addresses (\<open>src/src/network/addr.rs\<close>), the behaviours the
  swarm is built from (\<open>src/src/network/behaviour.rs\<close>), the swarm (\<open>src/src/network/builder.rs\<close>) and
  the sequence in which \<open>main\<close> uses them.

  The interfaces of the host are an argument, the failure of \<open>get_if_addrs\<close> being \<open>None\<close>. What libp2p
  does with the configurations is outside the model: a behaviour is the configuration it is given, and
  \<open>swarm_lib\<close> says whether the transport can be built and which addresses can be listened on.
\<close>

section \<open>Public addresses\<close>

definition v4_octet :: "nat \<Rightarrow> u32 \<Rightarrow> u8" where
  "v4_octet i v4 = ucast (drop_bit (24 - 8 * i) v4)"

definition v6_octet :: "nat \<Rightarrow> 128 word \<Rightarrow> u8" where
  "v6_octet i v6 = ucast (drop_bit (120 - 8 * i) v6)"

definition v4_loopback :: "u32 \<Rightarrow> bool" where
  "v4_loopback v4 \<longleftrightarrow> v4_octet 0 v4 = 127"

definition v4_private :: "u32 \<Rightarrow> bool" where
  "v4_private v4 \<longleftrightarrow>
     v4_octet 0 v4 = 10
     \<or> v4_octet 0 v4 = 172 \<and> 16 \<le> v4_octet 1 v4 \<and> v4_octet 1 v4 \<le> 31
     \<or> v4_octet 0 v4 = 192 \<and> v4_octet 1 v4 = 168"

definition v4_link_local :: "u32 \<Rightarrow> bool" where
  "v4_link_local v4 \<longleftrightarrow> v4_octet 0 v4 = 169 \<and> v4_octet 1 v4 = 254"

fun public_ip :: "ip_addr \<Rightarrow> bool" where
  "public_ip (V4 v4) \<longleftrightarrow> \<not> v4_loopback v4 \<and> \<not> v4_private v4 \<and> \<not> v4_link_local v4"
| "public_ip (V6 v6) \<longleftrightarrow>
     \<not> (v6 = 1 \<or> v6 = 0 \<or> v6_octet 0 v6 = 0xff)
     \<and> \<not> (v6_octet 0 v6 = 0xfe \<and> and (v6_octet 1 v6) 0xc0 = 0x80)
     \<and> \<not> (v6_octet 0 v6 = 0xfc \<or> v6_octet 0 v6 = 0xfd)"

definition get_public_ips :: "ip_addr list option \<Rightarrow> ip_addr list" where
  "get_public_ips ifaces = (case ifaces of None \<Rightarrow> [] | Some ips \<Rightarrow> filter public_ip ips)"

fun is_ipv4 :: "ip_addr \<Rightarrow> bool" where
  "is_ipv4 (V4 _) = True"
| "is_ipv4 (V6 _) = False"

definition to_multiaddr :: "ip_addr \<Rightarrow> u16 \<Rightarrow> multiaddr" where
  "to_multiaddr ip port = [case ip of V4 v4 \<Rightarrow> Ip4 v4 | V6 v6 \<Rightarrow> Ip6 v6] @ [Tcp port]"

definition clear_stale_public_addresses :: "network_config \<Rightarrow> network_config \<times> bool" where
  "clear_stale_public_addresses network =
     (if nc_ipv4_address network = None \<and> nc_ipv6_address network = None then (network, False)
      else (network\<lparr>nc_ipv4_address := None, nc_ipv6_address := None\<rparr>, True))"

definition first_of :: "'a list \<Rightarrow> 'a option" where
  "first_of xs = (case xs of [] \<Rightarrow> None | x # _ \<Rightarrow> Some x)"

text \<open>The configuration, and whether it was saved.\<close>

definition update_config_with_public_ip :: "ip_addr list option \<Rightarrow> node_config \<Rightarrow> node_config \<times> bool" where
  "update_config_with_public_ip ifaces config =
     (let public_ips = get_public_ips ifaces;
          ipv4_addrs = filter is_ipv4 public_ips;
          ipv6_addrs = filter (\<lambda>ip. \<not> is_ipv4 ip) public_ips;
          config = set_has_public_address (public_ips \<noteq> []) config
      in if ipv4_addrs = [] \<and> ipv6_addrs = []
         then (let (network, cleared) = clear_stale_public_addresses (cfg_network config)
               in (config\<lparr>cfg_network := network\<rparr>, cleared))
         else if nc_ipv4_address (cfg_network config) = first_of ipv4_addrs
                 \<and> nc_ipv6_address (cfg_network config) = first_of ipv6_addrs
         then (config, False)
         else
           (let network = cfg_network config;
                network = (if ipv4_addrs \<noteq> []
                           then network\<lparr>nc_ipv4_enabled := True, nc_ipv4_address := first_of ipv4_addrs\<rparr>
                           else network\<lparr>nc_ipv4_enabled := False, nc_ipv4_address := None\<rparr>);
                network = (if ipv6_addrs \<noteq> []
                           then network\<lparr>nc_ipv6_enabled := True, nc_ipv6_address := first_of ipv6_addrs\<rparr>
                           else network\<lparr>nc_ipv6_enabled := False, nc_ipv6_address := None\<rparr>)
            in (config\<lparr>cfg_network := network\<rparr>, True)))"

section \<open>Behaviours\<close>

record ping_behaviour =
  pb_interval :: nat
  pb_timeout :: nat

record kad_behaviour =
  kb_max_value_bytes :: nat
  kb_max_packet_size :: nat
  kb_record_ttl :: nat
  kb_publication_interval :: nat
  kb_provider_record_ttl :: nat
  kb_provider_publication_interval :: nat
  kb_query_timeout :: nat
  kb_replication_factor :: "nat option"
  kb_server_mode :: bool

record cbor_behaviour =
  cb_protocol :: string
  cb_request_size_maximum :: "u64 option"
  cb_response_size_maximum :: "u64 option"
  cb_request_timeout :: nat

record relay_behaviour =
  rb_max_circuit_bytes :: u64
  rb_max_reservations :: nat
  rb_max_reservations_per_peer :: "nat option"

record net_behaviour =
  nb_ping :: "ping_behaviour option"
  nb_agent :: string
  nb_kademlia :: "kad_behaviour option"
  nb_service_req :: cbor_behaviour
  nb_service_req_pq :: "cbor_behaviour option"
  nb_pq_identity :: "cbor_behaviour option"
  nb_relay_server :: relay_behaviour

definition new_service_req_behaviour :: "u64 \<Rightarrow> u64 \<Rightarrow> cbor_behaviour" where
  "new_service_req_behaviour max_request_bytes max_response_bytes =
     \<lparr>cb_protocol = SERVICE_REQ_PROTOCOL, cb_request_size_maximum = Some max_request_bytes,
      cb_response_size_maximum = Some max_response_bytes, cb_request_timeout = REQUEST_TIMEOUT\<rparr>"

definition saturating_add_u64 :: "u64 \<Rightarrow> u64 \<Rightarrow> u64" where
  "saturating_add_u64 a b = (if unat a + unat b < 2 ^ 64 then a + b else - 1)"

definition relay_circuit_bytes :: "node_config \<Rightarrow> u64" where
  "relay_circuit_bytes config =
     saturating_add_u64 (dispatcher_max_request_bytes config) (dispatcher_max_response_bytes config)"

text \<open>A setting that is \<open>None\<close> is the library's default.\<close>

definition net_behaviour_new :: "node_config \<Rightarrow> net_behaviour" where
  "net_behaviour_new config =
     (let ping = \<lparr>pb_interval = from_secs (unat (ping_interval config)),
                  pb_timeout = from_secs (unat (ping_timeout config))\<rparr>;
          record_ttl = from_secs (unat (kademlia_record_ttl config));
          replication = unat (kademlia_replication_factor config);
          kad = \<lparr>kb_max_value_bytes = DHT_MAX_RECORD_BYTES + 1, kb_max_packet_size = KAD_MAX_PACKET_BYTES,
                 kb_record_ttl = record_ttl, kb_publication_interval = record_ttl div 2,
                 kb_provider_record_ttl = from_secs (48 * 60 * 60),
                 kb_provider_publication_interval = from_secs (60 * 60),
                 kb_query_timeout = from_secs (unat (kademlia_query_timeout config)),
                 kb_replication_factor = (if replication = 0 then None else Some replication),
                 kb_server_mode = True\<rparr>;
          max_request_bytes = dispatcher_max_request_bytes config;
          max_response_bytes = dispatcher_max_response_bytes config;
          pq_active = pq_enabled config;
          is_dual_stack = nc_ipv4_enabled (cfg_network config) \<and> nc_ipv6_enabled (cfg_network config)
      in \<lparr>nb_ping = (if ping_enabled config then Some ping else None),
          nb_agent = AGENT_NAME,
          nb_kademlia = (if kademlia_enabled config then Some kad else None),
          nb_service_req = new_service_req_behaviour max_request_bytes max_response_bytes,
          nb_service_req_pq =
            (if pq_active
             then Some \<lparr>cb_protocol = SERVICE_REQ_PQ_PROTOCOL, cb_request_size_maximum = Some max_request_bytes,
                        cb_response_size_maximum = Some max_response_bytes, cb_request_timeout = REQUEST_TIMEOUT\<rparr>
             else None),
          nb_pq_identity =
            (if pq_active
             then Some \<lparr>cb_protocol = PQ_IDENTITY_PROTOCOL, cb_request_size_maximum = None,
                        cb_response_size_maximum = None, cb_request_timeout = REQUEST_TIMEOUT\<rparr>
             else None),
          nb_relay_server =
            (if is_dual_stack
             then \<lparr>rb_max_circuit_bytes = relay_circuit_bytes config, rb_max_reservations = 16,
                   rb_max_reservations_per_peer = None\<rparr>
             else \<lparr>rb_max_circuit_bytes = relay_circuit_bytes config, rb_max_reservations = 0,
                   rb_max_reservations_per_peer = Some 0\<rparr>)\<rparr>)"

section \<open>The swarm\<close>

record swarm_lib =
  sl_transport :: "string option"
  sl_listen_on :: "multiaddr \<Rightarrow> string option"
  sl_show_addr :: "multiaddr \<Rightarrow> string"

record built_swarm =
  bs_behaviour :: net_behaviour
  bs_idle_timeout :: nat
  bs_listening :: "multiaddr list"
  bs_external :: "multiaddr list"

definition listen_addrs :: "node_config \<Rightarrow> multiaddr list" where
  "listen_addrs config =
     (let network = cfg_network config;
          port = ucast (nc_port network);
          addr = (\<lambda>address unspecified. to_multiaddr (case address of Some ip \<Rightarrow> ip | None \<Rightarrow> unspecified) port @ [Ws ''/''])
      in (if nc_ipv4_enabled network then [addr (nc_ipv4_address network) (V4 0)] else [])
         @ (if nc_ipv6_enabled network then [addr (nc_ipv6_address network) (V6 0)] else []))"

fun listen_all :: "swarm_lib \<Rightarrow> multiaddr list \<Rightarrow> (unit, network_error) result" where
  "listen_all sl [] = Ok ()"
| "listen_all sl (addr # addrs) =
     (case sl_listen_on sl addr of
        Some e \<Rightarrow> Err (NetBuild (''listen_on '' @ sl_show_addr sl addr @ '': '' @ e))
      | None \<Rightarrow> listen_all sl addrs)"

definition build_swarm :: "swarm_lib \<Rightarrow> node_config \<Rightarrow> peer_id \<Rightarrow> (built_swarm, network_error) result" where
  "build_swarm sl config peer_id =
     (case sl_transport sl of
        Some e \<Rightarrow> Err (NetBuild e)
      | None \<Rightarrow>
          rbind (listen_all sl (listen_addrs config)) (\<lambda>_.
          Ok \<lparr>bs_behaviour = net_behaviour_new config, bs_idle_timeout = from_secs 300,
              bs_listening = listen_addrs config, bs_external = dialable_addrs config peer_id\<rparr>))"

text \<open>What the actor sees of it.\<close>

definition swarm_of :: "peer_id \<Rightarrow> built_swarm \<Rightarrow> swarm" where
  "swarm_of peer_id bs =
     \<lparr>sw_kademlia = (nb_kademlia (bs_behaviour bs) \<noteq> None),
      sw_service_req_pq = (nb_service_req_pq (bs_behaviour bs) \<noteq> None),
      sw_pq_identity = (nb_pq_identity (bs_behaviour bs) \<noteq> None),
      sw_local_peer_id = peer_id\<rparr>"

section \<open>The start sequence of the process\<close>

datatype start_error = IdentityFailed identity_error | NetworkFailed network_error

record started_node =
  sn_config :: node_config
  sn_peer_id :: peer_id
  sn_swarm :: built_swarm
  sn_actor :: swarm_actor
  sn_dials :: "multiaddr list"

definition main_start ::
    "identity_lib \<Rightarrow> pq_lib \<Rightarrow> swarm_lib \<Rightarrow> (string \<rightharpoonup> string) \<Rightarrow> ip_addr list option \<Rightarrow> node_config
      \<Rightarrow> start_env \<Rightarrow> files \<Rightarrow> files \<times> (started_node, start_error) result" where
  "main_start il lib sl vars ifaces config env fs =
     (case start_keys il lib vars config env fs of
        (fs, Err e) \<Rightarrow> (fs, Err (IdentityFailed e))
      | (fs, Ok key_manager) \<Rightarrow>
          (let (config, saved) = update_config_with_public_ip ifaces config;
               peer_id = km_peer_id il key_manager;
               keypair = km_keypair key_manager;
               (key_manager, pq_keys) = take_pq_keys key_manager
           in case build_swarm sl config peer_id of
                Err e \<Rightarrow> (fs, Err (NetworkFailed e))
              | Ok swarm \<Rightarrow>
                  (fs, Ok \<lparr>sn_config = config, sn_peer_id = peer_id, sn_swarm = swarm,
                           sn_actor = actor_new config (swarm_of peer_id swarm) keypair pq_keys,
                           sn_dials = bootstrap_nodes config\<rparr>)))"

section \<open>The addresses after the probe\<close>

lemma public_families:
  "filter is_ipv4 ips = [] \<and> filter (\<lambda>ip. \<not> is_ipv4 ip) ips = [] \<longleftrightarrow> ips = []"
  by (cases ips) auto

lemma first_of_mem: "first_of xs = Some x \<Longrightarrow> x \<in> set xs"
  by (simp add: first_of_def split: list.splits)

text \<open>Every address left in the configuration is one the host has now.\<close>

lemma updated_addresses:
  assumes "update_config_with_public_ip ifaces config = (config', saved)"
  shows "nc_ipv4_address (cfg_network config') = first_of (filter is_ipv4 (get_public_ips ifaces))"
    and "nc_ipv6_address (cfg_network config') = first_of (filter (\<lambda>ip. \<not> is_ipv4 ip) (get_public_ips ifaces))"
    and "nc_has_public_address (cfg_network config') \<longleftrightarrow> get_public_ips ifaces \<noteq> []"
    and "nc_port (cfg_network config') = nc_port (cfg_network config)"
    and "cfg_services config' = cfg_services config"
    and "cfg_crypto config' = cfg_crypto config"
  using assms
  by (auto simp: update_config_with_public_ip_def clear_stale_public_addresses_def set_has_public_address_def
      first_of_def Let_def split: if_splits prod.splits)

lemma update_settles:
  assumes "update_config_with_public_ip ifaces config = (config', saved)"
  shows "update_config_with_public_ip ifaces config' = (config', False)"
  using updated_addresses(1-3) [OF assms] public_families [of "get_public_ips ifaces"]
  by (auto simp: update_config_with_public_ip_def clear_stale_public_addresses_def set_has_public_address_def
      first_of_def Let_def split: list.splits)

lemma listen_all_Ok: "listen_all sl addrs = Ok () \<longleftrightarrow> (\<forall>addr \<in> set addrs. sl_listen_on sl addr = None)"
  by (induction addrs) (auto split: option.splits)

lemma build_swarm_Ok:
  assumes "build_swarm sl config peer = Ok bs"
  shows "bs = \<lparr>bs_behaviour = net_behaviour_new config, bs_idle_timeout = from_secs 300,
      bs_listening = listen_addrs config, bs_external = dialable_addrs config peer\<rparr>"
    and "\<forall>addr \<in> set (listen_addrs config). sl_listen_on sl addr = None"
  using assms listen_all_Ok [of sl "listen_addrs config"]
  by (auto simp: build_swarm_def rbind_Ok_iff split: option.splits)

lemma main_start_Ok:
  assumes "main_start il lib sl vars ifaces config env fs = (fs', Ok n)"
  obtains km config' saved where "start_keys il lib vars config env fs = (fs', Ok km)"
    and "update_config_with_public_ip ifaces config = (config', saved)"
    and "build_swarm sl config' (km_peer_id il km) = Ok (sn_swarm n)"
    and "sn_config n = config'" and "sn_peer_id n = km_peer_id il km"
    and "sn_actor n = actor_new config' (swarm_of (km_peer_id il km) (sn_swarm n)) (km_keypair km) (km_pq_keys km)"
  using assms
  by (auto simp: main_start_def take_pq_keys_def Let_def split: prod.splits result.splits)

lemma listen_addrs_live:
  assumes "update_config_with_public_ip ifaces config = (config', saved)" and "addr \<in> set (listen_addrs config')"
  shows "\<exists>ip \<in> {V4 0, V6 0} \<union> set (get_public_ips ifaces).
    addr = to_multiaddr ip (ucast (nc_port (cfg_network config))) @ [Ws ''/'']"
  using assms(2) updated_addresses(1,2,4) [OF assms(1)]
  by (auto simp: listen_addrs_def Let_def split: if_splits option.splits dest!: first_of_mem)

lemma dialable_addrs_multiaddr:
  "dialable_addrs config peer = map (\<lambda>ip. to_multiaddr ip (ucast (nc_port (cfg_network config))) @ [Ws ''/'', P2p peer])
     (List.map_filter id [nc_ipv4_address (cfg_network config), nc_ipv6_address (cfg_network config)])"
  by (simp add: dialable_addrs_def to_multiaddr_def Let_def split: ip_addr.split)

lemma dialable_addrs_live:
  assumes "update_config_with_public_ip ifaces config = (config', saved)" and "addr \<in> set (dialable_addrs config' peer)"
  shows "\<exists>ip \<in> set (get_public_ips ifaces).
    addr = to_multiaddr ip (ucast (nc_port (cfg_network config))) @ [Ws ''/'', P2p peer]"
proof -
  obtain ip where ip: "nc_ipv4_address (cfg_network config') = Some ip \<or> nc_ipv6_address (cfg_network config') = Some ip"
      and addr: "addr = to_multiaddr ip (ucast (nc_port (cfg_network config'))) @ [Ws ''/'', P2p peer]"
    using assms(2)
    by (auto simp: dialable_addrs_multiaddr List.map_filter_def split: if_splits)
  then have "ip \<in> set (get_public_ips ifaces)"
    using updated_addresses(1,2) [OF assms(1)] by (auto dest!: first_of_mem)
  then show ?thesis using addr updated_addresses(4) [OF assms(1)] by auto
qed


definition demo_sl :: swarm_lib where
  "demo_sl = \<lparr>sl_transport = None, sl_listen_on = (\<lambda>_. None), sl_show_addr = (\<lambda>_. '''')\<rparr>"

text \<open>The configuration names 198.51.100.7; the host has 10.0.0.1 and 203.0.113.9.\<close>

definition demo_stale_config :: node_config where
  "demo_stale_config = set_ipv4 True (Some (V4 0xC6336407)) demo_keys_config"

definition demo_ifaces :: "ip_addr list option" where
  "demo_ifaces = Some [V4 0x0A000001, V4 0xCB007109]"

lemma demo_stale_pq: "pq_enabled demo_stale_config"
  using demo_keys_config_enabled
  by (simp add: demo_stale_config_def set_ipv4_def pq_enabled_def pq_transport_enabled_def
      pq_identity_enabled_def pq_required_def)

lemma demo_public_ips: "get_public_ips demo_ifaces = [V4 0xCB007109]"
  by (simp add: get_public_ips_def demo_ifaces_def v4_loopback_def v4_private_def v4_link_local_def v4_octet_def
      drop_bit_eq_div)

lemma demo_update:
  "\<exists>config. update_config_with_public_ip demo_ifaces demo_stale_config = (config, True)
     \<and> listen_addrs config = [[Ip4 0xCB007109, Tcp 5000, Ws ''/'']]"
  by (simp add: update_config_with_public_ip_def demo_public_ips first_of_def listen_addrs_def to_multiaddr_def
      set_has_public_address_def demo_stale_config_def set_ipv4_def demo_keys_config_def node_config_default_def
      network_config_default_def default_port_def Let_def)

lemma demo_start_stale:
  "\<exists>fs km. start_keys demo_il demo_pq Map.empty demo_stale_config (demo_start [4]) Map.empty = (fs, Ok km)
     \<and> km_keypair km = [4]"
proof -
  have "start_keys demo_il demo_pq Map.empty demo_stale_config (demo_start [4]) Map.empty
      = start_keys demo_il demo_pq Map.empty demo_keys_config (demo_start [4]) Map.empty"
    by (simp only: start_keys_unfold demo_stale_pq demo_keys_config_enabled)
  then show ?thesis using demo_first_start by auto
qed

lemma demo_node:
  "\<exists>fs n. main_start demo_il demo_pq demo_sl Map.empty demo_ifaces demo_stale_config (demo_start [4]) Map.empty
       = (fs, Ok n)
     \<and> bs_listening (sn_swarm n) = [[Ip4 0xCB007109, Tcp 5000, Ws ''/'']] \<and> sa_keypair (sn_actor n) = [4]"
proof -
  obtain fs km where keys: "start_keys demo_il demo_pq Map.empty demo_stale_config (demo_start [4]) Map.empty = (fs, Ok km)"
      and km: "km_keypair km = [4]"
    using demo_start_stale by auto
  obtain config where update: "update_config_with_public_ip demo_ifaces demo_stale_config = (config, True)"
      and addrs: "listen_addrs config = [[Ip4 0xCB007109, Tcp 5000, Ws ''/'']]"
    using demo_update by auto
  show ?thesis
    by (simp add: main_start_def keys update build_swarm_def demo_sl_def addrs take_pq_keys_def actor_new_def km Let_def)
qed


text \<open>(C37) The limits of a started node. With a validated configuration, a relay circuit carries one
  request and one response of the largest size, the sum being exact and at most 128 MiB; reservations
  are accepted, sixteen at most, only when both address families are enabled; records are republished
  before they expire, and the largest record fits a packet.\<close>
theorem startup_limits:
  assumes "config_ok config" and "main_start il lib sl vars ifaces config env fs = (fs', Ok n)"
    and "bs_behaviour (sn_swarm n) = nb"
  shows "unat (rb_max_circuit_bytes (nb_relay_server nb))
         = unat (dispatcher_max_request_bytes config) + unat (dispatcher_max_response_bytes config)
     \<and> unat (rb_max_circuit_bytes (nb_relay_server nb)) \<le> 128 * 2 ^ 20
     \<and> (0 < rb_max_reservations (nb_relay_server nb) \<longleftrightarrow>
          nc_ipv4_enabled (cfg_network (sn_config n)) \<and> nc_ipv6_enabled (cfg_network (sn_config n)))
     \<and> rb_max_reservations (nb_relay_server nb) \<le> 16
     \<and> (case nb_kademlia nb of
          None \<Rightarrow> \<not> kademlia_enabled config
        | Some kad \<Rightarrow> kb_publication_interval kad < kb_record_ttl kad
            \<and> kb_max_value_bytes kad < kb_max_packet_size kad \<and> kb_max_value_bytes kad > DHT_MAX_RECORD_BYTES)"
proof -
  obtain km config' saved where update: "update_config_with_public_ip ifaces config = (config', saved)"
      and built: "build_swarm sl config' (km_peer_id il km) = Ok (sn_swarm n)" and n: "sn_config n = config'"
    by (rule main_start_Ok [OF assms(2)])
  have services: "cfg_services config' = cfg_services config" by (rule updated_addresses(5) [OF update])
  have nb: "nb = net_behaviour_new config'" using assms(3) build_swarm_Ok(1) [OF built] by auto
  have req: "unat (dispatcher_max_request_bytes config) \<le> 64 * 2 ^ 20"
    and resp: "unat (dispatcher_max_response_bytes config) \<le> 64 * 2 ^ 20"
    using assms(1) by (simp_all add: config_ok_def dispatcher_max_request_bytes_def dispatcher_max_response_bytes_def Let_def)
  have bytes: "relay_circuit_bytes config' = relay_circuit_bytes config"
    by (simp add: relay_circuit_bytes_def dispatcher_max_request_bytes_def dispatcher_max_response_bytes_def services)
  have circuit: "unat (relay_circuit_bytes config)
      = unat (dispatcher_max_request_bytes config) + unat (dispatcher_max_response_bytes config)"
    using req resp by (simp add: relay_circuit_bytes_def saturating_add_u64_def unat_word_ariths)
  have ttl: "kademlia_enabled config \<Longrightarrow> 0 < unat (kademlia_record_ttl config')"
    using assms(1) by (auto simp: config_ok_def kademlia_enabled_def kademlia_record_ttl_def services unat_gt_0 Let_def)
  have kad: "kademlia_enabled config' = kademlia_enabled config" by (simp add: kademlia_enabled_def services)
  show ?thesis using req resp circuit ttl
    by (auto simp: nb net_behaviour_new_def n bytes kad Let_def from_secs_def KAD_MAX_PACKET_BYTES_def DHT_MAX_RECORD_BYTES_def)
qed

lemma demo_stale_ok: "config_ok demo_stale_config"
  by (simp add: config_ok_def demo_stale_config_def set_ipv4_def demo_keys_config_def config_default_defs
      OLD_COMPAT_RECORD_BYTES_def OLD_KAD_PACKET_BYTES_def)

text \<open>The same start: the default limits give a circuit of 32 MiB.\<close>
theorem startup_limits_witness:
  "\<exists>fs n. main_start demo_il demo_pq demo_sl Map.empty demo_ifaces demo_stale_config (demo_start [4]) Map.empty
       = (fs, Ok n)
     \<and> unat (rb_max_circuit_bytes (nb_relay_server (bs_behaviour (sn_swarm n)))) = 32 * 2 ^ 20"
proof -
  obtain fs n where start: "main_start demo_il demo_pq demo_sl Map.empty demo_ifaces demo_stale_config (demo_start [4]) Map.empty
       = (fs, Ok n)"
    using demo_node by auto
  have "unat (dispatcher_max_request_bytes demo_stale_config) = 16 * 2 ^ 20"
    and "unat (dispatcher_max_response_bytes demo_stale_config) = 16 * 2 ^ 20"
    by (simp_all add: dispatcher_max_request_bytes_def dispatcher_max_response_bytes_def demo_stale_config_def set_ipv4_def
        demo_keys_config_def node_config_default_def services_config_default_def dispatcher_config_default_def
        default_max_message_bytes_def push_bit_eq_mult)
  then show ?thesis using startup_limits [OF demo_stale_ok start refl] start by simp
qed

text \<open>The probe takes shared address space for public: a host whose only address is 100.64.0.1, behind
  a carrier's translation, is configured as reachable.\<close>

lemma shared_address_space_public:
  "get_public_ips (Some [V4 0x64400001]) = [V4 0x64400001]"
  "has_public_address (fst (update_config_with_public_ip (Some [V4 0x64400001]) config))"
proof -
  show ips: "get_public_ips (Some [V4 0x64400001]) = [V4 0x64400001]"
    by (simp add: get_public_ips_def v4_loopback_def v4_private_def v4_link_local_def v4_octet_def drop_bit_eq_div)
  show "has_public_address (fst (update_config_with_public_ip (Some [V4 0x64400001]) config))"
    using updated_addresses(3) [OF surjective_pairing, of "Some [V4 0x64400001]" config] ips
    by (simp add: has_public_address_def)
qed

end
