(* ===== verification/NN_Log.thy ===== *)
theory NN_Log
  imports NN_Files
begin

text \<open>
  The log: \<open>src/src/log.rs\<close>, its three output modes, the rendering of an entry, and the rotation of
  the log file.

  The state is the files, the time of the last size check, the \<open>ROLLING\<close> flag and where the rotation
  thread is. Entries are emitted by any thread at any time; the rotation thread interleaves with them
  between the rename of the log, which holds \<open>LOG_MUTEX\<close>, and the archiving of the renamed file. Texts
  are their UTF-8 bytes. Gzip, the colours of the terminal and the clock are arguments.
\<close>

section \<open>Paths\<close>

definition log_filepath :: "(string \<rightharpoonup> string) \<Rightarrow> string" where
  "log_filepath vars = fail_path_gener vars FtLog ''log''"

definition logtmp_filepath :: "(string \<rightharpoonup> string) \<Rightarrow> string" where
  "logtmp_filepath vars = log_filepath vars @ ''.tmp''"

definition log_dir :: "(string \<rightharpoonup> string) \<Rightarrow> string" where
  "log_dir vars =
     (let dir = parent_prefix (log_filepath vars);
          stripped = rev (dropWhile (\<lambda>c. c = CHR ''/'') (rev dir));
          parent = (if stripped = [] \<and> dir \<noteq> [] then ''/'' else stripped)
      in if parent = [] then ''.'' else parent)"

section \<open>Modes, levels and entries\<close>

definition MAX_SIZE_BYTES :: nat where
  "MAX_SIZE_BYTES = 10 * 1024 * 1024"

definition ROLL_CHECK_INTERVAL :: duration where
  "ROLL_CHECK_INTERVAL = from_secs 5"

datatype log_mode = Journald | Nssm | FileMode

definition ascii_lower :: "char \<Rightarrow> char" where
  "ascii_lower c = (if CHR ''A'' \<le> c \<and> c \<le> CHR ''Z'' then char_of (of_char c + (32::nat)) else c)"

definition eq_ignore_ascii_case :: "string \<Rightarrow> string \<Rightarrow> bool" where
  "eq_ignore_ascii_case a b \<longleftrightarrow> map ascii_lower a = map ascii_lower b"

definition log_mode_from_env :: "(string \<rightharpoonup> string) \<Rightarrow> log_mode" where
  "log_mode_from_env vars =
     (case vars ''NEXUSNET_LOG_MODE'' of
        Some v \<Rightarrow> if eq_ignore_ascii_case v ''journald'' then Journald
                  else if eq_ignore_ascii_case v ''nssm'' then Nssm
                  else FileMode
      | None \<Rightarrow> FileMode)"

datatype log_level = LvImportant | LvDebug | LvPreset | LvWarning | LvError | LvCritical

fun level_as_str :: "log_level \<Rightarrow> string" where
  "level_as_str LvImportant = ''[IMPORTANT]''"
| "level_as_str LvDebug = ''[+]''"
| "level_as_str LvPreset = ''[-]''"
| "level_as_str LvWarning = ''[*]''"
| "level_as_str LvError = ''[!]''"
| "level_as_str LvCritical = ''[CRITICAL]''"

fun syslog_priority :: "log_level \<Rightarrow> nat" where
  "syslog_priority LvCritical = 2"
| "syslog_priority LvError = 3"
| "syslog_priority LvWarning = 4"
| "syslog_priority LvImportant = 5"
| "syslog_priority LvPreset = 6"
| "syslog_priority LvDebug = 7"

record log_struct =
  lx_level :: log_level
  lx_topic :: string
  lx_content :: string

definition NEWLINE :: string where
  "NEWLINE = [CHR 0x0A]"

definition format_entry :: "string \<Rightarrow> string option \<Rightarrow> string \<Rightarrow> string \<Rightarrow> string" where
  "format_entry tag time topic content =
     (let indent = NEWLINE @ ''    '' in
      case (time, content = []) of
        (Some t, True) \<Rightarrow> tag @ '' '' @ t @ indent @ topic
      | (Some t, False) \<Rightarrow> tag @ '' '' @ t @ indent @ topic @ indent @ content
      | (None, True) \<Rightarrow> tag @ '' '' @ topic
      | (None, False) \<Rightarrow> tag @ '' '' @ topic @ indent @ content)"

text \<open>The length of the white space character at the head of a text, zero if there is none: the ASCII
  ones, then U+0085, U+00A0, U+1680, U+2000 to U+200A, U+2028, U+2029, U+202F, U+205F and U+3000.\<close>

definition whitespace_len :: "string \<Rightarrow> nat" where
  "whitespace_len s =
     (case as_bytes s of
        [] \<Rightarrow> 0
      | b # bs \<Rightarrow>
          if 9 \<le> b \<and> b \<le> 13 \<or> b = 32 then 1
          else if b = 0xC2 \<and> take 1 bs \<in> {[0x85], [0xA0]} then 2
          else if b = 0xE1 \<and> take 2 bs = [0x9A, 0x80] then 3
          else if b = 0xE2 \<and> (case bs of
                 c # d # _ \<Rightarrow> c = 0x80 \<and> (0x80 \<le> d \<and> d \<le> 0x8A \<or> d = 0xA8 \<or> d = 0xA9 \<or> d = 0xAF)
                              \<or> c = 0x81 \<and> d = 0x9F
               | _ \<Rightarrow> False) then 3
          else if b = 0xE3 \<and> take 2 bs = [0x80, 0x80] then 3
          else 0)"

text \<open>\<open>str::split_whitespace\<close>: \<open>word\<close> is the word being read.\<close>

function split_whitespace :: "string \<Rightarrow> string \<Rightarrow> string list" where
  "split_whitespace word [] = (if word = [] then [] else [word])"
| "split_whitespace word (c # cs) =
     (if whitespace_len (c # cs) = 0 then split_whitespace (word @ [c]) cs
      else (if word = [] then [] else [word]) @ split_whitespace [] (drop (whitespace_len (c # cs)) (c # cs)))"
  by pat_completeness auto
termination
  by (relation "measure (\<lambda>(_, s). length s)") (auto simp: drop_Cons')

fun join_with :: "string \<Rightarrow> string list \<Rightarrow> string" where
  "join_with sep [] = []"
| "join_with sep [w] = w"
| "join_with sep (w # ws) = w @ sep @ join_with sep ws"

definition oneline :: "string \<Rightarrow> string" where
  "oneline s = join_with '' '' (split_whitespace [] s)"

definition render_journald :: "log_struct \<Rightarrow> string" where
  "render_journald info =
     (let content = oneline (lx_content info);
          body = (if content = [] then level_as_str (lx_level info) @ '' '' @ lx_topic info
                  else level_as_str (lx_level info) @ '' '' @ lx_topic info @ '': '' @ content)
      in ''<'' @ dec (syslog_priority (lx_level info)) @ ''>'' @ body)"

definition render_nssm :: "string \<Rightarrow> log_struct \<Rightarrow> string" where
  "render_nssm time info =
     (let content = oneline (lx_content info) in
      if content = [] then time @ '' '' @ level_as_str (lx_level info) @ '' '' @ lx_topic info
      else time @ '' '' @ level_as_str (lx_level info) @ '' '' @ lx_topic info @ '': '' @ content)"

text \<open>The terminal of the process: \<open>NO_COLOR\<close>, whether it is one, and the coloured tag of a level.\<close>

record terminal =
  tm_no_color :: bool
  tm_is_terminal :: bool
  tm_color :: "log_level \<Rightarrow> string"

definition use_color :: "terminal \<Rightarrow> bool" where
  "use_color tm \<longleftrightarrow> (if tm_no_color tm then False else tm_is_terminal tm)"

definition render_stream :: "terminal \<Rightarrow> log_struct \<Rightarrow> string option \<Rightarrow> string" where
  "render_stream tm info time =
     (if use_color tm then format_entry (tm_color tm (lx_level info)) time (lx_topic info) (lx_content info)
      else format_entry (level_as_str (lx_level info)) time (lx_topic info) (lx_content info))"

section \<open>State\<close>

datatype roll_phase = NoRoll | RollSpawned | RollRenamed string

record log_state =
  lg_files :: files
  lg_last_check :: "instant option"
  lg_rolling :: bool
  lg_thread :: roll_phase

text \<open>What a step shows: lines on the streams, bytes added to the log file, a complete archive.\<close>

datatype log_effect = Stdout string | Stderr string | Appended bytes | Archived string

record log_setup =
  su_vars :: "string \<rightharpoonup> string"
  su_terminal :: terminal
  su_gzip :: "bytes \<Rightarrow> bytes"
  su_show :: "fs_error \<Rightarrow> string"

definition setup_mode :: "log_setup \<Rightarrow> log_mode" where
  "setup_mode su = log_mode_from_env (su_vars su)"

section \<open>Writing an entry\<close>

definition MSG_CANNOT_LOG :: string where
  "MSG_CANNOT_LOG = from_bytes [0xE6, 0x97, 0xA0, 0xE6, 0xB3, 0x95, 0xE5, 0xBD, 0x95, 0xE5, 0x85, 0xA5, 0xE6,
     0x97, 0xA5, 0xE5, 0xBF, 0x97]"

definition MSG_CANNOT_APPEND :: string where
  "MSG_CANNOT_APPEND = from_bytes [0x6C, 0x6F, 0x67, 0xE6, 0x96, 0x87, 0xE4, 0xBB, 0xB6, 0xE6, 0x97, 0xA0, 0xE6,
     0xB3, 0x95, 0xE8, 0xA2, 0xAB, 0xE8, 0xBF, 0xBD, 0xE5, 0x8A, 0xA0, 0xE5, 0x86, 0x99, 0xE5,
     0x85, 0xA5]"

definition MSG_REPAIR_TMP :: string where
  "MSG_REPAIR_TMP = from_bytes [0xE4, 0xBF, 0xAE, 0xE5, 0xA4, 0x8D, 0xE9, 0x94, 0x99, 0xE8, 0xAF, 0xAF, 0x74,
     0x6D, 0x70, 0xE6, 0x96, 0x87, 0xE4, 0xBB, 0xB6]"

definition MSG_CANNOT_RENAME :: string where
  "MSG_CANNOT_RENAME = from_bytes [0xE6, 0x97, 0xA0, 0xE6, 0xB3, 0x95, 0xE9, 0x87, 0x8D, 0xE5, 0x91, 0xBD, 0xE5,
     0x90, 0x8D, 0x6C, 0x6F, 0x67, 0xE6, 0x96, 0x87, 0xE4, 0xBB, 0xB6]"

definition MSG_CANNOT_READ_TMP :: string where
  "MSG_CANNOT_READ_TMP = from_bytes [0xE6, 0x97, 0xA0, 0xE6, 0xB3, 0x95, 0xE8, 0xAF, 0xBB, 0xE5, 0x8F, 0x96, 0x6C,
     0x6F, 0x67, 0x2E, 0x74, 0x6D, 0x70, 0xE6, 0x96, 0x87, 0xE4, 0xBB, 0xB6]"

definition MSG_CANNOT_COMPRESS :: string where
  "MSG_CANNOT_COMPRESS = from_bytes [0xE6, 0x97, 0xA0, 0xE6, 0xB3, 0x95, 0xE5, 0x8E, 0x8B, 0xE7, 0xBC, 0xA9, 0x6C,
     0x6F, 0x67, 0x2E, 0x74, 0x6D, 0x70, 0xE6, 0x95, 0xB0, 0xE6, 0x8D, 0xAE]"

definition MSG_CANNOT_REMOVE_TMP :: string where
  "MSG_CANNOT_REMOVE_TMP = from_bytes [0xE6, 0x97, 0xA0, 0xE6, 0xB3, 0x95, 0xE5, 0x88, 0xA0, 0xE9, 0x99, 0xA4, 0x6C,
     0x6F, 0x67, 0x2E, 0x74, 0x6D, 0x70, 0xE6, 0x96, 0x87, 0xE4, 0xBB, 0xB6]"

definition MSG_CANNOT_CREATE :: string where
  "MSG_CANNOT_CREATE = from_bytes [0xE6, 0x97, 0xA0, 0xE6, 0xB3, 0x95, 0xE5, 0x88, 0x9B, 0xE5, 0xBB, 0xBA, 0xE6,
     0x97, 0xA5, 0xE5, 0xBF, 0x97, 0xE8, 0xBD, 0xAE, 0xE8, 0xBD, 0xAC, 0xE6, 0x96, 0x87, 0xE4,
     0xBB, 0xB6]"

definition write_stream :: "log_level \<Rightarrow> string \<Rightarrow> log_effect" where
  "write_stream level s = (if level \<in> {LvError, LvCritical, LvWarning} then Stderr (s @ NEWLINE) else Stdout (s @ NEWLINE))"

definition log_onlycli :: "log_setup \<Rightarrow> string \<Rightarrow> log_struct \<Rightarrow> log_effect" where
  "log_onlycli su time info =
     (case setup_mode su of
        Journald \<Rightarrow> write_stream (lx_level info) (render_journald info)
      | Nssm \<Rightarrow> write_stream (lx_level info) (render_nssm time info)
      | FileMode \<Rightarrow> write_stream (lx_level info) (render_stream (su_terminal su) info (Some time)))"

definition append_file ::
    "log_setup \<Rightarrow> string \<Rightarrow> write_fault option \<Rightarrow> string \<Rightarrow> log_state \<Rightarrow> log_state \<times> log_effect list" where
  "append_file su time fault s st =
     (let err = \<lparr>lx_level = LvError, lx_topic = MSG_CANNOT_LOG, lx_content = MSG_CANNOT_APPEND\<rparr>;
          data = as_bytes (s @ NEWLINE);
          (fs, r) = fs_append fault (log_filepath (su_vars su)) data (lg_files st);
          added = (case fault of None \<Rightarrow> data | Some (OpenFails _) \<Rightarrow> [] | Some (WriteStops n _) \<Rightarrow> take n data)
      in (st\<lparr>lg_files := fs\<rparr>,
          Appended added # (case r of Ok _ \<Rightarrow> [] | Err _ \<Rightarrow> [log_onlycli su time err])))"

definition log_entry :: "log_setup \<Rightarrow> string \<Rightarrow> write_fault option \<Rightarrow> log_struct \<Rightarrow> log_state \<Rightarrow> log_state \<times> log_effect list" where
  "log_entry su time fault info st =
     (case setup_mode su of
        Journald \<Rightarrow> (st, [write_stream (lx_level info) (render_journald info)])
      | Nssm \<Rightarrow> (st, [write_stream (lx_level info) (render_nssm time info)])
      | FileMode \<Rightarrow>
          (let shown = write_stream (lx_level info) (render_stream (su_terminal su) info (Some time));
               file_text = format_entry (level_as_str (lx_level info)) (Some time) (lx_topic info) (lx_content info);
               (st, effs) = append_file su time fault file_text st
           in (st, shown # effs)))"

section \<open>Rotation\<close>

definition metadata_len :: "string option \<Rightarrow> string \<Rightarrow> files \<Rightarrow> (nat, fs_error) result" where
  "metadata_len fault path fs = map_ok length (fs_read fault path fs)"

definition check_and_roll :: "log_setup \<Rightarrow> string option \<Rightarrow> log_state \<Rightarrow> log_state" where
  "check_and_roll su stat st =
     (case metadata_len stat (log_filepath (su_vars su)) (lg_files st) of
        Err _ \<Rightarrow> st\<lparr>lg_rolling := False\<rparr>
      | Ok sz \<Rightarrow> if sz \<le> MAX_SIZE_BYTES then st\<lparr>lg_rolling := False\<rparr> else st\<lparr>lg_thread := RollSpawned\<rparr>)"

definition maybe_check_and_roll :: "log_setup \<Rightarrow> instant \<Rightarrow> string option \<Rightarrow> log_state \<Rightarrow> log_state" where
  "maybe_check_and_roll su now stat st =
     (if (case lg_last_check st of None \<Rightarrow> False | Some prev \<Rightarrow> now - prev < ROLL_CHECK_INTERVAL) then st
      else
        let st = st\<lparr>lg_last_check := Some now\<rparr> in
        if lg_rolling st then st else check_and_roll su stat (st\<lparr>lg_rolling := True\<rparr>))"

text \<open>The entry point of the module, and the faults and clock readings of one call.\<close>

record emit_env =
  ee_now :: instant
  ee_time :: string
  ee_stat :: "string option"
  ee_append :: "write_fault option"

definition emit :: "log_setup \<Rightarrow> emit_env \<Rightarrow> log_struct \<Rightarrow> log_state \<Rightarrow> log_state \<times> log_effect list" where
  "emit su env info st =
     (let st = (if setup_mode su = FileMode then maybe_check_and_roll su (ee_now env) (ee_stat env) st else st)
      in log_entry su (ee_time env) (ee_append env) info st)"

record archive_env =
  ae_read :: "string option"
  ae_write :: "write_fault option"
  ae_remove :: "fs_error option"
  ae_time :: string

definition error_entry :: "log_setup \<Rightarrow> string \<Rightarrow> string \<Rightarrow> string \<Rightarrow> log_effect" where
  "error_entry su time topic content =
     log_onlycli su time \<lparr>lx_level = LvError, lx_topic = topic, lx_content = content\<rparr>"

definition archive_and_cleanup ::
    "log_setup \<Rightarrow> archive_env \<Rightarrow> string \<Rightarrow> string \<Rightarrow> files \<Rightarrow> files \<times> log_effect list" where
  "archive_and_cleanup su env tmp_file output_file_name fs =
     (let entry = (\<lambda>topic e. error_entry su (ae_time env) topic (su_show su e)) in
      case fs_read (ae_read env) tmp_file fs of
        Err e \<Rightarrow> (fs, [entry MSG_CANNOT_READ_TMP e])
      | Ok buffer \<Rightarrow>
          (case fs_write (ae_write env) output_file_name (su_gzip su buffer) fs of
             (fs, Err e) \<Rightarrow>
               (fs, [entry (case ae_write env of Some (WriteStops _ _) \<Rightarrow> MSG_CANNOT_COMPRESS | _ \<Rightarrow> MSG_CANNOT_CREATE) e])
           | (fs, Ok _) \<Rightarrow>
               (case fs_remove (ae_remove env) tmp_file fs of
                  (fs, Err e) \<Rightarrow> (fs, [Archived output_file_name, entry MSG_CANNOT_REMOVE_TMP e])
                | (fs, Ok _) \<Rightarrow> (fs, [Archived output_file_name]))))"

text \<open>The rotation thread. \<open>re_created\<close> and \<open>re_tmp_created\<close> are the formatted creation times of
  the log and of the temporary file, where the file system has them.\<close>

record roll_env =
  re_stat :: "string option"
  re_rename :: "fs_error option"
  re_rename_again :: "fs_error option"
  re_tmp_stat :: "string option"
  re_repair :: archive_env
  re_created :: "string option"
  re_tmp_created :: "string option"
  re_current :: string
  re_nanos :: nat
  re_time :: string

definition creation_stamp :: "string option \<Rightarrow> string" where
  "creation_stamp created = (case created of Some t \<Rightarrow> t | None \<Rightarrow> ''XXXX_XXXX'')"

definition output_filepath :: "log_setup \<Rightarrow> roll_env \<Rightarrow> string" where
  "output_filepath su env =
     log_dir (su_vars su) @ ''/'' @ creation_stamp (re_created env) @ ''-'' @ re_current env
       @ ''-'' @ dec (re_nanos env) @ ''.gz''"

definition repair_filepath :: "log_setup \<Rightarrow> roll_env \<Rightarrow> string" where
  "repair_filepath su env =
     log_dir (su_vars su) @ ''/REPAIR-'' @ creation_stamp (re_tmp_created env) @ ''-'' @ dec (re_nanos env) @ ''.gz''"

definition repair_tmp_file :: "log_setup \<Rightarrow> roll_env \<Rightarrow> files \<Rightarrow> files \<times> log_effect list" where
  "repair_tmp_file su env fs =
     (case metadata_len (re_tmp_stat env) (logtmp_filepath (su_vars su)) fs of
        Err _ \<Rightarrow> (fs, [])
      | Ok _ \<Rightarrow> archive_and_cleanup su (re_repair env) (logtmp_filepath (su_vars su)) (repair_filepath su env) fs)"

definition roll_ends :: "log_state \<Rightarrow> log_state" where
  "roll_ends st = st\<lparr>lg_rolling := False, lg_thread := NoRoll\<rparr>"

definition perform_roll :: "log_setup \<Rightarrow> roll_env \<Rightarrow> log_state \<Rightarrow> log_state \<times> log_effect list" where
  "perform_roll su env st =
     (let log_path = log_filepath (su_vars su);
          tmp_path = logtmp_filepath (su_vars su);
          critical = (\<lambda>e. log_onlycli su (re_time env)
            \<lparr>lx_level = LvCritical, lx_topic = MSG_CANNOT_RENAME, lx_content = su_show su e\<rparr>);
          warning = log_onlycli su (re_time env) \<lparr>lx_level = LvWarning, lx_topic = MSG_REPAIR_TMP, lx_content = []\<rparr>;
          renamed = (\<lambda>fs. st\<lparr>lg_files := fs, lg_thread := RollRenamed (output_filepath su env)\<rparr>)
      in case fs_rename (re_rename env) log_path tmp_path (lg_files st) of
           (fs, Ok _) \<Rightarrow> (renamed fs, [])
         | (fs, Err FsAlreadyExists) \<Rightarrow>
             (let (fs, effs) = repair_tmp_file su env fs in
              case fs_rename (re_rename_again env) log_path tmp_path fs of
                (fs, Err e) \<Rightarrow> (roll_ends (st\<lparr>lg_files := fs\<rparr>), warning # effs @ [critical e])
              | (fs, Ok _) \<Rightarrow> (renamed fs, warning # effs))
         | (fs, Err FsNotFound) \<Rightarrow> (roll_ends st, [])
         | (fs, Err e) \<Rightarrow> (roll_ends st, [critical e]))"

definition roll_thread :: "log_setup \<Rightarrow> roll_env \<Rightarrow> log_state \<Rightarrow> log_state \<times> log_effect list" where
  "roll_thread su env st =
     (case metadata_len (re_stat env) (log_filepath (su_vars su)) (lg_files st) of
        Err _ \<Rightarrow> (roll_ends st, [])
      | Ok _ \<Rightarrow> perform_roll su env st)"

text \<open>The steps of the module: an entry is emitted, the rotation thread renames, it archives.\<close>

datatype log_event = Emit emit_env log_struct | ThreadRename roll_env | ThreadArchive archive_env

fun log_step :: "log_setup \<Rightarrow> log_event \<Rightarrow> log_state \<Rightarrow> log_state \<times> log_effect list" where
  "log_step su (Emit env info) st = emit su env info st"
| "log_step su (ThreadRename env) st =
     (case lg_thread st of RollSpawned \<Rightarrow> roll_thread su env st | _ \<Rightarrow> (st, []))"
| "log_step su (ThreadArchive env) st =
     (case lg_thread st of
        RollRenamed out \<Rightarrow>
          (case archive_and_cleanup su env (logtmp_filepath (su_vars su)) out (lg_files st) of
             (fs, effs) \<Rightarrow> (roll_ends (st\<lparr>lg_files := fs\<rparr>), effs))
      | _ \<Rightarrow> (st, []))"

text \<open>A run keeps the effects it has shown.\<close>

fun run_log :: "log_setup \<Rightarrow> log_event \<Rightarrow> log_state \<times> log_effect list \<Rightarrow> log_state \<times> log_effect list" where
  "run_log su e (st, effs) = (case log_step su e st of (st', effs') \<Rightarrow> (st', effs @ effs'))"

definition log_start :: "files \<Rightarrow> log_state" where
  "log_start fs = \<lparr>lg_files = fs, lg_last_check = None, lg_rolling = False, lg_thread = NoRoll\<rparr>"

section \<open>Rendering on one line\<close>

lemma whitespace_len_newline: "whitespace_len (NEWLINE @ s) = 1"
  by (simp add: whitespace_len_def NEWLINE_def as_bytes_def)

lemma split_whitespace_no_newline:
  assumes "CHR 0x0A \<notin> set word" and "w \<in> set (split_whitespace word s)"
  shows "CHR 0x0A \<notin> set w"
  using assms
proof (induction word s rule: split_whitespace.induct)
  case (2 word c cs)
  show ?case
  proof (cases "whitespace_len (c # cs) = 0")
    case True
    then have "c \<noteq> CHR 0x0A" using whitespace_len_newline [of cs] by (auto simp: NEWLINE_def)
    then show ?thesis using 2 True by auto
  next
    case False
    then show ?thesis using 2 by (auto split: if_splits)
  qed
qed (auto split: if_splits)

lemma join_with_set: "set (join_with sep ws) \<subseteq> set sep \<union> \<Union> (set ` set ws)"
  by (induction sep ws rule: join_with.induct) auto

lemma oneline_no_newline: "CHR 0x0A \<notin> set (oneline s)"
proof -
  have "CHR 0x0A \<notin> set w" if "w \<in> set (split_whitespace [] s)" for w
    using split_whitespace_no_newline [of "[]" w s] that by simp
  moreover have "CHR 0x0A \<notin> set '' ''" by code_simp
  ultimately show ?thesis using join_with_set [of "'' ''" "split_whitespace [] s"] unfolding oneline_def by blast
qed

section \<open>What is in the files\<close>

definition file_bytes :: "files \<Rightarrow> string \<Rightarrow> bytes" where
  "file_bytes fs path = (case fs path of None \<Rightarrow> [] | Some d \<Rightarrow> d)"

lemma file_bytes_upd [simp]:
  "file_bytes (fs(p \<mapsto> d)) q = (if q = p then d else file_bytes fs q)"
  "file_bytes (fs(p := None)) q = (if q = p then [] else file_bytes fs q)"
  by (simp_all add: file_bytes_def)

fun written :: "log_effect list \<Rightarrow> bytes" where
  "written [] = []"
| "written (Appended d # effs) = d @ written effs"
| "written (_ # effs) = written effs"

fun archived :: "log_effect list \<Rightarrow> string list" where
  "archived [] = []"
| "archived (Archived name # effs) = name # archived effs"
| "archived (_ # effs) = archived effs"

lemma written_append [simp]: "written (a @ b) = written a @ written b"
  by (induction a rule: written.induct) simp_all

lemma archived_append [simp]: "archived (a @ b) = archived a @ archived b"
  by (induction a rule: archived.induct) simp_all

lemma stream_effects [simp]:
  "written (log_onlycli su t info # effs) = written effs" "archived (log_onlycli su t info # effs) = archived effs"
  "written (error_entry su t a b # effs) = written effs" "archived (error_entry su t a b # effs) = archived effs"
  "written (write_stream lv s # effs) = written effs" "archived (write_stream lv s # effs) = archived effs"
  by (simp_all add: log_onlycli_def error_entry_def write_stream_def split: log_mode.split)

text \<open>Emitting an entry adds to the log file what it says it added, and touches no other file.\<close>

lemma append_file_effects:
  assumes "append_file su time fault s st = (st', effs)"
  shows "p \<noteq> log_filepath (su_vars su) \<Longrightarrow> lg_files st' p = lg_files st p"
    and "file_bytes (lg_files st') (log_filepath (su_vars su))
       = file_bytes (lg_files st) (log_filepath (su_vars su)) @ written effs"
    and "archived effs = []" and "lg_rolling st' = lg_rolling st" and "lg_thread st' = lg_thread st"
  using assms
  by (auto simp: append_file_def fs_append_def file_bytes_def Let_def split: option.splits write_fault.splits)

lemma log_entry_effects:
  assumes "log_entry su time fault info st = (st', effs)"
  shows "p \<noteq> log_filepath (su_vars su) \<Longrightarrow> lg_files st' p = lg_files st p"
    and "file_bytes (lg_files st') (log_filepath (su_vars su))
       = file_bytes (lg_files st) (log_filepath (su_vars su)) @ written effs"
    and "archived effs = []" and "lg_rolling st' = lg_rolling st" and "lg_thread st' = lg_thread st"
  using assms append_file_effects [of su time fault _ st]
  by (auto simp: log_entry_def Let_def split: log_mode.splits prod.splits)

lemma maybe_check_and_roll_effects:
  "lg_files (maybe_check_and_roll su now stat st) = lg_files st"
  "lg_rolling st \<longleftrightarrow> lg_thread st \<noteq> NoRoll \<Longrightarrow>
     lg_rolling (maybe_check_and_roll su now stat st) \<longleftrightarrow> lg_thread (maybe_check_and_roll su now stat st) \<noteq> NoRoll"
  "lg_rolling st \<longleftrightarrow> lg_thread st \<noteq> NoRoll \<Longrightarrow>
     lg_thread (maybe_check_and_roll su now stat st) = lg_thread st
     \<or> lg_thread st = NoRoll \<and> lg_thread (maybe_check_and_roll su now stat st) = RollSpawned"
  by (auto simp: maybe_check_and_roll_def check_and_roll_def Let_def split: result.split option.split)

section \<open>Nothing is lost\<close>

lemma log_paths_apart:
  "logtmp_filepath vars \<noteq> log_filepath vars"
  "output_filepath su env \<noteq> log_filepath (su_vars su)" "output_filepath su env \<noteq> logtmp_filepath (su_vars su)"
proof -
  obtain dir where dir: "log_filepath v = dir v @ ''log''" for v
    using fail_path_split [of _ FtLog "''log''"] unfolding log_filepath_def by metis
  show "logtmp_filepath vars \<noteq> log_filepath vars" by (simp add: logtmp_filepath_def)
  have "last (output_filepath su env) = CHR ''z''" by (simp add: output_filepath_def)
  moreover have "last (log_filepath v) = CHR ''g''" for v by (simp add: dir)
  moreover have "last (logtmp_filepath v) = CHR ''p''" for v by (simp add: logtmp_filepath_def)
  ultimately show "output_filepath su env \<noteq> log_filepath (su_vars su)"
    and "output_filepath su env \<noteq> logtmp_filepath (su_vars su)" by auto
qed

text \<open>What the theorem asks of the events: the archiving works, and an archive gets a name that no
  earlier one of the run has, as names that end in the current nanoseconds do.\<close>

fun archiving_works :: "log_setup \<Rightarrow> log_event \<Rightarrow> log_state \<times> log_effect list \<Rightarrow> bool" where
  "archiving_works su (Emit env info) r = True"
| "archiving_works su (ThreadRename env) (st, effs) = (output_filepath su env \<notin> set (archived effs))"
| "archiving_works su (ThreadArchive env) r = (ae_read env = None \<and> ae_write env = None \<and> ae_remove env = None)"

definition in_archives :: "(bytes \<Rightarrow> bytes) \<Rightarrow> files \<Rightarrow> string list \<Rightarrow> bytes" where
  "in_archives gunzip fs names = concat (map (\<lambda>n. gunzip (file_bytes fs n)) names)"

fun log_inv :: "log_setup \<Rightarrow> (bytes \<Rightarrow> bytes) \<Rightarrow> files \<Rightarrow> log_state \<times> log_effect list \<Rightarrow> bool" where
  "log_inv su gunzip fs0 (st, effs) \<longleftrightarrow>
     (lg_rolling st \<longleftrightarrow> lg_thread st \<noteq> NoRoll)
     \<and> (case lg_thread st of
          RollRenamed out \<Rightarrow> out \<notin> set (archived effs) \<and> out \<noteq> log_filepath (su_vars su) \<and> out \<noteq> logtmp_filepath (su_vars su)
        | _ \<Rightarrow> lg_files st (logtmp_filepath (su_vars su)) = None)
     \<and> (\<forall>n \<in> set (archived effs). n \<noteq> log_filepath (su_vars su) \<and> n \<noteq> logtmp_filepath (su_vars su))
     \<and> in_archives gunzip (lg_files st) (archived effs)
        @ file_bytes (lg_files st) (logtmp_filepath (su_vars su)) @ file_bytes (lg_files st) (log_filepath (su_vars su))
       = file_bytes fs0 (log_filepath (su_vars su)) @ written effs"

lemma in_archives_cong:
  "(\<And>n. n \<in> set names \<Longrightarrow> fs' n = fs n) \<Longrightarrow> in_archives gunzip fs' names = in_archives gunzip fs names"
  by (simp add: in_archives_def file_bytes_def cong: map_cong)

lemma log_inv_emit:
  assumes "log_inv su gunzip fs0 (st, effs)"
  shows "log_inv su gunzip fs0 (run_log su (Emit env info) (st, effs))"
proof -
  define st1 where
    "st1 = (if setup_mode su = FileMode then maybe_check_and_roll su (ee_now env) (ee_stat env) st else st)"
  obtain st' effs' where entry: "log_entry su (ee_time env) (ee_append env) info st1 = (st', effs')"
    by (cases "log_entry su (ee_time env) (ee_append env) info st1")
  then have run: "run_log su (Emit env info) (st, effs) = (st', effs @ effs')" by (simp add: emit_def st1_def Let_def)
  have st1: "lg_files st1 = lg_files st" "lg_rolling st1 \<longleftrightarrow> lg_thread st1 \<noteq> NoRoll"
    "lg_thread st1 = lg_thread st \<or> lg_thread st = NoRoll \<and> lg_thread st1 = RollSpawned"
    using assms maybe_check_and_roll_effects [where su = su and st = st and now = "ee_now env" and stat = "ee_stat env"]
    by (auto simp: st1_def)
  note e = log_entry_effects [OF entry]
  have tmp: "lg_files st' (logtmp_filepath (su_vars su)) = lg_files st (logtmp_filepath (su_vars su))"
    using e(1) [OF log_paths_apart(1)] st1(1) by simp
  have arch: "in_archives gunzip (lg_files st') (archived effs) = in_archives gunzip (lg_files st) (archived effs)"
    using assms e(1) st1(1) by (intro in_archives_cong) auto
  show ?thesis
    using assms st1(2,3) tmp arch e(2-5) unfolding run
    by (auto simp: file_bytes_def [of _ "logtmp_filepath (su_vars su)"] st1(1) split: roll_phase.splits)
qed

lemma rename_cases:
  assumes "fs_rename fault a b fs = (fs', r)" and "a \<noteq> b"
  shows "(\<exists>d. r = Ok () \<and> fs a = Some d \<and> fs' = fs(a := None, b \<mapsto> d)) \<or> (\<exists>e. r = Err e \<and> fs' = fs)"
  using assms by (auto simp: fs_rename_def split: option.splits)

lemma repair_without_tmp: "fs (logtmp_filepath (su_vars su)) = None \<Longrightarrow> repair_tmp_file su env fs = (fs, [])"
  by (simp add: repair_tmp_file_def metadata_len_def fs_read_def split: option.split)

lemma perform_roll_cases:
  assumes "lg_files st (logtmp_filepath (su_vars su)) = None" and "perform_roll su env st = (st', effs)"
  shows "archived effs = [] \<and> written effs = []
     \<and> (st' = roll_ends st
        \<or> (\<exists>d. lg_files st (log_filepath (su_vars su)) = Some d
             \<and> st' = st\<lparr>lg_files := (lg_files st)(log_filepath (su_vars su) := None, logtmp_filepath (su_vars su) \<mapsto> d),
                        lg_thread := RollRenamed (output_filepath su env)\<rparr>))"
proof -
  have cases: "(\<exists>d. r = Ok () \<and> lg_files st (log_filepath (su_vars su)) = Some d
        \<and> fs' = (lg_files st)(log_filepath (su_vars su) := None, logtmp_filepath (su_vars su) \<mapsto> d))
      \<or> (\<exists>e. r = Err e \<and> fs' = lg_files st)"
    if "fs_rename fault (log_filepath (su_vars su)) (logtmp_filepath (su_vars su)) (lg_files st) = (fs', r)" for fault fs' r
    using rename_cases [OF that] log_paths_apart(1) [of "su_vars su"] by metis
  have state: "st\<lparr>lg_files := lg_files st\<rparr> = st" by simp
  show ?thesis
    using assms(2) repair_without_tmp [of "lg_files st" su env, OF assms(1)]
    by (auto simp: perform_roll_def Let_def state split: prod.splits result.splits fs_error.splits dest!: cases)
qed

lemma log_inv_rename:
  assumes "log_inv su gunzip fs0 (st, effs)" and "archiving_works su (ThreadRename env) (st, effs)"
  shows "log_inv su gunzip fs0 (run_log su (ThreadRename env) (st, effs))"
proof (cases "lg_thread st = RollSpawned")
  case True
  then have tmp: "lg_files st (logtmp_filepath (su_vars su)) = None" using assms(1) by simp
  obtain st' effs' where roll: "roll_thread su env st = (st', effs')" by (cases "roll_thread su env st")
  have run: "run_log su (ThreadRename env) (st, effs) = (st', effs @ effs')" using True roll by simp
  have "archived effs' = [] \<and> written effs' = []
     \<and> (st' = roll_ends st
        \<or> (\<exists>d. lg_files st (log_filepath (su_vars su)) = Some d
             \<and> st' = st\<lparr>lg_files := (lg_files st)(log_filepath (su_vars su) := None, logtmp_filepath (su_vars su) \<mapsto> d),
                        lg_thread := RollRenamed (output_filepath su env)\<rparr>))"
    using roll perform_roll_cases [OF tmp, of env st' effs'] by (auto simp: roll_thread_def split: result.splits)
  moreover have "in_archives gunzip ((lg_files st)(log_filepath (su_vars su) := None, logtmp_filepath (su_vars su) \<mapsto> d))
      (archived effs) = in_archives gunzip (lg_files st) (archived effs)" for d
    using assms(1) by (intro in_archives_cong) auto
  ultimately show ?thesis
    using assms True tmp log_paths_apart unfolding run
    by (auto simp: roll_ends_def file_bytes_def)
next
  case False
  then show ?thesis using assms by (auto split: roll_phase.splits)
qed

lemma log_inv_archive:
  assumes gzip: "\<And>d. gunzip (su_gzip su d) = d"
    and inv: "log_inv su gunzip fs0 (st, effs)" and works: "archiving_works su (ThreadArchive env) (st, effs)"
  shows "log_inv su gunzip fs0 (run_log su (ThreadArchive env) (st, effs))"
proof (cases "lg_thread st")
  case (RollRenamed out)
  let ?log = "log_filepath (su_vars su)" and ?tmp = "logtmp_filepath (su_vars su)"
  from inv RollRenamed have out: "out \<notin> set (archived effs)" "out \<noteq> ?log" "out \<noteq> ?tmp" by simp_all
  show ?thesis
  proof (cases "lg_files st ?tmp")
    case None
    then show ?thesis using inv works RollRenamed
      by (simp add: archive_and_cleanup_def fs_read_def roll_ends_def Let_def)
  next
    case (Some d)
    let ?fs = "(lg_files st)(out \<mapsto> su_gzip su d, ?tmp := None)"
    have run: "run_log su (ThreadArchive env) (st, effs) = (roll_ends (st\<lparr>lg_files := ?fs\<rparr>), effs @ [Archived out])"
      using Some works RollRenamed out by (simp add: archive_and_cleanup_def fs_read_def fs_write_def fs_remove_def Let_def)
    have "in_archives gunzip ?fs (archived effs) = in_archives gunzip (lg_files st) (archived effs)"
      using inv out by (intro in_archives_cong) auto
    moreover have "in_archives gunzip ?fs (archived effs @ [out]) = in_archives gunzip ?fs (archived effs) @ d"
      using out by (simp add: in_archives_def gzip)
    ultimately show ?thesis using inv Some out log_paths_apart(1) [of "su_vars su"] unfolding run
      by (simp add: roll_ends_def file_bytes_def [of "lg_files st" ?tmp])
  qed
qed (use inv in simp_all)

lemma log_inv_start: "fs (logtmp_filepath (su_vars su)) = None \<Longrightarrow> log_inv su gunzip fs (log_start fs, [])"
  by (simp add: log_start_def in_archives_def file_bytes_def)

definition log_accounted :: "log_setup \<Rightarrow> (bytes \<Rightarrow> bytes) \<Rightarrow> files \<Rightarrow> log_state \<times> log_effect list \<Rightarrow> bool" where
  "log_accounted su gunzip fs r \<longleftrightarrow>
     ((\<forall>d. gunzip (su_gzip su d) = d) \<and> fs (logtmp_filepath (su_vars su)) = None \<longrightarrow> log_inv su gunzip fs r)"

interpretation log_runs: guarded_system "(log_start fs, [])" "archiving_works su" "run_log su"
  "log_accounted su gunzip fs" for su gunzip fs
proof
  show "log_accounted su gunzip fs (log_start fs, [])" by (simp add: log_accounted_def log_inv_start del: log_inv.simps)
  fix r e
  assume "log_accounted su gunzip fs r" and "archiving_works su e r"
  then show "log_accounted su gunzip fs (run_log su e r)"
    by (cases r; cases e) (simp_all add: log_accounted_def log_inv_emit log_inv_rename log_inv_archive
        del: log_inv.simps run_log.simps archiving_works.simps)
qed

text \<open>The bytes an entry has in the log file.\<close>

fun entry_bytes :: "log_event \<Rightarrow> bytes" where
  "entry_bytes (Emit env info) =
     as_bytes (format_entry (level_as_str (lx_level info)) (Some (ee_time env)) (lx_topic info) (lx_content info) @ NEWLINE)"
| "entry_bytes _ = []"

fun appends_work :: "log_event \<Rightarrow> bool" where
  "appends_work (Emit env info) = (ee_append env = None)"
| "appends_work _ = True"

lemma emit_writes:
  assumes "setup_mode su = FileMode" and "appends_work (Emit env info)"
  shows "written (snd (emit su env info st)) = entry_bytes (Emit env info)"
  using assms
  by (simp add: emit_def log_entry_def append_file_def fs_append_def Let_def split: prod.split)

lemma archive_writes_nothing: "written (snd (archive_and_cleanup su env tmp out fs)) = []"
  by (simp add: archive_and_cleanup_def Let_def split: result.split prod.split)

lemma rename_writes_nothing: "written (snd (roll_thread su env st)) = []"
proof -
  have "written effs = []" if "repair_tmp_file su env fs = (fs', effs)" for fs fs' effs
    using that archive_writes_nothing [of su "re_repair env" "logtmp_filepath (su_vars su)" "repair_filepath su env" fs]
    by (auto simp: repair_tmp_file_def split: result.splits)
  then show ?thesis
    by (auto simp: roll_thread_def perform_roll_def Let_def split: result.split prod.split fs_error.split)
qed

lemma run_log_writes:
  assumes "setup_mode su = FileMode" and "appends_work e"
  shows "written (snd (run_log su e (st, effs))) = written effs @ entry_bytes e"
proof (cases e)
  case (Emit env info)
  then show ?thesis using emit_writes [of su env info st] assms by (simp add: case_prod_unfold del: entry_bytes.simps)
next
  case (ThreadRename env)
  then show ?thesis using rename_writes_nothing [of su env st] by (simp add: case_prod_unfold split: roll_phase.split)
next
  case (ThreadArchive env)
  then show ?thesis
    using archive_writes_nothing [of su env "logtmp_filepath (su_vars su)" _ "lg_files st"]
    by (simp add: case_prod_unfold split: roll_phase.split)
qed

lemma log_run_writes:
  assumes "setup_mode su = FileMode" and "list_all appends_work es"
  shows "written (snd (fold (run_log su) es r)) = written (snd r) @ concat (map entry_bytes es)"
  using assms(2)
proof (induction es arbitrary: r)
  case (Cons e es)
  then show ?case using run_log_writes [OF assms(1), of e "fst r" "snd r"] by (simp del: run_log.simps)
qed simp

text \<open>(C26) Rotation loses no entry. Start without a leftover temporary file and let entries be emitted
  while the rotation thread renames and archives, in any interleaving, as long as the archiving works
  and archives get new names. Then at every moment the archives, the temporary file and the log file, one
  after the other, hold what the log held at the start and then every entry emitted, complete and in
  order; and there is a rotation thread exactly while the \<open>ROLLING\<close> flag is up.\<close>
theorem log_rotation_keeps_entries:
  assumes "\<forall>d. gunzip (su_gzip su d) = d" and "fs (logtmp_filepath (su_vars su)) = None"
    and "setup_mode su = FileMode" and "list_all appends_work es"
    and "valid_run (archiving_works su) (run_log su) es (log_start fs, [])"
    and "fold (run_log su) es (log_start fs, []) = (st, effs)"
  shows "in_archives gunzip (lg_files st) (archived effs)
       @ file_bytes (lg_files st) (logtmp_filepath (su_vars su)) @ file_bytes (lg_files st) (log_filepath (su_vars su))
     = file_bytes fs (log_filepath (su_vars su)) @ concat (map entry_bytes es)
     \<and> (lg_rolling st \<longleftrightarrow> lg_thread st \<noteq> NoRoll)"
  using log_runs.inv_reachable [OF assms(5), of gunzip] log_run_writes [OF assms(3,4), of "(log_start fs, [])"] assms(1,2,6)
  by (simp add: log_accounted_def del: entry_bytes.simps)

definition demo_setup :: log_setup where
  "demo_setup = \<lparr>su_vars = Map.empty,
     su_terminal = \<lparr>tm_no_color = True, tm_is_terminal = False, tm_color = level_as_str\<rparr>,
     su_gzip = rev, su_show = (\<lambda>_. ''error'')\<rparr>"

definition demo_big :: bytes where
  "demo_big = replicate (MAX_SIZE_BYTES + 1) 0"

lemma demo_big_length: "length demo_big = MAX_SIZE_BYTES + 1"
  by (simp add: demo_big_def)

definition demo_emit :: "instant \<Rightarrow> log_event" where
  "demo_emit now = Emit \<lparr>ee_now = now, ee_time = ''t'', ee_stat = None, ee_append = None\<rparr>
     \<lparr>lx_level = LvPreset, lx_topic = ''a'', lx_content = []\<rparr>"

definition demo_archive :: archive_env where
  "demo_archive = \<lparr>ae_read = None, ae_write = None, ae_remove = None, ae_time = ''t''\<rparr>"

definition demo_roll :: roll_env where
  "demo_roll = \<lparr>re_stat = None, re_rename = None, re_rename_again = None, re_tmp_stat = None, re_repair = demo_archive,
     re_created = None, re_tmp_created = None, re_current = ''0101_0000'', re_nanos = 7, re_time = ''t''\<rparr>"

definition demo_log_run :: "log_event list" where
  "demo_log_run = [demo_emit 0, ThreadRename demo_roll, demo_emit 1, ThreadArchive demo_archive, demo_emit 2]"

lemmas demo_log_defs = demo_setup_def demo_emit_def demo_archive_def demo_roll_def setup_mode_def log_mode_from_env_def
  log_filepath_def logtmp_filepath_def fail_path_gener_def log_path_def dir_from_def path_join_def

lemma demo_log_mode: "setup_mode demo_setup = FileMode"
  by (simp add: demo_log_defs)

lemma demo_log_paths:
  "log_filepath (su_vars demo_setup) = ''./log''" "logtmp_filepath (su_vars demo_setup) = ''./log.tmp''"
  by (simp_all add: demo_log_defs)

lemma demo_log_valid:
  "valid_run (archiving_works demo_setup) (run_log demo_setup) demo_log_run (log_start [''./log'' \<mapsto> demo_big], [])"
  "archived (snd (fold (run_log demo_setup) demo_log_run (log_start [''./log'' \<mapsto> demo_big], []))) \<noteq> []"
  using log_paths_apart(2,3) [of demo_setup demo_roll]
  by (simp_all add: demo_log_run_def demo_emit_def emit_def demo_log_mode maybe_check_and_roll_def check_and_roll_def
      metadata_len_def fs_read_def log_start_def demo_log_paths demo_big_length log_entry_def append_file_def fs_append_def
      roll_thread_def perform_roll_def fs_rename_def demo_roll_def demo_archive_def archive_and_cleanup_def fs_write_def
      fs_remove_def roll_ends_def ROLL_CHECK_INTERVAL_def from_secs_def Let_def)

text \<open>A log of one byte more than 10 MiB, an entry, the rename, an entry, the archiving, an entry.\<close>
theorem log_rotation_keeps_entries_witness:
  "\<exists>st effs. fold (run_log demo_setup) demo_log_run (log_start [''./log'' \<mapsto> demo_big], []) = (st, effs)
     \<and> archived effs \<noteq> []
     \<and> in_archives rev (lg_files st) (archived effs) @ file_bytes (lg_files st) ''./log.tmp'' @ file_bytes (lg_files st) ''./log''
       = demo_big @ concat (map entry_bytes demo_log_run)"
proof -
  let ?fs = "[''./log'' \<mapsto> demo_big]"
  obtain st effs where run: "fold (run_log demo_setup) demo_log_run (log_start ?fs, []) = (st, effs)"
    by (cases "fold (run_log demo_setup) demo_log_run (log_start ?fs, [])")
  have gzip: "\<forall>d. rev (su_gzip demo_setup d) = d" by (simp add: demo_setup_def)
  have tmp: "?fs (logtmp_filepath (su_vars demo_setup)) = None" by (simp add: demo_log_paths)
  have works: "list_all appends_work demo_log_run" by (simp add: demo_log_run_def demo_emit_def)
  show ?thesis
    using log_rotation_keeps_entries [OF gzip tmp demo_log_mode works demo_log_valid(1) run] demo_log_valid(2) run
    by (simp add: demo_log_paths file_bytes_def [of ?fs] del: entry_bytes.simps)
qed

text \<open>(C34) A leftover temporary file is lost. When the archiving of a rotated log failed, its content is
  still in \<open>log.tmp\<close>. The next rotation renames the log over it, because renaming replaces an existing
  file: the files it leaves are those it would leave if there had been nothing in \<open>log.tmp\<close>, and
  \<open>repair_tmp_file\<close> is never asked to save it.\<close>
theorem leftover_tmp_lost:
  assumes "lg_thread st = RollSpawned" and "lg_files st (log_filepath (su_vars su)) = Some data"
    and "re_stat env = None" and "re_rename env = None"
    and "ae_read aenv = None" and "ae_write aenv = None" and "ae_remove aenv = None"
  shows "lg_files (fst (fold (run_log su) [ThreadRename env, ThreadArchive aenv]
       (st\<lparr>lg_files := (lg_files st)(logtmp_filepath (su_vars su) \<mapsto> leftover)\<rparr>, effs)))
     = (lg_files st)(log_filepath (su_vars su) := None, output_filepath su env \<mapsto> su_gzip su data,
                     logtmp_filepath (su_vars su) := None)"
  using assms log_paths_apart(1) [of "su_vars su"] log_paths_apart(2,3) [of su env]
  by (simp add: roll_thread_def metadata_len_def fs_read_def perform_roll_def fs_rename_def archive_and_cleanup_def
      fs_write_def fs_remove_def roll_ends_def Let_def fun_upd_twist)

definition demo_leftover :: log_state where
  "demo_leftover = \<lparr>lg_files = [''./log'' \<mapsto> demo_big], lg_last_check = Some 0, lg_rolling = True, lg_thread = RollSpawned\<rparr>"

text \<open>The three bytes in \<open>log.tmp\<close> are in no file after the rotation.\<close>
theorem leftover_tmp_lost_witness:
  "lg_files (fst (fold (run_log demo_setup) [ThreadRename demo_roll, ThreadArchive demo_archive]
       (demo_leftover\<lparr>lg_files := [''./log'' \<mapsto> demo_big, ''./log.tmp'' \<mapsto> [1, 2, 3]]\<rparr>, [])))
     = [output_filepath demo_setup demo_roll \<mapsto> rev demo_big]"
proof -
  have st: "lg_thread demo_leftover = RollSpawned" "lg_files demo_leftover = [''./log'' \<mapsto> demo_big]"
    by (simp_all add: demo_leftover_def)
  have envs: "re_stat demo_roll = None" "re_rename demo_roll = None" "ae_read demo_archive = None"
    "ae_write demo_archive = None" "ae_remove demo_archive = None" "su_gzip demo_setup = rev"
    by (simp_all add: demo_roll_def demo_archive_def demo_setup_def)
  have "lg_files demo_leftover (log_filepath (su_vars demo_setup)) = Some demo_big"
    by (simp add: st demo_log_paths)
  from leftover_tmp_lost [OF st(1) this envs(1-5), of "[1, 2, 3]" "[]"]
  have "lg_files (fst (fold (run_log demo_setup) [ThreadRename demo_roll, ThreadArchive demo_archive]
       (demo_leftover\<lparr>lg_files := [''./log'' \<mapsto> demo_big, ''./log.tmp'' \<mapsto> [1, 2, 3]]\<rparr>, [])))
     = [''./log'' \<mapsto> demo_big](''./log'' := None, output_filepath demo_setup demo_roll \<mapsto> rev demo_big, ''./log.tmp'' := None)"
    by (simp only: st demo_log_paths envs)
  moreover have "[''./log'' \<mapsto> demo_big](''./log'' := None, output_filepath demo_setup demo_roll \<mapsto> rev demo_big, ''./log.tmp'' := None)
      = [output_filepath demo_setup demo_roll \<mapsto> rev demo_big]"
    using log_paths_apart(2,3) [of demo_setup demo_roll] by (auto simp: demo_log_paths fun_eq_iff)
  ultimately show ?thesis by simp
qed

lemma dec_digit:
  assumes "n < 10"
  shows "CHR 0x0A \<notin> set (dec n)"
proof -
  have "of_char (CHR 0x0A) = (10::nat)" by simp
  moreover have "of_char (char_of (48 + n) :: char) = 48 + n" using assms by simp
  moreover have "(10::nat) \<noteq> 48 + n" by simp
  ultimately have "CHR 0x0A \<noteq> char_of (48 + n)" by metis
  then show ?thesis using assms by (simp add: dec.simps [of n])
qed

text \<open>An entry for the journal is one line, whatever its content, when its topic is.\<close>

lemma render_journald_one_line:
  assumes "CHR 0x0A \<notin> set (lx_topic info)"
  shows "CHR 0x0A \<notin> set (render_journald info)"
proof -
  have "syslog_priority (lx_level info) < 10" by (cases "lx_level info") simp_all
  moreover have "CHR 0x0A \<notin> set (level_as_str (lx_level info))" by (cases "lx_level info") simp_all
  ultimately show ?thesis using assms dec_digit oneline_no_newline [of "lx_content info"]
    by (auto simp: render_journald_def Let_def)
qed

end
