(* ===== verification/Spec2Isabelle.thy ===== *)
theory Spec2Isabelle
  imports NN_Node NN_Startup NN_Log
begin

text \<open>
  A verification development for NexusNet, a peer-to-peer node in Rust (\<open>src/src\<close>).

  \<^bold>\<open>The program.\<close> A node joins a Kademlia network over libp2p, announces the services of its local
  backends there, and carries requests between backends and other nodes. The swarm actor owns the libp2p
  swarm. The node controller receives its events, decides through the authorization gate which inbound
  requests may pass, and runs the control commands of the backends. The service dispatcher holds one
  connection per backend and routes requests and control messages between it and the controller. The
  service registry keeps the announcements in step with the backends that are ready. Reads of the network
  go through a cache that refreshes each key at most once at a time. Requests between nodes may travel in
  a post-quantum envelope.

  \<^bold>\<open>Theories, in the order of their dependencies.\<close>
  \<^item> \<open>NN_Prelude\<close>: results, bytes, UTF-8, hash maps as association lists, time, and the contracts the
    components share as locales: \<open>guarded_system\<close> and \<open>invariant_system\<close> (an invariant of every run),
    \<open>backoff_schedule\<close>, \<open>version_guard\<close> and \<open>length_prefix\<close>. Each is interpreted in the components.
  \<^item> \<open>NN_Config\<close>: \<open>config.rs\<close> and \<open>limits.rs\<close>. The schema as records, \<open>validate\<close>, the completion of a file
    with missing fields (\<open>merge_missing\<close>), \<open>from_toml_file\<close>, and the accessors of \<open>ConfigHandle\<close>. A node
    that starts runs on a validated configuration.
  \<^item> \<open>NN_Auth\<close>: \<open>cose.rs\<close> and \<open>auth.rs\<close>. Signing and verification of the index and the whitelists, names
    and keys, the guard against rollback. What is accepted was signed for exactly this purpose.
  \<^item> \<open>NN_DhtCache\<close>: \<open>dht_cache.rs\<close>, its critical sections as steps. One refresh per key, no waiter is
    forgotten, the bounds of size and lifetime, and the window in which an invalidation is lost.
  \<^item> \<open>NN_AuthGate\<close>: \<open>controller/auth_gate.rs\<close>. Over every run of the gate and its caches, \<open>authorize\<close>
    allows only peers of a whitelist the authority signed.
  \<^item> \<open>NN_Registry\<close>: \<open>controller/service_registry.rs\<close>. The state, the planner and the actor with its jobs.
    What a job announces is backed by a ready backend; the binary search over the list of types is exact;
    what a late result of an earlier generation does.
  \<^item> \<open>NN_Relay\<close>, \<open>NN_Peers\<close>: \<open>controller/relay_manager.rs\<close>, \<open>peer_tracker.rs\<close>, \<open>dht_fetchers.rs\<close> and
    \<open>bootstrap.rs\<close>. The sets of relays stay consistent; the tracker refines the history of pings.
  \<^item> \<open>NN_Sidecar\<close>: \<open>sidecar_protocol.rs\<close>. Frames survive any division of the byte stream.
  \<^item> \<open>NN_Dispatcher\<close>: \<open>service_dispatcher.rs\<close>. The router and the task of a backend; every request and
    every control message is answered exactly once.
  \<^item> \<open>NN_Pq\<close>: \<open>network/pq.rs\<close>. Key files, identities and envelopes, their round trips, and who sent what
    opens.
  \<^item> \<open>NN_Actor\<close>: \<open>network/actor.rs\<close> and \<open>network/mod.rs\<close>. Every command is answered once, a node that
    requires encryption neither sends nor accepts plaintext, and a sealed call succeeds end to end. The
    locale \<open>collecting_query\<close> is the contract of the queries that gather several answers.
  \<^item> \<open>NN_Command\<close>: the commands of \<open>controller/command.rs\<close> that run in a task of their own; the rounds of a
    service request, their number and their time.
  \<^item> \<open>NN_Node\<close>: \<open>controller/node_controller.rs\<close> and the other commands. It composes the gate, the
    registry, the relays, the caches and the actor: what reaches the dispatcher was allowed, requests and
    commands are settled once, writes are confined, and an inbound request is served end to end.
  \<^item> \<open>NN_Files\<close>: what the code uses of \<open>std::fs\<close> and \<open>std::path\<close>, with failing operations, and \<open>paths.rs\<close>.
  \<^item> \<open>NN_Identity\<close>: \<open>network/identity.rs\<close>. The identity survives restarts and interrupted writes.
  \<^item> \<open>NN_Startup\<close>: \<open>network/addr.rs\<close>, \<open>network/behaviour.rs\<close>, \<open>network/builder.rs\<close> and the start sequence
    of \<open>main.rs\<close>. A started node listens on addresses its host has.
  \<^item> \<open>NN_Log\<close>: \<open>log.rs\<close>. Rotation loses no entry, but for a leftover of a rotation that failed.

  \<^bold>\<open>How code becomes definitions.\<close> A struct is a record and an enum a datatype; a function keeps its name
  unless HOL has it. A method that changes its receiver returns the new state; a method that sends
  returns its effects or actions in order, too. Integers that can wrap or saturate are words of their
  width; lengths and times are natural numbers, times in nanoseconds. A \<open>HashMap\<close> is an association list
  with distinct keys, a reply channel a number. An await is a boundary between steps, or, where the task
  does nothing but await, the answer is an argument. The environment of a step is a record: the clock, random
  numbers, and what the calls of libraries return in it. The libraries under these (libp2p, the
  cryptographic crates, serde, ciborium, TOML, gzip) are arguments. What a theorem needs of them is a named
  hypothesis that states documented behaviour, such as \<open>pq_lib_ok\<close>, \<open>auth_codec_ok\<close> or
  \<open>identity_libs_ok\<close>, and the theorem is applied to a concrete instance that satisfies it.

  \<^bold>\<open>Bounds.\<close> No definition takes fuel. Loops are structural recursions or functions with a termination
  proof; the endless loops of the tasks are steps, and a run is a finite sequence of them of any length. The
  capacities are those of the code: 32 jobs for each of 4 authorization workers, 256 commands on the way to
  the registry, 64 for each backend, between 1 and 16 permits for DHT work. Where a counter of 64 bits
  must not wrap (the generation of the registry), the theorem says so.

  \<^bold>\<open>Granularity.\<close> The critical sections of the DHT cache interleave freely. In the gate, the steps of the
  caches that happen while \<open>authorize\<close> waits are part of its input. In the node, an authorization job
  is one turn of its worker, and a DHT command takes effect when its task ends. The rotation thread of the log
  and the threads that emit entries interleave at the rename and at the archiving.

  \<^bold>\<open>Not modelled.\<close>
  \<^item> The inside of libp2p: transports, the routing table, connection handling. \<open>NN_Actor\<close> takes its events
    in any order and returns the calls made to it; \<open>NN_Startup\<close> gives the configuration of each
    behaviour, and not what the behaviour does with it.
  \<^item> Sockets, timers and scheduling of tokio: what arrives is an input, and fairness is not assumed.
  \<^item> In \<open>main.rs\<close>, the signal handlers and the spawning of the tasks. A reload on SIGHUP is the command
    \<open>ReloadConfig\<close>, whose reply nobody awaits.
  \<^item> The text of log entries of the other components, the colours of the terminal, and \<open>controller/mod.rs\<close>,
    which only declares modules.
  \<^item> The tests, and the secrecy of the cryptography beyond the laws the hypotheses state.
\<close>

end
